(* ===== verification/Prelude.thy ===== *)
theory Prelude
  imports Complex_Main "HOL-Library.Word" "HOL-Library.Char_ord" "HOL-Library.List_Lexorder" "HOL-Library.Sublist"
begin

text \<open>
  What the component theories share: the names of the model's basic types, the parts of
  Go's language and standard library that the modelled packages call, and the generic lemmas
  on lists, maps and bounded integers that the component proofs use.

  Conventions.
  \<^item> A Go function that returns \<open>(T, error)\<close> is a HOL function into \<open>('a, 'e) result\<close>: the
    returned value paired with \<open>None\<close> (the nil error) or \<open>Some e\<close>. The value is kept on the
    error branch as well, because several callers of the modelled code look at it there.
    An error is identified by the sentinel that \<open>errors.Is\<close> finds; the formatted
    message around it is left out.
  \<^item> A \<open>time.Time\<close> is its distance in nanoseconds from Go's zero \<open>time.Time\<close>, an unbounded
    integer, so \<open>t.IsZero()\<close> is \<open>t = 0\<close>, \<open>Before\<close> and \<open>After\<close> are \<open><\<close> and \<open>>\<close>. A
    \<open>time.Duration\<close> is an \<open>int64\<close> number of nanoseconds, and \<open>Time.Sub\<close> saturates.
  \<^item> A reading of the wall clock (\<open>time.Now()\<close>) is an argument of the definition.
  \<^item> Signed machine integers are \<open>int\<close>, with \<open>wrap32\<close> or \<open>wrap64\<close> around every operation
    that can leave the width; unsigned ones are words.
  \<^item> A Go \<open>float64\<close> is a value of \<open>Float64\<close>, with the rounding, infinities and NaN of IEEE 754.
  \<^item> A Go map is a partial function; a loop over it takes the order in which the runtime
    delivers the keys as an argument (\<open>iteration_order\<close>), and the theorems hold for every order.
  \<^item> A Go string is the list of its bytes.
\<close>

section \<open>Types\<close>

type_synonym gotime = int
type_synonym duration = int
type_synonym u64 = "64 word"
type_synonym ('a, 'e) result = "'a \<times> 'e option"

named_theorems go_simps \<open>unfolding rules of the Go primitives\<close>

section \<open>Machine integers\<close>

definition wrap32 :: "int \<Rightarrow> int" where
  "wrap32 x = (x + 2 ^ 31) mod 2 ^ 32 - 2 ^ 31"

definition wrap64 :: "int \<Rightarrow> int" where
  "wrap64 x = (x + 2 ^ 63) mod 2 ^ 64 - 2 ^ 63"

definition sat64 :: "int \<Rightarrow> int" where
  "sat64 x = max (- (2 ^ 63)) (min (2 ^ 63 - 1) x)"

text \<open>\<open>Time.Sub\<close> returns the extreme duration when the difference does not fit.\<close>

definition time_sub :: "gotime \<Rightarrow> gotime \<Rightarrow> duration" where
  "time_sub t u = sat64 (t - u)"

definition time_add :: "gotime \<Rightarrow> duration \<Rightarrow> gotime" where
  "time_add t d = t + d"

text \<open>\<open>Time.Unix\<close>: whole seconds since 1970, which is 62135596800 seconds after the zero time.\<close>

definition unix_seconds :: "gotime \<Rightarrow> int" where
  "unix_seconds t = t div 10 ^ 9 - 62135596800"

definition unix_nano :: "gotime \<Rightarrow> int" where
  "unix_nano t = wrap64 (t - 62135596800 * 10 ^ 9)"

abbreviation IsZero :: "gotime \<Rightarrow> bool" where
  "IsZero t \<equiv> t = 0"

text \<open>Go's integer remainder truncates toward zero.\<close>

definition go_rem :: "int \<Rightarrow> int \<Rightarrow> int" where
  "go_rem a b = sgn a * (\<bar>a\<bar> mod \<bar>b\<bar>)"

text \<open>Integer division truncates as well.\<close>

definition go_div :: "int \<Rightarrow> int \<Rightarrow> int" where
  "go_div a b = sgn a * sgn b * (\<bar>a\<bar> div \<bar>b\<bar>)"

section \<open>Strings\<close>

text \<open>
  \<open>strings.TrimSpace(s) == ""\<close> holds when \<open>s\<close> is a sequence of white-space runes:
  \<open>ws_rune s\<close> is the length in bytes of the white-space rune that \<open>s\<close> starts with, 0 if
  it starts with none (the UTF-8 encodings of the runes \<open>unicode.IsSpace\<close> accepts).
\<close>

definition ws_rune :: "string \<Rightarrow> nat" where
  "ws_rune s = (case map of_char (take 3 s) :: nat list of
       [] \<Rightarrow> 0
     | a # r \<Rightarrow>
        if a \<in> {9, 10, 11, 12, 13, 32} then 1
        else (case r of
            [] \<Rightarrow> 0
          | b # r' \<Rightarrow>
             if a = 194 \<and> (b = 133 \<or> b = 160) then 2
             else (case r' of
                 [] \<Rightarrow> 0
               | c # _ \<Rightarrow>
                  if a = 225 \<and> b = 154 \<and> c = 128
                   \<or> a = 226 \<and> b = 128 \<and> (128 \<le> c \<and> c \<le> 138 \<or> c = 168 \<or> c = 169 \<or> c = 175)
                   \<or> a = 226 \<and> b = 129 \<and> c = 159
                   \<or> a = 227 \<and> b = 128 \<and> c = 128
                  then 3 else 0)))"

function blank :: "string \<Rightarrow> bool" where
  "blank s = (if s = [] then True else if ws_rune s = 0 then False else blank (drop (ws_rune s) s))"
  by pat_completeness auto
termination
  by (relation "measure length") auto

declare blank.simps [simp del]

text \<open>\<open>strconv.Itoa\<close> and the verb \<open>%d\<close>.\<close>

definition digit_char :: "nat \<Rightarrow> char" where
  "digit_char d = char_of (48 + d)"

fun show_nat :: "nat \<Rightarrow> string" where
  "show_nat n = (if n < 10 then [digit_char n] else show_nat (n div 10) @ [digit_char (n mod 10)])"

declare show_nat.simps [simp del]

definition show_int :: "int \<Rightarrow> string" where
  "show_int i = (if i < 0 then ''-'' @ show_nat (nat (- i)) else show_nat (nat i))"

text \<open>\<open>strings.Join\<close>, \<open>strings.Contains\<close>, \<open>strings.Index\<close> and \<open>hex.DecodeString\<close>.\<close>

fun str_join :: "string \<Rightarrow> string list \<Rightarrow> string" where
  "str_join sep [] = []"
| "str_join sep [x] = x"
| "str_join sep (x # y # ys) = x @ sep @ str_join sep (y # ys)"

fun str_index :: "string \<Rightarrow> string \<Rightarrow> nat option" where
  "str_index [] pat = (if pat = [] then Some 0 else None)"
| "str_index (c # s) pat = (if prefix pat (c # s) then Some 0 else map_option Suc (str_index s pat))"

definition str_contains :: "string \<Rightarrow> string \<Rightarrow> bool" where
  "str_contains s pat \<longleftrightarrow> str_index s pat \<noteq> None"

definition is_hex_char :: "char \<Rightarrow> bool" where
  "is_hex_char c \<longleftrightarrow> (let n = of_char c :: nat in
     48 \<le> n \<and> n \<le> 57 \<or> 97 \<le> n \<and> n \<le> 102 \<or> 65 \<le> n \<and> n \<le> 70)"

definition hex_decodable :: "string \<Rightarrow> bool" where
  "hex_decodable s \<longleftrightarrow> even (length s) \<and> list_all is_hex_char s"

text \<open>\<open>strings.ToLower\<close> on ASCII text; where the code calls it on other text the outcome is the same.\<close>

definition ascii_lower :: "string \<Rightarrow> string" where
  "ascii_lower s = map (\<lambda>c. let n = of_char c :: nat in if 65 \<le> n \<and> n \<le> 90 then char_of (n + 32) else c) s"

section \<open>Loops over maps\<close>

definition iteration_order :: "'k list \<Rightarrow> ('k \<rightharpoonup> 'v) \<Rightarrow> bool" where
  "iteration_order ks m \<longleftrightarrow> distinct ks \<and> set ks = dom m"

section \<open>Lemmas on machine integers\<close>

lemma wrap32_id [simp]: "- (2 ^ 31) \<le> x \<Longrightarrow> x < 2 ^ 31 \<Longrightarrow> wrap32 x = x"
  by (simp add: wrap32_def)

lemma wrap64_id [simp]: "- (2 ^ 63) \<le> x \<Longrightarrow> x < 2 ^ 63 \<Longrightarrow> wrap64 x = x"
  by (simp add: wrap64_def)

lemma wrap32_range: "- (2 ^ 31) \<le> wrap32 x \<and> wrap32 x < 2 ^ 31"
  using pos_mod_bound [of "2 ^ 32" "x + 2 ^ 31"] pos_mod_sign [of "2 ^ 32" "x + 2 ^ 31"]
  by (simp add: wrap32_def)

lemma wrap64_range: "- (2 ^ 63) \<le> wrap64 x \<and> wrap64 x < 2 ^ 63"
  using pos_mod_bound [of "2 ^ 64" "x + 2 ^ 63"] pos_mod_sign [of "2 ^ 64" "x + 2 ^ 63"]
  by (simp add: wrap64_def)

lemma sat64_ge_iff: "0 < d \<Longrightarrow> d < 2 ^ 63 \<Longrightarrow> d \<le> sat64 x \<longleftrightarrow> d \<le> x"
  by (auto simp: sat64_def)

lemma go_div_nonneg [simp]: "0 \<le> a \<Longrightarrow> 0 < b \<Longrightarrow> go_div a b = a div b"
  by (cases "a = 0") (simp_all add: go_div_def)

section \<open>Lemmas on strings\<close>

lemma blank_Nil [simp]: "blank []"
  by (simp add: blank.simps)

lemma not_blank_nonempty: "\<not> blank s \<Longrightarrow> s \<noteq> []"
  by auto

section \<open>Lemmas on lists and maps\<close>

lemma iteration_order_card: "iteration_order ks m \<Longrightarrow> length ks = card (dom m)"
  unfolding iteration_order_def by (metis distinct_card)

lemma filter_split_length: "length (filter P xs) = length xs \<longleftrightarrow> (\<forall>x \<in> set xs. P x)"
  by (metis filter_True filter_id_conv length_filter_less less_irrefl)

lemma takeWhile_length_all: "length (takeWhile P xs) = length xs \<longleftrightarrow> list_all P xs"
  by (induction xs) auto

end
