(* ===== verification/Vector_Machine.thy ===== *)
theory Vector_Machine
  imports Prelude
begin

text \<open>
  The contract shared by the vector state machines of \<open>src/internal/kernel\<close> (the lifecycle
  machine and the operational-mode machine): a vector with a current state, a previous state,
  an epoch and a transition counter, and a \<open>Transition\<close> operation that checks an intent against
  an edge graph. The locale \<open>vector_machine\<close> states what the operation promises; the lemmas
  inside it are about whole sequences of intents, and both machines interpret it.
\<close>

section \<open>Running a sequence of intents\<close>

text \<open>A caller that keeps the returned vector, also when the intent was refused.\<close>

fun run_intents :: "('v \<Rightarrow> 'i \<Rightarrow> ('v, 'e) result) \<Rightarrow> 'v \<Rightarrow> 'i list \<Rightarrow> 'v" where
  "run_intents tr v [] = v"
| "run_intents tr v (i # is) = run_intents tr (fst (tr v i)) is"

fun accepted :: "('v \<Rightarrow> 'i \<Rightarrow> ('v, 'e) result) \<Rightarrow> 'v \<Rightarrow> 'i list \<Rightarrow> nat" where
  "accepted tr v [] = 0"
| "accepted tr v (i # is) =
     (if snd (tr v i) = None then 1 else 0) + accepted tr (fst (tr v i)) is"

lemma run_intents_append: "run_intents tr v (is @ js) = run_intents tr (run_intents tr v is) js"
  by (induction "is" arbitrary: v) auto

section \<open>The contract\<close>

locale vector_machine =
  fixes cur :: "'v \<Rightarrow> 's"
    and prev :: "'v \<Rightarrow> 's"
    and epoch :: "'v \<Rightarrow> u64"
    and count :: "'v \<Rightarrow> u64"
    and legal :: "'s \<Rightarrow> 's \<Rightarrow> bool"
    and target :: "'i \<Rightarrow> 's"
    and trans_op :: "'v \<Rightarrow> 'i \<Rightarrow> ('v, 'e) result"
  assumes refused: "trans_op v i = (v', Some e) \<Longrightarrow> v' = v"
    and moved: "trans_op v i = (v', None) \<Longrightarrow>
      legal (cur v) (target i) \<and> cur v' = target i \<and> prev v' = cur v \<and>
      epoch v' = epoch v + 1 \<and> count v' = count v + 1"
begin

lemma step_cases:
  obtains "fst (trans_op v i) = v" "snd (trans_op v i) \<noteq> None"
  | "legal (cur v) (cur (fst (trans_op v i)))" "prev (fst (trans_op v i)) = cur v"
    "epoch (fst (trans_op v i)) = epoch v + 1" "count (fst (trans_op v i)) = count v + 1"
    "snd (trans_op v i) = None"
proof (cases "snd (trans_op v i)")
  case None
  then have "trans_op v i = (fst (trans_op v i), None)" by (metis prod.collapse)
  from moved [OF this] None that(2) show ?thesis by simp
next
  case (Some e)
  then have "trans_op v i = (fst (trans_op v i), Some e)" by (metis prod.collapse)
  from refused [OF this] Some that(1) show ?thesis by simp
qed

lemma run_path: "legal\<^sup>*\<^sup>* (cur v) (cur (run_intents trans_op v is))"
proof (induction "is" arbitrary: v)
  case Nil
  show ?case by simp
next
  case (Cons i "is")
  have "legal\<^sup>*\<^sup>* (cur v) (cur (fst (trans_op v i)))"
    by (rule step_cases [of v i]) auto
  with Cons [of "fst (trans_op v i)"] show ?case by simp
qed

lemma run_epoch:
  "epoch (run_intents trans_op v is) = epoch v + of_nat (accepted trans_op v is) \<and>
   count (run_intents trans_op v is) = count v + of_nat (accepted trans_op v is)"
proof (induction "is" arbitrary: v)
  case Nil
  show ?case by simp
next
  case (Cons i "is")
  show ?case
    by (rule step_cases [of v i]) (simp_all add: Cons algebra_simps)
qed

text \<open>
  A state set that legal edges leave only into a gate: no run gets out of it without
  standing at the gate in between.
\<close>

lemma gate:
  assumes closed: "\<And>s t. s \<in> P \<Longrightarrow> legal s t \<Longrightarrow> t \<in> P \<or> t = g"
    and start: "cur v \<in> P"
    and out: "cur (run_intents trans_op v is) \<notin> P"
  shows "\<exists>n \<le> length is. cur (run_intents trans_op v (take n is)) = g"
  using start out
proof (induction "is" arbitrary: v)
  case Nil
  then show ?case by simp
next
  case (Cons i "is")
  let ?v = "fst (trans_op v i)"
  have "cur ?v \<in> P \<or> cur ?v = g"
    by (rule step_cases [of v i]) (use closed [OF Cons.prems(1)] Cons.prems(1) in auto)
  then show ?case
  proof
    assume "cur ?v = g"
    then have "cur (run_intents trans_op v (take 1 (i # is))) = g" by simp
    then show ?thesis by (intro exI [of _ 1]) simp
  next
    assume "cur ?v \<in> P"
    with Cons.IH [of ?v] Cons.prems(2)
    obtain n where "n \<le> length is" "cur (run_intents trans_op ?v (take n is)) = g"
      by auto
    then show ?thesis by (intro exI [of _ "Suc n"]) simp
  qed
qed

end

end
