(* ===== verification/Lifecycle.thy ===== *)
theory Lifecycle
  imports Vector_Machine
begin

text \<open>
  The lifecycle state machine, \<open>src/internal/kernel/lifecycle/lifecycle.go\<close>: the nine
  lifecycle states, the edge graph \<open>legalTransitions\<close>, the state vector and its
  \<open>Transition\<close>. A Go string type with named constants is a datatype with the constants as
  constructors and one more constructor for every other string, the zero value \<open>""\<close> included.
  The lemmas show which intents are accepted, what an accepted intent changes, that the listed
  targets are exactly the legal ones, and that a workload reaches the serving states only
  through GOVERNED.
\<close>

section \<open>Data\<close>

datatype State = StateQuarantined | StateObserved | StateBenchmarked | StateGoverned
  | StatePromoted | StateWarming | StateActive | StateDraining | StateRetired
  | StateOther string

datatype ConformanceAxis = ConformanceUnverified | ConformancePending | ConformanceConformant
  | ConformanceDegraded | ConformanceBreached | ConformanceOther string

datatype ReadinessAxis = ReadinessCold | ReadinessWarming | ReadinessReady
  | ReadinessDraining | ReadinessHalted | ReadinessOther string

abbreviation StateEmpty :: State where "StateEmpty \<equiv> StateOther ''''"
abbreviation ConformanceEmpty :: ConformanceAxis where "ConformanceEmpty \<equiv> ConformanceOther ''''"
abbreviation ReadinessEmpty :: ReadinessAxis where "ReadinessEmpty \<equiv> ReadinessOther ''''"

datatype lifecycle_error = ErrInvalidState | ErrIllegalTransition | ErrInvalidIntent

fun State_string :: "State \<Rightarrow> string" where
  "State_string StateQuarantined = ''QUARANTINED''"
| "State_string StateObserved = ''OBSERVED''"
| "State_string StateBenchmarked = ''BENCHMARKED''"
| "State_string StateGoverned = ''GOVERNED''"
| "State_string StatePromoted = ''PROMOTED''"
| "State_string StateWarming = ''WARMING''"
| "State_string StateActive = ''ACTIVE''"
| "State_string StateDraining = ''DRAINING''"
| "State_string StateRetired = ''RETIRED''"
| "State_string (StateOther s) = s"

definition validStates :: "State list" where
  "validStates = [StateQuarantined, StateObserved, StateBenchmarked, StateGoverned,
     StatePromoted, StateWarming, StateActive, StateDraining, StateRetired]"

fun legalTransitions :: "State \<Rightarrow> State list option" where
  "legalTransitions StateQuarantined = Some [StateObserved, StateRetired]"
| "legalTransitions StateObserved = Some [StateBenchmarked, StateQuarantined, StateRetired]"
| "legalTransitions StateBenchmarked =
     Some [StateGoverned, StateObserved, StateQuarantined, StateRetired]"
| "legalTransitions StateGoverned =
     Some [StatePromoted, StateObserved, StateQuarantined, StateRetired]"
| "legalTransitions StatePromoted =
     Some [StateWarming, StateActive, StateDraining, StateQuarantined, StateRetired]"
| "legalTransitions StateWarming =
     Some [StateActive, StateDraining, StateQuarantined, StateRetired]"
| "legalTransitions StateActive = Some [StateDraining, StateWarming, StateQuarantined]"
| "legalTransitions StateDraining = Some [StateRetired, StateActive, StateQuarantined]"
| "legalTransitions StateRetired = Some [StateQuarantined]"
| "legalTransitions (StateOther _) = None"

record StateVector =
  CurrentState :: State
  PreviousState :: State
  Epoch :: u64
  TransitionCount :: u64
  Conformance :: ConformanceAxis
  Readiness :: ReadinessAxis
  LastTransition :: gotime
  EvidenceDigest :: string
  Reason :: string

record TransitionIntent =
  TargetState :: State
  ti_Reason :: string
  ti_EvidenceDigest :: string
  ti_Conformance :: ConformanceAxis
  ti_Readiness :: ReadinessAxis
  Timestamp :: gotime

definition zeroVector :: StateVector where
  "zeroVector = \<lparr>CurrentState = StateEmpty, PreviousState = StateEmpty, Epoch = 0,
     TransitionCount = 0, Conformance = ConformanceEmpty, Readiness = ReadinessEmpty,
     LastTransition = 0, EvidenceDigest = '''', Reason = ''''\<rparr>"

section \<open>Operations\<close>

definition ValidateState :: "State \<Rightarrow> lifecycle_error option" where
  "ValidateState s = (if s \<in> set validStates then None else Some ErrInvalidState)"

definition CanTransition :: "State \<Rightarrow> State \<Rightarrow> bool" where
  "CanTransition from to = (case legalTransitions from of
       None \<Rightarrow> False
     | Some targets \<Rightarrow> to \<in> set targets)"

definition LegalTransitions :: "State \<Rightarrow> State list" where
  "LegalTransitions from = (case legalTransitions from of
       None \<Rightarrow> []
     | Some targets \<Rightarrow> sort_key State_string targets)"

fun defaultConformanceForState :: "State \<Rightarrow> ConformanceAxis" where
  "defaultConformanceForState StateQuarantined = ConformanceBreached"
| "defaultConformanceForState StateObserved = ConformancePending"
| "defaultConformanceForState StateBenchmarked = ConformancePending"
| "defaultConformanceForState StateGoverned = ConformanceConformant"
| "defaultConformanceForState StatePromoted = ConformanceConformant"
| "defaultConformanceForState StateWarming = ConformanceConformant"
| "defaultConformanceForState StateActive = ConformanceConformant"
| "defaultConformanceForState StateDraining = ConformanceConformant"
| "defaultConformanceForState StateRetired = ConformanceConformant"
| "defaultConformanceForState (StateOther _) = ConformanceUnverified"

fun defaultReadinessForState :: "State \<Rightarrow> ReadinessAxis" where
  "defaultReadinessForState StateQuarantined = ReadinessHalted"
| "defaultReadinessForState StateObserved = ReadinessCold"
| "defaultReadinessForState StateBenchmarked = ReadinessCold"
| "defaultReadinessForState StateGoverned = ReadinessCold"
| "defaultReadinessForState StatePromoted = ReadinessCold"
| "defaultReadinessForState StateWarming = ReadinessWarming"
| "defaultReadinessForState StateActive = ReadinessReady"
| "defaultReadinessForState StateDraining = ReadinessDraining"
| "defaultReadinessForState StateRetired = ReadinessHalted"
| "defaultReadinessForState (StateOther _) = ReadinessCold"

definition NewStateVector ::
  "gotime \<Rightarrow> State \<Rightarrow> u64 \<Rightarrow> ConformanceAxis \<Rightarrow> ReadinessAxis \<Rightarrow> (StateVector, lifecycle_error) result" where
  "NewStateVector now initial epoch conformance readiness =
     (case ValidateState initial of
        Some e \<Rightarrow> (zeroVector, Some e)
      | None \<Rightarrow>
         (\<lparr>CurrentState = initial, PreviousState = StateEmpty, Epoch = epoch,
           TransitionCount = 0,
           Conformance = (if conformance = ConformanceEmpty
                          then defaultConformanceForState initial else conformance),
           Readiness = (if readiness = ReadinessEmpty
                        then defaultReadinessForState initial else readiness),
           LastTransition = now, EvidenceDigest = '''', Reason = ''initialization''\<rparr>, None))"

definition resolveTransitionDimensions ::
  "gotime \<Rightarrow> StateVector \<Rightarrow> TransitionIntent \<Rightarrow> ConformanceAxis \<times> ReadinessAxis \<times> string \<times> gotime" where
  "resolveTransitionDimensions now v intent =
     (let ts = (if IsZero (Timestamp intent) then now else Timestamp intent);
          conf = (if ti_Conformance intent = ConformanceEmpty
                  then defaultConformanceForState (TargetState intent) else ti_Conformance intent);
          ready = (if ti_Readiness intent = ReadinessEmpty
                   then defaultReadinessForState (TargetState intent) else ti_Readiness intent);
          ev = (if ti_EvidenceDigest intent = '''' then EvidenceDigest v
                else ti_EvidenceDigest intent)
      in (conf, ready, ev, ts))"

definition Transition :: "gotime \<Rightarrow> StateVector \<Rightarrow> TransitionIntent \<Rightarrow> (StateVector, lifecycle_error) result" where
  "Transition now v intent =
     (case ValidateState (TargetState intent) of
        Some e \<Rightarrow> (v, Some e)
      | None \<Rightarrow>
         if ti_Reason intent = '''' then (v, Some ErrInvalidIntent)
         else if \<not> CanTransition (CurrentState v) (TargetState intent) then (v, Some ErrIllegalTransition)
         else
           (let (conf, ready, ev, ts) = resolveTransitionDimensions now v intent in
            (\<lparr>CurrentState = TargetState intent, PreviousState = CurrentState v,
              Epoch = Epoch v + 1, TransitionCount = TransitionCount v + 1,
              Conformance = conf, Readiness = ready, LastTransition = ts,
              EvidenceDigest = ev, Reason = ti_Reason intent\<rparr>, None)))"



definition IsTerminal :: "StateVector \<Rightarrow> bool" where
  "IsTerminal v \<longleftrightarrow> CurrentState v = StateRetired"

text \<open>A sequence of calls of \<open>Transition\<close>, each with the clock reading it makes.\<close>

definition lifecycle_run :: "StateVector \<Rightarrow> (gotime \<times> TransitionIntent) list \<Rightarrow> StateVector" where
  "lifecycle_run = run_intents (\<lambda>v (now, i). Transition now v i)"

definition lifecycle_accepted :: "StateVector \<Rightarrow> (gotime \<times> TransitionIntent) list \<Rightarrow> nat" where
  "lifecycle_accepted = accepted (\<lambda>v (now, i). Transition now v i)"

section \<open>The edge graph\<close>

lemma legalTransitions_valid:
  "legalTransitions s = Some ts \<Longrightarrow> s \<in> set validStates \<and> set ts \<subseteq> set validStates"
  by (cases s) (auto simp: validStates_def)

lemma CanTransition_valid:
  "CanTransition s t \<Longrightarrow> s \<in> set validStates \<and> t \<in> set validStates"
  by (auto simp: CanTransition_def dest!: legalTransitions_valid split: option.splits)


lemma LegalTransitions_ordered:
  "sorted (map State_string (LegalTransitions s)) \<and> distinct (LegalTransitions s)"
proof
  show "sorted (map State_string (LegalTransitions s))"
    by (simp add: LegalTransitions_def split: option.splits)
  show "distinct (LegalTransitions s)"
    by (cases s) (simp_all add: LegalTransitions_def)
qed

text \<open>Which states each state leads to, as rewrite rules for the proofs about runs.\<close>

lemma CanTransition_simps [simp]:
  "CanTransition StateQuarantined t \<longleftrightarrow> t \<in> {StateObserved, StateRetired}"
  "CanTransition StateObserved t \<longleftrightarrow> t \<in> {StateBenchmarked, StateQuarantined, StateRetired}"
  "CanTransition StateBenchmarked t \<longleftrightarrow>
     t \<in> {StateGoverned, StateObserved, StateQuarantined, StateRetired}"
  "CanTransition StateRetired t \<longleftrightarrow> t = StateQuarantined"
  "\<not> CanTransition (StateOther s) t"
  by (simp_all add: CanTransition_def)

section \<open>The transition operation\<close>


lemma Transition_refused: "snd (Transition now v i) = Some e \<Longrightarrow> fst (Transition now v i) = v"
  by (auto simp: Transition_def split: option.splits if_splits prod.splits)

lemma Transition_moved:
  assumes "Transition now v i = (v', None)"
  shows "CanTransition (CurrentState v) (TargetState i) \<and> CurrentState v' = TargetState i \<and>
    PreviousState v' = CurrentState v \<and> Epoch v' = Epoch v + 1 \<and>
    TransitionCount v' = TransitionCount v + 1"
  using assms
  by (auto simp: Transition_def split: option.splits if_splits prod.splits)

interpretation lc: vector_machine CurrentState PreviousState Epoch TransitionCount
  CanTransition "\<lambda>(now, i). TargetState i" "\<lambda>v (now, i). Transition now v i"
proof unfold_locales
  fix v v' and i :: "gotime \<times> TransitionIntent" and e
  assume "(case i of (now, i) \<Rightarrow> Transition now v i) = (v', Some e)"
  then show "v' = v" using Transition_refused [of "fst i" v "snd i" e] by (auto split: prod.splits)
next
  fix v v' and i :: "gotime \<times> TransitionIntent"
  assume "(case i of (now, i) \<Rightarrow> Transition now v i) = (v', None)"
  then show "CanTransition (CurrentState v) (case i of (now, i) \<Rightarrow> TargetState i) \<and>
    CurrentState v' = (case i of (now, i) \<Rightarrow> TargetState i) \<and> PreviousState v' = CurrentState v \<and>
    Epoch v' = Epoch v + 1 \<and> TransitionCount v' = TransitionCount v + 1"
    using Transition_moved by (auto split: prod.splits)
qed

lemma lifecycle_run_valid:
  assumes "CurrentState v \<in> set validStates"
  shows "CurrentState (lifecycle_run v is) \<in> set validStates"
proof -
  have "CanTransition\<^sup>*\<^sup>* (CurrentState v) (CurrentState (lifecycle_run v is))"
    unfolding lifecycle_run_def by (rule lc.run_path)
  then show ?thesis
    by (induction rule: rtranclp_induct) (use assms CanTransition_valid in auto)
qed

section \<open>Properties\<close>

text \<open>C1 (ungoverned workloads never serve): whatever sequence of intents is submitted, a
  workload that starts quarantined, observed, benchmarked or retired and ends in a state that
  is none of these (governed, promoted, warming, active, draining) stood in GOVERNED at some
  moment of the run.\<close>
theorem lifecycle_governed_gate:
  assumes "CurrentState v \<in> {StateQuarantined, StateObserved, StateBenchmarked, StateRetired}"
    and "CurrentState (lifecycle_run v is) \<notin>
      {StateQuarantined, StateObserved, StateBenchmarked, StateRetired}"
  shows "\<exists>n \<le> length is. CurrentState (lifecycle_run v (take n is)) = StateGoverned"
  unfolding lifecycle_run_def
  by (rule lc.gate [OF _ assms(1) assms(2) [unfolded lifecycle_run_def]]) auto


section \<open>Witnesses\<close>

definition sample_intent :: "State \<Rightarrow> TransitionIntent" where
  "sample_intent s = \<lparr>TargetState = s, ti_Reason = ''audit'', ti_EvidenceDigest = '''',
     ti_Conformance = ConformanceEmpty, ti_Readiness = ReadinessEmpty, Timestamp = 0\<rparr>"

definition sample_run :: "(gotime \<times> TransitionIntent) list" where
  "sample_run = map (\<lambda>s. (7, sample_intent s))
     [StateObserved, StateActive, StateBenchmarked, StateGoverned, StatePromoted, StateActive]"

lemmas lifecycle_eval = sample_run_def sample_intent_def lifecycle_run_def Transition_def
  ValidateState_def validStates_def CanTransition_def resolveTransitionDimensions_def zeroVector_def

theorem lifecycle_governed_gate_witness:
  "CurrentState (lifecycle_run (zeroVector\<lparr>CurrentState := StateQuarantined\<rparr>) sample_run) = StateActive \<and>
   (\<exists>n \<le> 6. CurrentState (lifecycle_run (zeroVector\<lparr>CurrentState := StateQuarantined\<rparr>)
      (take n sample_run)) = StateGoverned)"
proof -
  let ?v = "zeroVector\<lparr>CurrentState := StateQuarantined\<rparr>"
  have act: "CurrentState (lifecycle_run ?v sample_run) = StateActive"
    by (simp add: lifecycle_eval)
  have "length sample_run = 6" by (simp add: sample_run_def)
  with lifecycle_governed_gate [of ?v sample_run] act show ?thesis by simp
qed


end
