(* ===== verification/Mode.thy ===== *)
theory Mode
  imports Vector_Machine
begin

text \<open>
  The operational-mode machine, \<open>src/internal/kernel/mode/mode.go\<close>: six degraded modes, the
  edge graph between them, the normative contract of each mode and the mode vector with its
  \<open>Transition\<close>. The lemmas show that a mode vector always carries the contract of its
  current mode, and that a quarantined or failed workload gets back to any other mode only
  through RECOVERING.
\<close>

section \<open>Data\<close>

datatype Mode = ModeNormal | ModeDegraded | ModeSafeHold | ModeQuarantined | ModeRecovering
  | ModeFailed | ModeOther string

datatype SeverityLevel = SeverityNone | SeverityLow | SeverityMedium | SeverityHigh
  | SeverityCritical | SeverityOther string

datatype TrafficPosture = TrafficAdmitAll | TrafficConstrained | TrafficPaused | TrafficBlocked
  | TrafficProbingOnly | TrafficTerminated | TrafficOther string

datatype MutationPosture = MutationAllowed | MutationRestricted | MutationFrozen
  | MutationRemediationOnly | MutationDisallowed | MutationOther string

datatype IsolationLevel = IsolationStandard | IsolationEnhanced | IsolationFrozen
  | IsolationComplete | IsolationSandboxed | IsolationTerminal | IsolationOther string

datatype SLAPosture = SLAStrict | SLARelaxed | SLASuspended | SLAVoided | SLAWarming
  | SLABreached | SLAOther string

datatype HealingPosture = HealingPassive | HealingActive | HealingManualIntervention
  | HealingForensicLocked | HealingInFlight | HealingSupervisorIntervention | HealingOther string

datatype mode_error = ErrInvalidMode | ErrIllegalTransition_mode | ErrInvalidIntent_mode

record Contract =
  ct_Mode :: Mode
  ct_Traffic :: TrafficPosture
  ct_Mutation :: MutationPosture
  ct_Isolation :: IsolationLevel
  ct_SLA :: SLAPosture
  ct_SelfHealing :: HealingPosture

record ModeVector =
  CurrentMode :: Mode
  PreviousMode :: Mode
  Severity :: SeverityLevel
  mv_Epoch :: u64
  mv_TransitionCount :: u64
  mv_LastTransition :: gotime
  mv_Contract :: Contract
  Dimensions :: "string \<rightharpoonup> string"
  mv_Reason :: string
  mv_EvidenceDigest :: string

record ModeIntent =
  TargetMode :: Mode
  mi_Severity :: SeverityLevel
  mi_Reason :: string
  mi_EvidenceDigest :: string
  mi_Dimensions :: "string \<rightharpoonup> string"
  mi_Timestamp :: gotime

fun Mode_string :: "Mode \<Rightarrow> string" where
  "Mode_string ModeNormal = ''NORMAL''"
| "Mode_string ModeDegraded = ''DEGRADED''"
| "Mode_string ModeSafeHold = ''SAFE_HOLD''"
| "Mode_string ModeQuarantined = ''QUARANTINED''"
| "Mode_string ModeRecovering = ''RECOVERING''"
| "Mode_string ModeFailed = ''FAILED''"
| "Mode_string (ModeOther s) = s"

definition validModes :: "Mode list" where
  "validModes = [ModeNormal, ModeDegraded, ModeSafeHold, ModeQuarantined, ModeRecovering, ModeFailed]"

fun legalTransitions_mode :: "Mode \<Rightarrow> Mode list option" where
  "legalTransitions_mode ModeNormal = Some [ModeDegraded, ModeSafeHold, ModeQuarantined, ModeFailed]"
| "legalTransitions_mode ModeDegraded =
     Some [ModeNormal, ModeSafeHold, ModeQuarantined, ModeRecovering, ModeFailed]"
| "legalTransitions_mode ModeSafeHold = Some [ModeNormal, ModeRecovering, ModeQuarantined, ModeFailed]"
| "legalTransitions_mode ModeQuarantined = Some [ModeRecovering, ModeFailed]"
| "legalTransitions_mode ModeRecovering =
     Some [ModeNormal, ModeDegraded, ModeSafeHold, ModeQuarantined, ModeFailed]"
| "legalTransitions_mode ModeFailed = Some [ModeRecovering]"
| "legalTransitions_mode (ModeOther _) = None"

definition zeroContract :: Contract where
  "zeroContract = \<lparr>ct_Mode = ModeOther '''', ct_Traffic = TrafficOther '''',
     ct_Mutation = MutationOther '''', ct_Isolation = IsolationOther '''', ct_SLA = SLAOther '''',
     ct_SelfHealing = HealingOther ''''\<rparr>"

text \<open>A missing key of the map \<open>modeContracts\<close> reads as the zero contract.\<close>

fun modeContracts :: "Mode \<Rightarrow> Contract" where
  "modeContracts ModeNormal = \<lparr>ct_Mode = ModeNormal, ct_Traffic = TrafficAdmitAll,
     ct_Mutation = MutationAllowed, ct_Isolation = IsolationStandard, ct_SLA = SLAStrict,
     ct_SelfHealing = HealingPassive\<rparr>"
| "modeContracts ModeDegraded = \<lparr>ct_Mode = ModeDegraded, ct_Traffic = TrafficConstrained,
     ct_Mutation = MutationRestricted, ct_Isolation = IsolationEnhanced, ct_SLA = SLARelaxed,
     ct_SelfHealing = HealingActive\<rparr>"
| "modeContracts ModeSafeHold = \<lparr>ct_Mode = ModeSafeHold, ct_Traffic = TrafficPaused,
     ct_Mutation = MutationFrozen, ct_Isolation = IsolationFrozen, ct_SLA = SLASuspended,
     ct_SelfHealing = HealingManualIntervention\<rparr>"
| "modeContracts ModeQuarantined = \<lparr>ct_Mode = ModeQuarantined, ct_Traffic = TrafficBlocked,
     ct_Mutation = MutationFrozen, ct_Isolation = IsolationComplete, ct_SLA = SLAVoided,
     ct_SelfHealing = HealingForensicLocked\<rparr>"
| "modeContracts ModeRecovering = \<lparr>ct_Mode = ModeRecovering, ct_Traffic = TrafficProbingOnly,
     ct_Mutation = MutationRemediationOnly, ct_Isolation = IsolationSandboxed, ct_SLA = SLAWarming,
     ct_SelfHealing = HealingInFlight\<rparr>"
| "modeContracts ModeFailed = \<lparr>ct_Mode = ModeFailed, ct_Traffic = TrafficTerminated,
     ct_Mutation = MutationDisallowed, ct_Isolation = IsolationTerminal, ct_SLA = SLABreached,
     ct_SelfHealing = HealingSupervisorIntervention\<rparr>"
| "modeContracts (ModeOther _) = zeroContract"

definition zeroModeVector :: ModeVector where
  "zeroModeVector = \<lparr>CurrentMode = ModeOther '''', PreviousMode = ModeOther '''',
     Severity = SeverityOther '''', mv_Epoch = 0, mv_TransitionCount = 0, mv_LastTransition = 0,
     mv_Contract = zeroContract, Dimensions = Map.empty, mv_Reason = '''', mv_EvidenceDigest = ''''\<rparr>"

section \<open>Operations\<close>

definition ValidateMode :: "Mode \<Rightarrow> mode_error option" where
  "ValidateMode m = (if m \<in> set validModes then None else Some ErrInvalidMode)"

definition GetContract :: "Mode \<Rightarrow> (Contract, mode_error) result" where
  "GetContract m = (case ValidateMode m of
       Some e \<Rightarrow> (zeroContract, Some e)
     | None \<Rightarrow> (modeContracts m, None))"

definition CanTransition_mode :: "Mode \<Rightarrow> Mode \<Rightarrow> bool" where
  "CanTransition_mode from to = (case legalTransitions_mode from of
       None \<Rightarrow> False
     | Some targets \<Rightarrow> to \<in> set targets)"

definition LegalTransitions_mode :: "Mode \<Rightarrow> Mode list" where
  "LegalTransitions_mode from = (case legalTransitions_mode from of
       None \<Rightarrow> []
     | Some targets \<Rightarrow> sort_key Mode_string targets)"

fun defaultSeverityForMode :: "Mode \<Rightarrow> SeverityLevel" where
  "defaultSeverityForMode ModeNormal = SeverityNone"
| "defaultSeverityForMode ModeDegraded = SeverityMedium"
| "defaultSeverityForMode ModeSafeHold = SeverityHigh"
| "defaultSeverityForMode ModeQuarantined = SeverityCritical"
| "defaultSeverityForMode ModeRecovering = SeverityLow"
| "defaultSeverityForMode ModeFailed = SeverityCritical"
| "defaultSeverityForMode (ModeOther _) = SeverityNone"

definition NewModeVector :: "gotime \<Rightarrow> Mode \<Rightarrow> SeverityLevel \<Rightarrow> u64 \<Rightarrow> (ModeVector, mode_error) result" where
  "NewModeVector now initial severity epoch =
     (case ValidateMode initial of
        Some e \<Rightarrow> (zeroModeVector, Some e)
      | None \<Rightarrow>
        (case GetContract initial of
           (_, Some e) \<Rightarrow> (zeroModeVector, Some e)
         | (contract, None) \<Rightarrow>
            (\<lparr>CurrentMode = initial, PreviousMode = ModeOther '''',
              Severity = (if severity = SeverityOther '''' then defaultSeverityForMode initial else severity),
              mv_Epoch = epoch, mv_TransitionCount = 0, mv_LastTransition = now,
              mv_Contract = contract, Dimensions = Map.empty, mv_Reason = ''initialization'',
              mv_EvidenceDigest = ''''\<rparr>, None)))"

definition resolveModeDimensions ::
  "gotime \<Rightarrow> ModeVector \<Rightarrow> ModeIntent \<Rightarrow> SeverityLevel \<times> (string \<rightharpoonup> string) \<times> string \<times> gotime" where
  "resolveModeDimensions now v intent =
     (let ts = (if IsZero (mi_Timestamp intent) then now else mi_Timestamp intent);
          sev = (if mi_Severity intent = SeverityOther '''' then defaultSeverityForMode (TargetMode intent)
                 else mi_Severity intent);
          dims = Dimensions v ++ mi_Dimensions intent;
          ev = (if mi_EvidenceDigest intent = '''' then mv_EvidenceDigest v else mi_EvidenceDigest intent)
      in (sev, dims, ev, ts))"

definition Transition_mode :: "gotime \<Rightarrow> ModeVector \<Rightarrow> ModeIntent \<Rightarrow> (ModeVector, mode_error) result" where
  "Transition_mode now v intent =
     (case ValidateMode (TargetMode intent) of
        Some e \<Rightarrow> (v, Some e)
      | None \<Rightarrow>
         if mi_Reason intent = '''' then (v, Some ErrInvalidIntent_mode)
         else if \<not> CanTransition_mode (CurrentMode v) (TargetMode intent)
         then (v, Some ErrIllegalTransition_mode)
         else
           (let contract = modeContracts (TargetMode intent);
                (sev, dims, ev, ts) = resolveModeDimensions now v intent in
            (\<lparr>CurrentMode = TargetMode intent, PreviousMode = CurrentMode v, Severity = sev,
              mv_Epoch = mv_Epoch v + 1, mv_TransitionCount = mv_TransitionCount v + 1,
              mv_LastTransition = ts, mv_Contract = contract, Dimensions = dims,
              mv_Reason = mi_Reason intent, mv_EvidenceDigest = ev\<rparr>, None)))"

definition CanTransitionTo_mode :: "ModeVector \<Rightarrow> Mode \<Rightarrow> bool" where
  "CanTransitionTo_mode v tgt = CanTransition_mode (CurrentMode v) tgt"

definition LegalTargets_mode :: "ModeVector \<Rightarrow> Mode list" where
  "LegalTargets_mode v = LegalTransitions_mode (CurrentMode v)"

definition mode_run :: "ModeVector \<Rightarrow> (gotime \<times> ModeIntent) list \<Rightarrow> ModeVector" where
  "mode_run = run_intents (\<lambda>v (now, i). Transition_mode now v i)"

definition mode_accepted :: "ModeVector \<Rightarrow> (gotime \<times> ModeIntent) list \<Rightarrow> nat" where
  "mode_accepted = accepted (\<lambda>v (now, i). Transition_mode now v i)"

text \<open>The invariant of a mode vector: a recognised mode with its own normative contract.\<close>

definition mode_wf :: "ModeVector \<Rightarrow> bool" where
  "mode_wf v \<longleftrightarrow> CurrentMode v \<in> set validModes \<and> mv_Contract v = modeContracts (CurrentMode v)"

section \<open>The edge graph and the contracts\<close>

lemma CanTransition_mode_valid:
  "CanTransition_mode s t \<Longrightarrow> s \<in> set validModes \<and> t \<in> set validModes"
  by (cases s) (auto simp: CanTransition_mode_def validModes_def)

lemma set_LegalTransitions_mode: "set (LegalTransitions_mode s) = {t. CanTransition_mode s t}"
  by (cases "legalTransitions_mode s") (auto simp: LegalTransitions_mode_def CanTransition_mode_def)

lemma CanTransition_mode_isolated [simp]:
  "CanTransition_mode ModeQuarantined t \<longleftrightarrow> t \<in> {ModeRecovering, ModeFailed}"
  "CanTransition_mode ModeFailed t \<longleftrightarrow> t = ModeRecovering"
  by (simp_all add: CanTransition_mode_def)

lemma modeContracts_mode: "m \<in> set validModes \<Longrightarrow> ct_Mode (modeContracts m) = m"
  by (cases m) (auto simp: validModes_def)

lemma modeContracts_traffic:
  "m \<in> set validModes \<Longrightarrow> ct_Traffic (modeContracts m) = TrafficAdmitAll \<longleftrightarrow> m = ModeNormal"
  by (cases m) (auto simp: validModes_def)

section \<open>The transition operation\<close>

lemma Transition_mode_ok_iff:
  "snd (Transition_mode now v i) = None \<longleftrightarrow>
     mi_Reason i \<noteq> '''' \<and> CanTransition_mode (CurrentMode v) (TargetMode i)"
  by (auto simp: Transition_mode_def ValidateMode_def Let_def dest: CanTransition_mode_valid
      split: prod.splits)

lemma Transition_mode_refused:
  "snd (Transition_mode now v i) = Some e \<Longrightarrow> fst (Transition_mode now v i) = v"
  by (auto simp: Transition_mode_def Let_def split: option.splits if_splits prod.splits)

lemma Transition_mode_moved:
  assumes "Transition_mode now v i = (v', None)"
  shows "CanTransition_mode (CurrentMode v) (TargetMode i) \<and> CurrentMode v' = TargetMode i \<and>
    PreviousMode v' = CurrentMode v \<and> mv_Epoch v' = mv_Epoch v + 1 \<and>
    mv_TransitionCount v' = mv_TransitionCount v + 1"
  using assms
  by (auto simp: Transition_mode_def Let_def split: option.splits if_splits prod.splits)

lemma Transition_mode_wf: "mode_wf v \<Longrightarrow> mode_wf (fst (Transition_mode now v i))"
  by (auto simp: mode_wf_def Transition_mode_def ValidateMode_def Let_def split: prod.splits)

lemma NewModeVector_wf: "snd (NewModeVector now m sev e) = None \<Longrightarrow> mode_wf (fst (NewModeVector now m sev e))"
  by (auto simp: NewModeVector_def GetContract_def ValidateMode_def mode_wf_def
      split: option.splits if_splits)

lemma mode_run_wf: "mode_wf v \<Longrightarrow> mode_wf (mode_run v is)"
  unfolding mode_run_def
  by (induction "is" arbitrary: v) (auto simp: Transition_mode_wf split: prod.splits)

interpretation md: vector_machine CurrentMode PreviousMode mv_Epoch mv_TransitionCount
  CanTransition_mode "\<lambda>(now, i). TargetMode i" "\<lambda>v (now, i). Transition_mode now v i"
proof unfold_locales
  fix v v' and i :: "gotime \<times> ModeIntent" and e
  assume "(case i of (now, i) \<Rightarrow> Transition_mode now v i) = (v', Some e)"
  then show "v' = v"
    using Transition_mode_refused [of "fst i" v "snd i" e] by (auto split: prod.splits)
next
  fix v v' and i :: "gotime \<times> ModeIntent"
  assume "(case i of (now, i) \<Rightarrow> Transition_mode now v i) = (v', None)"
  then show "CanTransition_mode (CurrentMode v) (case i of (now, i) \<Rightarrow> TargetMode i) \<and>
    CurrentMode v' = (case i of (now, i) \<Rightarrow> TargetMode i) \<and> PreviousMode v' = CurrentMode v \<and>
    mv_Epoch v' = mv_Epoch v + 1 \<and> mv_TransitionCount v' = mv_TransitionCount v + 1"
    using Transition_mode_moved by (auto split: prod.splits)
qed

section \<open>Properties\<close>

text \<open>C3 (mode vectors carry their contract): every vector built by \<open>NewModeVector\<close> and driven by
  any sequence of intents is in a recognised mode, holds exactly the normative contract of
  that mode (so it admits all traffic only in NORMAL), and its epoch and its counter have both
  advanced by the number of accepted intents, modulo 2^64.\<close>
theorem mode_contract_invariant:
  assumes "NewModeVector now m sev e = (v, None)"
    and w_def: "w = mode_run v is"
  shows "CurrentMode w \<in> set validModes \<and> mv_Contract w = modeContracts (CurrentMode w) \<and>
    ct_Mode (mv_Contract w) = CurrentMode w \<and>
    (ct_Traffic (mv_Contract w) = TrafficAdmitAll \<longleftrightarrow> CurrentMode w = ModeNormal) \<and>
    mv_Epoch w = e + of_nat (mode_accepted v is) \<and>
    mv_TransitionCount w = of_nat (mode_accepted v is)"
proof -
  have v: "mode_wf v" "mv_Epoch v = e" "mv_TransitionCount v = 0"
    using NewModeVector_wf [of now m sev e] assms(1)
    by (auto simp: NewModeVector_def split: option.splits prod.splits)
  then have "mode_wf w" by (simp add: w_def mode_run_wf)
  moreover have "mv_Epoch w = e + of_nat (mode_accepted v is) \<and>
      mv_TransitionCount w = of_nat (mode_accepted v is)"
    using md.run_epoch [of v "is"] v by (simp add: w_def mode_run_def mode_accepted_def)
  ultimately show ?thesis
    by (simp add: mode_wf_def modeContracts_mode modeContracts_traffic)
qed

text \<open>C4 (isolation is left through recovery only): a workload in QUARANTINED or FAILED that a
  sequence of intents brings to another mode went through RECOVERING during the run.\<close>
theorem mode_recovery_gate:
  assumes "CurrentMode v \<in> {ModeQuarantined, ModeFailed}"
    and "CurrentMode (mode_run v is) \<notin> {ModeQuarantined, ModeFailed}"
  shows "\<exists>n \<le> length is. CurrentMode (mode_run v (take n is)) = ModeRecovering"
  unfolding mode_run_def
  by (rule md.gate [OF _ assms(1) assms(2) [unfolded mode_run_def]]) auto

section \<open>Witnesses\<close>

definition sample_mode_intent :: "Mode \<Rightarrow> gotime \<times> ModeIntent" where
  "sample_mode_intent m = (5, \<lparr>TargetMode = m, mi_Severity = SeverityOther '''', mi_Reason = ''drill'',
     mi_EvidenceDigest = '''', mi_Dimensions = Map.empty, mi_Timestamp = 0\<rparr>)"

lemmas mode_eval = sample_mode_intent_def mode_run_def Transition_mode_def ValidateMode_def
  validModes_def CanTransition_mode_def resolveModeDimensions_def Let_def

theorem mode_contract_invariant_witness:
  "\<exists>v. NewModeVector 5 ModeNormal (SeverityOther '''') 9 = (v, None) \<and>
     ct_Traffic (mv_Contract (mode_run v (map sample_mode_intent [ModeFailed]))) \<noteq> TrafficAdmitAll"
proof -
  define v where "v = fst (NewModeVector 5 ModeNormal (SeverityOther '''') 9)"
  have nv: "NewModeVector 5 ModeNormal (SeverityOther '''') 9 = (v, None)"
    by (simp add: v_def NewModeVector_def GetContract_def ValidateMode_def validModes_def)
  have "CurrentMode v = ModeNormal"
    using nv by (auto simp: NewModeVector_def GetContract_def ValidateMode_def validModes_def)
  then have "CurrentMode (mode_run v (map sample_mode_intent [ModeFailed])) = ModeFailed"
    by (simp add: mode_eval)
  with mode_contract_invariant [OF nv refl, of "map sample_mode_intent [ModeFailed]"] nv
  show ?thesis by auto
qed

theorem mode_recovery_gate_witness:
  "\<exists>n \<le> 3. CurrentMode (mode_run (zeroModeVector\<lparr>CurrentMode := ModeQuarantined\<rparr>)
     (take n (map sample_mode_intent [ModeNormal, ModeRecovering, ModeNormal]))) = ModeRecovering"
proof -
  let ?v = "zeroModeVector\<lparr>CurrentMode := ModeQuarantined\<rparr>"
  let ?is = "map sample_mode_intent [ModeNormal, ModeRecovering, ModeNormal]"
  have "CurrentMode (mode_run ?v ?is) = ModeNormal" by (simp add: mode_eval)
  moreover have "length ?is = 3" by simp
  ultimately show ?thesis using mode_recovery_gate [of ?v ?is] by (simp add: numeral_3_eq_3)
qed

end
