(* ===== verification/Sha256.thy ===== *)
theory Sha256
  imports Prelude
begin

text \<open>
  The hash of the standard library that the components call, \<open>crypto/sha256\<close> followed by
  \<open>hex.EncodeToString\<close>, after FIPS 180-4: 32-bit words, 64 rounds for each block of 64
  bytes. The locale \<open>hex_digest\<close> states what the components rely on (64 lower-case hex
  digits), and \<open>sha256_hex\<close> interprets it.
\<close>

unbundle bit_operations_syntax

section \<open>The hash function\<close>

type_synonym w32 = "32 word"

text \<open>
  The constants of the standard are the first 32 bits of the fractional parts of the cube roots
  of the first 64 primes (round constants) and of the square roots of the first eight
  (initial state). \<open>iroot k b 0 n\<close> is the integer \<open>k\<close>-th root of \<open>n\<close>, found bit by
  bit from bit \<open>b - 1\<close> downwards; \<open>of_nat\<close> keeps the low 32 bits.
\<close>

fun iroot :: "nat \<Rightarrow> nat \<Rightarrow> nat \<Rightarrow> nat \<Rightarrow> nat" where
  "iroot k 0 r n = r"
| "iroot k (Suc b) r n = iroot k b (if (r + 2 ^ b) ^ k \<le> n then r + 2 ^ b else r) n"

definition primes_upto :: "nat \<Rightarrow> nat list" where
  "primes_upto n = filter (\<lambda>p. list_all (\<lambda>d. p mod d \<noteq> 0) [2..<p]) [2..<Suc n]"

definition sha_K :: "w32 list" where
  "sha_K = map (\<lambda>p. of_nat (iroot 3 36 0 (p * 2 ^ 96))) (primes_upto 311)"

record sha_state =
  sha_a :: w32
  sha_b :: w32
  sha_c :: w32
  sha_d :: w32
  sha_e :: w32
  sha_f :: w32
  sha_g :: w32
  sha_h :: w32

definition sha_start :: "nat \<Rightarrow> w32" where
  "sha_start p = of_nat (iroot 2 36 0 (p * 2 ^ 64))"

definition sha_init :: sha_state where
  "sha_init = \<lparr>sha_a = sha_start 2, sha_b = sha_start 3, sha_c = sha_start 5, sha_d = sha_start 7,
     sha_e = sha_start 11, sha_f = sha_start 13, sha_g = sha_start 17, sha_h = sha_start 19\<rparr>"

definition sha_round :: "w32 \<times> w32 \<Rightarrow> sha_state \<Rightarrow> sha_state" where
  "sha_round kw s = (let
     e = sha_e s; a = sha_a s;
     S1 = word_rotr 6 e XOR word_rotr 11 e XOR word_rotr 25 e;
     ch = (e AND sha_f s) XOR (NOT e AND sha_g s);
     t1 = sha_h s + S1 + ch + fst kw + snd kw;
     S0 = word_rotr 2 a XOR word_rotr 13 a XOR word_rotr 22 a;
     maj = (a AND sha_b s) XOR (a AND sha_c s) XOR (sha_b s AND sha_c s);
     t2 = S0 + maj
   in \<lparr>sha_a = t1 + t2, sha_b = a, sha_c = sha_b s, sha_d = sha_c s,
       sha_e = sha_d s + t1, sha_f = e, sha_g = sha_f s, sha_h = sha_g s\<rparr>)"

fun sha_extend :: "nat \<Rightarrow> w32 list \<Rightarrow> w32 list" where
  "sha_extend 0 w = w"
| "sha_extend (Suc n) w = (let
     t = length w; x = w ! (t - 15); y = w ! (t - 2);
     s0 = word_rotr 7 x XOR word_rotr 18 x XOR drop_bit 3 x;
     s1 = word_rotr 17 y XOR word_rotr 19 y XOR drop_bit 10 y
   in sha_extend n (w @ [w ! (t - 16) + s0 + w ! (t - 7) + s1]))"

definition sha_block :: "w32 list \<Rightarrow> sha_state \<Rightarrow> sha_state" where
  "sha_block w s = (let r = fold sha_round (zip sha_K (sha_extend 48 w)) s in
     \<lparr>sha_a = sha_a s + sha_a r, sha_b = sha_b s + sha_b r, sha_c = sha_c s + sha_c r,
      sha_d = sha_d s + sha_d r, sha_e = sha_e s + sha_e r, sha_f = sha_f s + sha_f r,
      sha_g = sha_g s + sha_g r, sha_h = sha_h s + sha_h r\<rparr>)"

fun sha_words :: "nat list \<Rightarrow> w32 list" where
  "sha_words (a # b # c # d # r) = of_nat (((a * 256 + b) * 256 + c) * 256 + d) # sha_words r"
| "sha_words _ = []"

function sha_blocks :: "w32 list \<Rightarrow> sha_state \<Rightarrow> sha_state" where
  "sha_blocks ws s = (if ws = [] then s else sha_blocks (drop 16 ws) (sha_block (take 16 ws) s))"
  by pat_completeness auto
termination
  by (relation "measure (\<lambda>(ws, s). length ws)") auto

declare sha_blocks.simps [simp del]

definition sha_pad :: "nat list \<Rightarrow> nat list" where
  "sha_pad m = (let l = length m; z = (119 - l mod 64) mod 64 in
     m @ [128] @ replicate z 0 @ map (\<lambda>i. (8 * l) div 256 ^ (7 - i) mod 256) [0..<8])"

definition hex_digit :: "nat \<Rightarrow> char" where
  "hex_digit n = char_of (if n < 10 then 48 + n else 87 + n)"

definition hex_word :: "w32 \<Rightarrow> string" where
  "hex_word w = map (\<lambda>i. hex_digit (unat w div 16 ^ (7 - i) mod 16)) [0..<8]"

definition sha256_hex :: "string \<Rightarrow> string" where
  "sha256_hex m = (let s = sha_blocks (sha_words (sha_pad (map of_char m))) sha_init in
     hex_word (sha_a s) @ hex_word (sha_b s) @ hex_word (sha_c s) @ hex_word (sha_d s) @
     hex_word (sha_e s) @ hex_word (sha_f s) @ hex_word (sha_g s) @ hex_word (sha_h s))"

section \<open>What the components rely on\<close>

definition is_lower_hex :: "char \<Rightarrow> bool" where
  "is_lower_hex c \<longleftrightarrow> (let n = of_char c :: nat in 48 \<le> n \<and> n \<le> 57 \<or> 97 \<le> n \<and> n \<le> 102)"

locale hex_digest =
  fixes hash :: "string \<Rightarrow> string"
  assumes hash_length: "length (hash m) = 64"
    and hash_hex: "list_all is_lower_hex (hash m)"
begin

lemma hash_decodable: "hex_decodable (hash m)"
proof -
  have "list_all is_hex_char (hash m)"
    using hash_hex [of m] by (auto simp: list_all_iff is_lower_hex_def is_hex_char_def Let_def)
  then show ?thesis by (simp add: hex_decodable_def hash_length)
qed

lemma hash_nonempty: "hash m \<noteq> []"
  using hash_length [of m] by auto

lemma prefixed_length: "length (''sha256:'' @ hash m) = 71"
  by (simp add: hash_length)

end

lemma hex_digit_lower: "n < 16 \<Longrightarrow> is_lower_hex (hex_digit n)"
  by (simp add: is_lower_hex_def hex_digit_def)

lemma length_hex_word [simp]: "length (hex_word w) = 8"
  by (simp add: hex_word_def)

lemma hex_word_lower: "list_all is_lower_hex (hex_word w)"
  by (simp add: hex_word_def list_all_iff hex_digit_lower)

interpretation sha: hex_digest sha256_hex
proof unfold_locales
  fix m
  show "length (sha256_hex m) = 64" by (simp add: sha256_hex_def Let_def)
  show "list_all is_lower_hex (sha256_hex m)"
    by (simp add: sha256_hex_def Let_def hex_word_lower)
qed

end
