(* ===== verification/Float64.thy ===== *)
theory Float64
  imports Prelude "HOL-Library.Log_Nat"
begin

text \<open>
  Go's \<open>float64\<close>: the finite binary64 numbers, as the rationals they denote, the two infinities and
  NaN, with the arithmetic of IEEE 754 in the rounding mode to nearest, ties to even. Every operation
  rounds its exact result once, as the compiler's code for amd64 does; the fused operations that the
  language allows on other platforms are not modelled. The two zeros are one value, since the modelled
  code never divides by a zero and never asks for its sign.

  The comparisons of the language are the functions \<open>flt\<close>, \<open>fle\<close> and \<open>feq\<close>, false as soon as an operand is
  NaN. The class instance \<open>linorder\<close> is the total order with NaN at the bottom, which agrees with them
  on numbers. Rounding is monotone and leaves representable numbers alone, which is what the
  component proofs use.
\<close>

section \<open>Values and rounding\<close>

datatype float64 = NaN | NegInf | Fin rat | PosInf

text \<open>The exponent of the binary interval that a positive rational lies in.\<close>

definition expo :: "rat \<Rightarrow> int" where
  "expo x = (let (p, q) = quotient_of x; k = bitlen p - bitlen q in if 2 powi k \<le> x then k else k - 1)"

text \<open>The unit in the last place: 53 bits of precision, none below \<open>2\<close> to the \<open>-1074\<close>.\<close>

definition ulp_expo :: "rat \<Rightarrow> int" where
  "ulp_expo x = max (expo x - 52) (- 1074)"

definition round_even :: "rat \<Rightarrow> int" where
  "round_even x = (let f = \<lfloor>x\<rfloor>; r = x - of_int f in
     if r < 1 / 2 then f else if r > 1 / 2 then f + 1 else if even f then f else f + 1)"

definition round_pos :: "rat \<Rightarrow> rat" where
  "round_pos x = of_int (round_even (x / 2 powi ulp_expo x)) * 2 powi ulp_expo x"

definition round64 :: "rat \<Rightarrow> float64" where
  "round64 x =
     (if x = 0 then Fin 0
      else if x > 0 then (if round_pos x \<ge> 2 ^ 1024 then PosInf else Fin (round_pos x))
      else (if round_pos (- x) \<ge> 2 ^ 1024 then NegInf else Fin (- round_pos (- x))))"

section \<open>Rounding\<close>

lemma bitlen_bounds_rat:
  assumes "0 < p"
  shows "2 powi (bitlen p - 1) \<le> (of_int p :: rat)" "(of_int p :: rat) < 2 powi bitlen p"
proof -
  have w: "2 ^ nat (bitlen p - 1) \<le> p \<and> p < 2 ^ nat (bitlen p)" using bitlen_bounds [of p] assms by blast
  then have b: "0 < bitlen p" using assms by (cases "bitlen p \<le> 0") simp_all
  from w have "(of_int (2 ^ nat (bitlen p - 1)) :: rat) \<le> of_int p \<and> (of_int p :: rat) < of_int (2 ^ nat (bitlen p))"
    unfolding of_int_le_iff of_int_less_iff .
  then show "2 powi (bitlen p - 1) \<le> (of_int p :: rat)" "(of_int p :: rat) < 2 powi bitlen p"
    using b by (simp_all add: power_int_def)
qed

lemma expo_bounds:
  assumes "0 < x"
  shows "2 powi expo x \<le> x" "x < 2 powi (expo x + 1)"
proof -
  obtain p q where pq: "quotient_of x = (p, q)" by fastforce
  have q: "0 < q" and x: "x = of_int p / of_int q" using quotient_of_denom_pos [OF pq] quotient_of_div [OF pq] by auto
  then have p: "0 < p" using assms by (simp add: zero_less_divide_iff)
  let ?k = "bitlen p - bitlen q"
  have "x < 2 powi bitlen p / 2 powi (bitlen q - 1)"
    unfolding x using bitlen_bounds_rat(2) [OF p] bitlen_bounds_rat(1) [OF q] q p by (intro frac_less) simp_all
  then have u: "x < 2 powi (?k + 1)" by (simp add: power_int_diff power_int_add field_simps)
  have "2 powi (bitlen p - 1) / 2 powi bitlen q \<le> x"
    unfolding x using bitlen_bounds_rat(1) [OF p] bitlen_bounds_rat(2) [OF q] q p by (intro frac_le) simp_all
  then have l: "2 powi (?k - 1) \<le> x" by (simp add: power_int_diff power_int_add field_simps)
  show "2 powi expo x \<le> x" using l by (simp add: expo_def pq Let_def)
  show "x < 2 powi (expo x + 1)" using u by (simp add: expo_def pq Let_def)
qed

lemma expo_mono: "0 < x \<Longrightarrow> x \<le> y \<Longrightarrow> expo x \<le> expo y"
proof (rule ccontr)
  assume a: "0 < x" "x \<le> y" "\<not> expo x \<le> expo y"
  then have "(2 :: rat) powi (expo y + 1) \<le> 2 powi expo x" by (intro power_int_increasing) auto
  then show False using a expo_bounds(2) [of y] expo_bounds(1) [of x] by linarith
qed

lemma round_even_le: "x \<le> of_int n \<Longrightarrow> round_even x \<le> n"
proof -
  assume a: "x \<le> of_int n"
  then have "\<lfloor>x\<rfloor> \<le> n" by (simp add: floor_le_iff)
  moreover have "x = of_int \<lfloor>x\<rfloor>" if "\<lfloor>x\<rfloor> = n" using a that by (metis of_int_floor_le order_antisym)
  ultimately show ?thesis unfolding round_even_def Let_def by (cases "\<lfloor>x\<rfloor> = n") auto
qed

lemma round_even_ge: "of_int n \<le> x \<Longrightarrow> n \<le> round_even x"
  unfolding round_even_def Let_def using le_floor_iff [of n x] by auto

lemma round_even_mono: "x \<le> y \<Longrightarrow> round_even x \<le> round_even y"
proof (cases "\<lfloor>x\<rfloor> = \<lfloor>y\<rfloor>")
  case True
  assume "x \<le> y"
  then show ?thesis unfolding round_even_def Let_def True by auto
next
  case False
  assume a: "x \<le> y"
  then have "\<lfloor>x\<rfloor> + 1 \<le> \<lfloor>y\<rfloor>" using False floor_mono [OF a] by linarith
  moreover have "round_even x \<le> \<lfloor>x\<rfloor> + 1" "\<lfloor>y\<rfloor> \<le> round_even y" unfolding round_even_def Let_def by auto
  ultimately show ?thesis by linarith
qed

text \<open>A power of two from \<open>2\<close> to the \<open>-1074\<close> on is never crossed.\<close>

lemma powi_split: "e \<le> k \<Longrightarrow> (2 :: rat) powi k / 2 powi e = of_int (2 ^ nat (k - e))"
proof -
  assume "e \<le> k"
  then have "(2 :: rat) powi (k - e) = of_int (2 ^ nat (k - e))" by (simp add: power_int_def)
  then show ?thesis by (simp add: power_int_diff)
qed

lemma round_pos_le_pow:
  assumes "0 < x" "x \<le> 2 powi k" "ulp_expo x \<le> k"
  shows "round_pos x \<le> 2 powi k"
proof -
  have "x / 2 powi ulp_expo x \<le> 2 powi k / 2 powi ulp_expo x" using assms(2) by (intro divide_right_mono) auto
  then have "round_even (x / 2 powi ulp_expo x) \<le> 2 ^ nat (k - ulp_expo x)"
    unfolding powi_split [OF assms(3)] by (rule round_even_le)
  then have "(of_int (round_even (x / 2 powi ulp_expo x)) :: rat) \<le> of_int (2 ^ nat (k - ulp_expo x))" unfolding of_int_le_iff .
  then have "round_pos x \<le> (2 powi k / 2 powi ulp_expo x) * 2 powi ulp_expo x"
    unfolding round_pos_def powi_split [OF assms(3)] by (intro mult_right_mono) auto
  then show ?thesis by simp
qed

lemma round_pos_ge_pow:
  assumes "0 < x" "2 powi k \<le> x" "ulp_expo x \<le> k"
  shows "2 powi k \<le> round_pos x"
proof -
  have "2 powi k / 2 powi ulp_expo x \<le> x / 2 powi ulp_expo x" using assms(2) by (intro divide_right_mono) auto
  then have "2 ^ nat (k - ulp_expo x) \<le> round_even (x / 2 powi ulp_expo x)"
    unfolding powi_split [OF assms(3)] by (rule round_even_ge)
  then have "(of_int (2 ^ nat (k - ulp_expo x)) :: rat) \<le> of_int (round_even (x / 2 powi ulp_expo x))" unfolding of_int_le_iff .
  then have "(2 powi k / 2 powi ulp_expo x) * 2 powi ulp_expo x \<le> round_pos x"
    unfolding round_pos_def powi_split [OF assms(3)] by (intro mult_right_mono) auto
  then show ?thesis by simp
qed

lemma round_pos_nonneg: "0 < x \<Longrightarrow> 0 \<le> round_pos x"
  using round_even_ge [of 0 "x / 2 powi ulp_expo x"] by (simp add: round_pos_def)

lemma round_pos_mono:
  assumes "0 < x" "x \<le> y"
  shows "round_pos x \<le> round_pos y"
proof (cases "ulp_expo x = ulp_expo y")
  case True
  have "x / 2 powi ulp_expo y \<le> y / 2 powi ulp_expo y" using assms by (intro divide_right_mono) auto
  from round_even_mono [OF this] show ?thesis
    unfolding round_pos_def True by (intro mult_right_mono) auto
next
  case False
  then have e: "expo x < expo y" "- 1022 < expo y" using expo_mono [OF assms] by (auto simp: ulp_expo_def max_def split: if_splits)
  have y: "0 < y" using assms by simp
  define k where "k = expo y"
  have "2 powi k \<le> round_pos y" using expo_bounds(1) [OF y] e by (intro round_pos_ge_pow [OF y]) (auto simp: ulp_expo_def k_def)
  moreover have "x \<le> 2 powi k"
  proof -
    have "(2 :: rat) powi (expo x + 1) \<le> 2 powi k" using e by (intro power_int_increasing) (auto simp: k_def)
    then show ?thesis using expo_bounds(2) [OF assms(1)] by simp
  qed
  then have "round_pos x \<le> 2 powi k" using e by (intro round_pos_le_pow [OF assms(1)]) (auto simp: ulp_expo_def k_def)
  ultimately show ?thesis by simp
qed

text \<open>A number with at most 53 significant bits is left alone.\<close>

lemma round_pos_exact:
  assumes "x = of_int m * 2 powi e" "0 < m" "m \<le> 2 ^ 53" "- 1074 \<le> e"
  shows "round_pos x = x"
proof -
  have x: "0 < x" using assms(1,2) by simp
  have "ulp_expo x \<le> e \<or> (m = 2 ^ 53 \<and> ulp_expo x = e + 1)"
  proof (cases "m = 2 ^ 53")
    case True
    then have p: "x = 2 powi (e + 53)" using assms(1) by (simp add: power_int_add)
    have "expo x = e + 53"
    proof (rule antisym)
      show "expo x \<le> e + 53"
      proof (rule ccontr)
        assume "\<not> expo x \<le> e + 53"
        then have "(2 :: rat) powi (e + 53) < 2 powi expo x" by (intro power_int_strict_increasing) auto
        then show False using expo_bounds(1) [OF x] p by simp
      qed
      show "e + 53 \<le> expo x"
      proof (rule ccontr)
        assume "\<not> e + 53 \<le> expo x"
        then have "(2 :: rat) powi (expo x + 1) \<le> 2 powi (e + 53)" by (intro power_int_increasing) auto
        then show False using expo_bounds(2) [OF x] p by simp
      qed
    qed
    then show ?thesis using True assms(4) by (simp add: ulp_expo_def)
  next
    case False
    then have "(of_int m :: rat) < of_int (2 ^ 53)" using assms(3) unfolding of_int_less_iff by linarith
    then have "x < 2 ^ 53 * 2 powi e" using assms(1) by simp
    then have l: "x < 2 powi (e + 53)" by (simp add: power_int_add mult.commute)
    have "expo x \<le> e + 52"
    proof (rule ccontr)
      assume "\<not> expo x \<le> e + 52"
      then have "(2 :: rat) powi (e + 53) \<le> 2 powi expo x" by (intro power_int_increasing) auto
      then show False using expo_bounds(1) [OF x] l by simp
    qed
    then show ?thesis using assms(4) by (simp add: ulp_expo_def)
  qed
  then have "\<exists>n. x / 2 powi ulp_expo x = of_int n"
  proof
    assume u: "ulp_expo x \<le> e"
    have "x / 2 powi ulp_expo x = of_int m * (2 powi e / 2 powi ulp_expo x)" using assms(1) by simp
    also have "\<dots> = of_int (m * 2 ^ nat (e - ulp_expo x))" unfolding powi_split [OF u] by simp
    finally show ?thesis by blast
  next
    assume u: "m = 2 ^ 53 \<and> ulp_expo x = e + 1"
    have "x / 2 powi (e + 1) = of_int (2 ^ 52)" using u assms(1) by (simp add: power_int_add)
    then show ?thesis using u by metis
  qed
  then obtain n where n: "x / 2 powi ulp_expo x = of_int n" by blast
  have "round_even (of_int n) = n" by (simp add: round_even_def)
  then show ?thesis unfolding round_pos_def n by (simp add: n [symmetric])
qed

lemma round64_exact:
  assumes "x = of_int m * 2 powi e" "\<bar>m\<bar> \<le> 2 ^ 53" "- 1074 \<le> e" "\<bar>x\<bar> < 2 ^ 1024"
  shows "round64 x = Fin x"
proof -
  consider "m = 0" | "0 < m" | "m < 0" by linarith
  then show ?thesis
  proof cases
    case 1
    then show ?thesis using assms(1) by (simp add: round64_def)
  next
    case 2
    then have "0 < x" "round_pos x = x" using round_pos_exact [OF assms(1) 2] assms by simp_all
    then show ?thesis using assms(4) by (simp add: round64_def)
  next
    case 3
    have "- x = of_int (- m) * 2 powi e" using assms(1) by simp
    from round_pos_exact [OF this] 3 assms have "x < 0" "round_pos (- x) = - x" by (simp_all add: mult_neg_pos)
    then show ?thesis using assms(4) by (simp add: round64_def)
  qed
qed

lemma round64_int [simp]: "\<bar>n\<bar> \<le> 2 ^ 53 \<Longrightarrow> round64 (of_int n) = Fin (of_int n)"
proof -
  assume a: "\<bar>n\<bar> \<le> 2 ^ 53"
  then have "\<bar>of_int n :: rat\<bar> \<le> of_int (2 ^ 53)" unfolding of_int_abs [symmetric] of_int_le_iff by simp
  then have "\<bar>of_int n :: rat\<bar> < 2 ^ 1024" by simp
  then show ?thesis using a round64_exact [of "of_int n" n 0] by simp
qed

lemma round64_0 [simp]: "round64 0 = Fin 0" and round64_1 [simp]: "round64 1 = Fin 1"
  using round64_int [of 0] round64_int [of 1] by simp_all

lemma round64_numeral: "numeral n \<le> (2 :: int) ^ 53 \<Longrightarrow> round64 (numeral n) = Fin (numeral n)"
  using round64_int [of "numeral n"] by simp

lemma round64_number [simp]: "round64 x \<noteq> NaN" "NaN \<noteq> round64 x"
  by (auto simp: round64_def)

section \<open>Order\<close>

text \<open>The total order with NaN at the bottom.\<close>

instantiation float64 :: linorder
begin

fun less_eq_float64 :: "float64 \<Rightarrow> float64 \<Rightarrow> bool" where
  "less_eq_float64 NaN b \<longleftrightarrow> True"
| "less_eq_float64 NegInf b \<longleftrightarrow> b \<noteq> NaN"
| "less_eq_float64 (Fin x) b \<longleftrightarrow> (case b of Fin y \<Rightarrow> x \<le> y | PosInf \<Rightarrow> True | _ \<Rightarrow> False)"
| "less_eq_float64 PosInf b \<longleftrightarrow> b = PosInf"

definition less_float64 :: "float64 \<Rightarrow> float64 \<Rightarrow> bool" where
  "less_float64 a b \<longleftrightarrow> a \<le> b \<and> \<not> b \<le> a"

instance
proof
  fix a b c :: float64
  show "a < b \<longleftrightarrow> a \<le> b \<and> \<not> b \<le> a" by (rule less_float64_def)
  show "a \<le> a" by (cases a) simp_all
  show "a \<le> b \<Longrightarrow> b \<le> c \<Longrightarrow> a \<le> c" by (cases a; cases b; cases c) auto
  show "a \<le> b \<Longrightarrow> b \<le> a \<Longrightarrow> a = b" by (cases a; cases b) auto
  show "a \<le> b \<or> b \<le> a" by (cases a; cases b) auto
qed

end

lemma less_float64_simps [simp]:
  "Fin x < Fin y \<longleftrightarrow> x < y" "Fin x < PosInf" "NegInf < Fin x" "NegInf < PosInf" "\<not> PosInf < a" "\<not> a < NaN"
  by (auto simp: less_float64_def)

lemma le_Fin_cases: "a \<noteq> NaN \<Longrightarrow> Fin x \<le> a \<longleftrightarrow> a = PosInf \<or> (\<exists>y. a = Fin y \<and> x \<le> y)"
  by (cases a) auto

text \<open>Rounding is monotone.\<close>

lemma round64_mono: "x \<le> y \<Longrightarrow> round64 x \<le> round64 y"
proof -
  assume a: "x \<le> y"
  consider "0 < x" | "x \<le> 0" "0 \<le> y" | "y < 0" by linarith
  then show ?thesis
  proof cases
    case 1
    then show ?thesis using round_pos_mono [OF 1 a] a by (auto simp: round64_def)
  next
    case 2
    then show ?thesis using round_pos_nonneg [of y] round_pos_nonneg [of "- x"] by (auto simp: round64_def)
  next
    case 3
    then show ?thesis using round_pos_mono [of "- y" "- x"] a by (auto simp: round64_def)
  qed
qed

section \<open>The values of the type\<close>

definition binary64 :: "float64 \<Rightarrow> bool" where
  "binary64 a \<longleftrightarrow> (case a of Fin x \<Rightarrow> round64 x = Fin x | _ \<Rightarrow> True)"

lemma binary64_simps [simp]: "binary64 NaN" "binary64 PosInf" "binary64 NegInf" "binary64 (Fin x) \<longleftrightarrow> round64 x = Fin x"
  by (simp_all add: binary64_def)

lemma round_le: "x \<le> y \<Longrightarrow> round64 y = Fin y \<Longrightarrow> round64 x \<le> Fin y"
  using round64_mono [of x y] by simp

lemma round_ge: "x \<le> y \<Longrightarrow> round64 x = Fin x \<Longrightarrow> Fin x \<le> round64 y"
  using round64_mono [of x y] by simp

section \<open>Arithmetic and comparison\<close>

fun fsgn :: "float64 \<Rightarrow> rat" where
  "fsgn NaN = 0" | "fsgn NegInf = - 1" | "fsgn (Fin x) = sgn x" | "fsgn PosInf = 1"

definition finf :: "rat \<Rightarrow> float64" where
  "finf s = (if s > 0 then PosInf else if s < 0 then NegInf else NaN)"

fun fneg :: "float64 \<Rightarrow> float64" where
  "fneg NaN = NaN" | "fneg NegInf = PosInf" | "fneg (Fin x) = Fin (- x)" | "fneg PosInf = NegInf"

definition fadd :: "float64 \<Rightarrow> float64 \<Rightarrow> float64" where
  "fadd a b =
     (if a = NaN \<or> b = NaN then NaN
      else case a of
        Fin x \<Rightarrow> (case b of Fin y \<Rightarrow> round64 (x + y) | _ \<Rightarrow> b)
      | _ \<Rightarrow> if b = fneg a then NaN else a)"

definition fsub :: "float64 \<Rightarrow> float64 \<Rightarrow> float64" where
  "fsub a b = fadd a (fneg b)"

definition fmul :: "float64 \<Rightarrow> float64 \<Rightarrow> float64" where
  "fmul a b =
     (if a = NaN \<or> b = NaN then NaN
      else case (a, b) of (Fin x, Fin y) \<Rightarrow> round64 (x * y) | _ \<Rightarrow> finf (fsgn a * fsgn b))"

definition fdiv :: "float64 \<Rightarrow> float64 \<Rightarrow> float64" where
  "fdiv a b =
     (if a = NaN \<or> b = NaN then NaN
      else case b of
        Fin y \<Rightarrow> (case a of
            Fin x \<Rightarrow> if y = 0 then finf (fsgn a) else round64 (x / y)
          | _ \<Rightarrow> if y = 0 then a else finf (fsgn a * fsgn b))
      | _ \<Rightarrow> (case a of Fin x \<Rightarrow> Fin 0 | _ \<Rightarrow> NaN))"

definition flt :: "float64 \<Rightarrow> float64 \<Rightarrow> bool" where
  "flt a b \<longleftrightarrow> a \<noteq> NaN \<and> b \<noteq> NaN \<and> a < b"

definition fle :: "float64 \<Rightarrow> float64 \<Rightarrow> bool" where
  "fle a b \<longleftrightarrow> a \<noteq> NaN \<and> b \<noteq> NaN \<and> a \<le> b"

definition feq :: "float64 \<Rightarrow> float64 \<Rightarrow> bool" where
  "feq a b \<longleftrightarrow> a \<noteq> NaN \<and> b \<noteq> NaN \<and> a = b"

text \<open>\<open>math.Max\<close> and \<open>math.Min\<close>: an infinity on the winning side counts more than NaN.\<close>

definition fmax :: "float64 \<Rightarrow> float64 \<Rightarrow> float64" where
  "fmax a b = (if a = PosInf \<or> b = PosInf then PosInf else if a = NaN \<or> b = NaN then NaN else max a b)"

definition fmin :: "float64 \<Rightarrow> float64 \<Rightarrow> float64" where
  "fmin a b = (if a = NegInf \<or> b = NegInf then NegInf else if a = NaN \<or> b = NaN then NaN else min a b)"

text \<open>
  Conversions from and to \<open>int64\<close>. The language leaves the conversion of a value out of range to the
  implementation; amd64 gives the smallest integer.
\<close>

definition float_of_int :: "int \<Rightarrow> float64" where
  "float_of_int n = round64 (of_int n)"

definition float_to_int :: "float64 \<Rightarrow> int" where
  "float_to_int a = (case a of
       Fin x \<Rightarrow> (let n = (if 0 \<le> x then \<lfloor>x\<rfloor> else \<lceil>x\<rceil>) in if - (2 ^ 63) \<le> n \<and> n < 2 ^ 63 then n else - (2 ^ 63))
     | _ \<Rightarrow> - (2 ^ 63))"

text \<open>\<open>%.2f\<close>, which rounds the exact value to nearest, ties to even.\<close>

definition show_2f :: "float64 \<Rightarrow> string" where
  "show_2f a = (case a of NaN \<Rightarrow> ''NaN'' | PosInf \<Rightarrow> ''+Inf'' | NegInf \<Rightarrow> ''-Inf''
     | Fin x \<Rightarrow> (let c = nat (round_even (\<bar>x\<bar> * 100)) in
         (if x < 0 then ''-'' else '''') @ show_nat (c div 100) @ ''.'' @ [digit_char (c div 10 mod 10), digit_char (c mod 10)]))"

lemma fcmp_simps [simp]:
  "flt (Fin x) (Fin y) \<longleftrightarrow> x < y" "fle (Fin x) (Fin y) \<longleftrightarrow> x \<le> y" "feq (Fin x) (Fin y) \<longleftrightarrow> x = y"
  "\<not> flt NaN a" "\<not> flt a NaN" "\<not> fle NaN a" "\<not> fle a NaN" "\<not> feq NaN a" "\<not> feq a NaN"
  by (simp_all add: flt_def fle_def feq_def)

lemma not_flt: "\<not> flt a b \<longleftrightarrow> a = NaN \<or> b = NaN \<or> fle b a"
  by (auto simp: flt_def fle_def)

lemma farith_NaN [simp]: "fadd NaN a = NaN" "fadd a NaN = NaN" "fsub NaN a = NaN" "fsub a NaN = NaN"
  "fmul NaN a = NaN" "fmul a NaN = NaN" "fdiv NaN a = NaN" "fdiv a NaN = NaN"
  by (simp_all add: fadd_def fsub_def fmul_def fdiv_def)

lemma farith_Fin [simp]: "fadd (Fin x) (Fin y) = round64 (x + y)" "fsub (Fin x) (Fin y) = round64 (x - y)"
  "fmul (Fin x) (Fin y) = round64 (x * y)" "y \<noteq> 0 \<Longrightarrow> fdiv (Fin x) (Fin y) = round64 (x / y)"
  by (simp_all add: fadd_def fsub_def fmul_def fdiv_def)

text \<open>Addition of numbers that are not negative is monotone, infinities included.\<close>

lemma fadd_mono:
  assumes "Fin 0 \<le> a" "a \<le> b" "Fin 0 \<le> c" "c \<le> d"
  shows "Fin 0 \<le> fadd a c \<and> fadd a c \<le> fadd b d"
proof -
  have n: "a \<noteq> NaN" "c \<noteq> NaN" "b \<noteq> NaN" "d \<noteq> NaN"
    using assms order.trans [OF assms(1,2)] order.trans [OF assms(3,4)] by auto
  have p: "Fin 0 \<le> b" "Fin 0 \<le> d" using order.trans [OF assms(1,2)] order.trans [OF assms(3,4)] by simp_all
  show ?thesis
  proof (cases "b = PosInf \<or> d = PosInf")
    case True
    have "Fin 0 \<le> fadd a c" using assms n round64_mono [of 0] by (cases a; cases c) (auto simp: fadd_def)
    moreover have "fadd b d = PosInf" using True p n by (cases b; cases d) (auto simp: fadd_def)
    moreover have "x \<le> PosInf" for x by (cases x) auto
    ultimately show ?thesis by simp
  next
    case False
    then obtain x y z w where e: "a = Fin x" "b = Fin y" "c = Fin z" "d = Fin w"
      using assms n by (cases a; cases b; cases c; cases d) auto
    then show ?thesis using assms round64_mono [of "x + z" "y + w"] round64_mono [of 0 "x + z"] by auto
  qed
qed

section \<open>Magnitudes\<close>

lemma expo_lt:
  assumes "0 < x" "x < 2 powi k"
  shows "expo x < k"
proof (rule ccontr)
  assume "\<not> expo x < k"
  then have "(2 :: rat) powi k \<le> 2 powi expo x" by (intro power_int_increasing) auto
  then show False using expo_bounds(1) [OF assms(1)] assms(2) by simp
qed

text \<open>Rounding gives values of the type.\<close>

lemma round_pos_binary64:
  assumes "0 < x" "round_pos x < 2 ^ 1024"
  shows "round64 (round_pos x) = Fin (round_pos x)"
proof -
  let ?e = "ulp_expo x" and ?m = "round_even (x / 2 powi ulp_expo x)"
  have "x < 2 powi (?e + 53)"
  proof -
    have "(2 :: rat) powi (expo x + 1) \<le> 2 powi (?e + 53)" by (intro power_int_increasing) (auto simp: ulp_expo_def)
    then show ?thesis using expo_bounds(2) [OF assms(1)] by simp
  qed
  then have "x / 2 powi ?e \<le> of_int (2 ^ 53)" by (simp add: power_int_add field_simps)
  then have "?m \<le> 2 ^ 53" by (rule round_even_le)
  moreover have "0 \<le> ?m" using assms(1) by (intro round_even_ge) simp
  ultimately show ?thesis
    using round64_exact [of "round_pos x" ?m ?e] assms round_pos_nonneg [OF assms(1)] by (auto simp: round_pos_def ulp_expo_def)
qed

lemma round64_uminus: "round64 (- x) = fneg (round64 x)"
  by (auto simp: round64_def)

lemma round64_binary64 [simp]: "binary64 (round64 x)"
proof -
  have p: "binary64 (round64 y)" if "0 < y" for y
    using round_pos_binary64 [OF that] that by (auto simp: round64_def not_le)
  have n: "binary64 (fneg a)" if "binary64 a" for a
    using that by (cases a) (simp_all add: round64_uminus)
  consider "x = 0" | "0 < x" | "0 < - x" by linarith
  then show ?thesis
  proof cases
    case 3
    from n [OF p [OF this]] show ?thesis by (simp add: round64_uminus [symmetric])
  qed (simp_all add: p)
qed

text \<open>A bound by a power of two survives rounding.\<close>

lemma round64_bound:
  assumes "\<bar>x\<bar> \<le> 2 ^ k" "k < 1024"
  shows "\<exists>y. round64 x = Fin y \<and> \<bar>y\<bar> \<le> 2 ^ k"
proof -
  have e: "round64 (2 ^ k) = Fin (2 ^ k)"
    using round64_exact [of "2 ^ k" 1 "int k"] power_strict_increasing [OF assms(2), of "2 :: rat"] by simp
  have "round64 x \<le> Fin (2 ^ k)" using assms(1) by (intro round_le e) auto
  moreover have "Fin (- (2 ^ k)) \<le> round64 x"
    using assms(1) e by (intro round_ge) (auto simp: round64_uminus)
  ultimately show ?thesis by (cases "round64 x") auto
qed

section \<open>Ranges\<close>

text \<open>Numbers of bounded magnitude: what keeps a chain of operations away from the infinities and NaN.\<close>

definition fbound :: "nat \<Rightarrow> float64 \<Rightarrow> bool" where
  "fbound k a \<longleftrightarrow> (case a of Fin x \<Rightarrow> \<bar>x\<bar> \<le> 2 ^ k | _ \<Rightarrow> False)"

lemma fbound_Fin [simp]: "fbound k (Fin x) \<longleftrightarrow> \<bar>x\<bar> \<le> 2 ^ k"
  by (simp add: fbound_def)

lemma fbound_cases: "fbound k a \<Longrightarrow> \<exists>x. a = Fin x \<and> \<bar>x\<bar> \<le> 2 ^ k"
  by (cases a) (simp_all add: fbound_def)

lemma fbound_number: "fbound k a \<Longrightarrow> a \<noteq> NaN"
  by (auto simp: fbound_def)

lemma fbound_mono:
  assumes "fbound j a" "j \<le> k"
  shows "fbound k a"
proof -
  obtain x where e: "a = Fin x" "\<bar>x\<bar> \<le> 2 ^ j" using fbound_cases [OF assms(1)] by blast
  have "(2 :: rat) ^ j \<le> 2 ^ k" using assms(2) by (rule power_increasing) simp
  then show ?thesis using e(2) unfolding e(1) fbound_Fin by (rule order.trans [rotated])
qed

lemma fbound_round: "\<bar>x\<bar> \<le> 2 ^ k \<Longrightarrow> k < 1024 \<Longrightarrow> fbound k (round64 x)"
  using round64_bound [of x k] by auto

lemma fbound_of_int:
  assumes "\<bar>n\<bar> \<le> 2 ^ k" "k < 1024"
  shows "fbound k (float_of_int n)"
proof -
  have "(of_int \<bar>n\<bar> :: rat) \<le> of_int (2 ^ k)" using assms(1) by (simp only: of_int_le_iff)
  then show ?thesis using assms(2) unfolding float_of_int_def by (intro fbound_round) simp_all
qed

lemma fbound_add:
  assumes "fbound k a" "fbound k b" "k + 1 < 1024"
  shows "fbound (k + 1) (fadd a b)" "fbound (k + 1) (fsub a b)"
proof -
  obtain x y where e: "a = Fin x" "b = Fin y" "\<bar>x\<bar> \<le> 2 ^ k" "\<bar>y\<bar> \<le> 2 ^ k"
    using fbound_cases [OF assms(1)] fbound_cases [OF assms(2)] by blast
  then have "\<bar>x + y\<bar> \<le> 2 ^ (k + 1)" "\<bar>x - y\<bar> \<le> 2 ^ (k + 1)" by (simp_all add: abs_le_iff)
  then show "fbound (k + 1) (fadd a b)" "fbound (k + 1) (fsub a b)"
    using assms(3) by (simp_all add: e(1,2) fbound_round del: power_Suc power_add)
qed

lemma fbound_mul:
  assumes "fbound j a" "fbound k b" "j + k < 1024"
  shows "fbound (j + k) (fmul a b)"
proof -
  obtain x y where e: "a = Fin x" "b = Fin y" "\<bar>x\<bar> \<le> 2 ^ j" "\<bar>y\<bar> \<le> 2 ^ k"
    using fbound_cases [OF assms(1)] fbound_cases [OF assms(2)] by blast
  then have "\<bar>x * y\<bar> \<le> 2 ^ (j + k)" unfolding abs_mult power_add by (intro mult_mono) auto
  then show ?thesis using assms(3) unfolding e(1,2) farith_Fin by (rule fbound_round)
qed

text \<open>Division by a number that is not below a power of two.\<close>

lemma fbound_div:
  assumes "fbound j a" "1 / 2 ^ k \<le> y" "j + k < 1024"
  shows "fbound (j + k) (fdiv a (Fin y))"
proof -
  obtain x where e: "a = Fin x" "\<bar>x\<bar> \<le> 2 ^ j" using fbound_cases [OF assms(1)] by blast
  have y: "0 < y" by (rule less_le_trans [OF _ assms(2)]) simp
  have "2 ^ j * 1 \<le> 2 ^ j * (y * 2 ^ k)" using assms(2) by (intro mult_left_mono) (simp_all add: field_simps)
  also have "\<dots> = 2 ^ (j + k) * y" by (simp add: power_add mult.commute mult.left_commute)
  finally have "\<bar>x\<bar> \<le> 2 ^ (j + k) * y" using e(2) by simp
  then have "\<bar>x / y\<bar> \<le> 2 ^ (j + k)" using y by (simp add: abs_divide divide_le_eq)
  then show ?thesis using y assms(3) by (simp add: e(1) fbound_round)
qed

lemma round_ge_Fin:
  assumes "x \<le> y" "round64 x = Fin x" "\<bar>y\<bar> \<le> 2 ^ k" "k < 1024"
  shows "\<exists>z. round64 y = Fin z \<and> x \<le> z \<and> \<bar>z\<bar> \<le> 2 ^ k"
  using round64_bound [OF assms(3,4)] round_ge [OF assms(1,2)] by auto

section \<open>Literals\<close>

text \<open>Decimal literals of the modelled code, and what exact arithmetic on them would miss.\<close>

lemma round64_eval:
  assumes "2 powi k \<le> x" "x < 2 powi (k + 1)" "- 1022 \<le> k" "k < 1023"
  shows "round64 x = Fin (of_int (round_even (x / 2 powi (k - 52))) * 2 powi (k - 52))"
proof -
  have x: "0 < x" using assms(1) by (rule less_le_trans [rotated]) simp
  have "expo x = k"
  proof (rule antisym)
    show "expo x \<le> k" using expo_lt [OF x assms(2)] by simp
    show "k \<le> expo x"
    proof (rule ccontr)
      assume "\<not> k \<le> expo x"
      then have "(2 :: rat) powi (expo x + 1) \<le> 2 powi k" by (intro power_int_increasing) auto
      then show False using expo_bounds(2) [OF x] assms(1) by simp
    qed
  qed
  then have u: "ulp_expo x = k - 52" using assms(3) by (simp add: ulp_expo_def)
  have "round_pos x \<le> 2 powi (k + 1)" using assms(2) u by (intro round_pos_le_pow [OF x]) auto
  also have "\<dots> < 2 powi 1024" using assms(4) by (intro power_int_strict_increasing) auto
  finally have "round_pos x < 2 ^ 1024" by simp
  then show ?thesis using x u by (simp add: round64_def round_pos_def not_le)
qed

lemma round_even_quotient:
  assumes "0 < q"
  shows "round_even (of_int p / of_int q) =
    (if 2 * (p mod q) < q then p div q else if 2 * (p mod q) > q then p div q + 1 else if even (p div q) then p div q else p div q + 1)"
proof -
  have "(of_int p :: rat) = of_int (p div q) * of_int q + of_int (p mod q)"
    unfolding of_int_mult [symmetric] of_int_add [symmetric] by simp
  then have d: "(of_int p :: rat) / of_int q - of_int (p div q) = of_int (p mod q) / of_int q" using assms by (simp add: field_simps)
  have c: "(of_int (p mod q) / of_int q < (1 / 2 :: rat)) = (2 * (p mod q) < q)" "(of_int (p mod q) / of_int q > (1 / 2 :: rat)) = (2 * (p mod q) > q)"
    using assms of_int_less_iff [of "2 * (p mod q)" q, where 'a = rat] of_int_less_iff [of q "2 * (p mod q)", where 'a = rat] by (simp_all add: field_simps)
  show ?thesis unfolding round_even_def floor_divide_of_int_eq Let_def d c by (rule refl)
qed

lemma round_even_int [simp]: "round_even (of_int n) = n" "round_even (numeral k) = numeral k" "round_even 0 = 0" "round_even 1 = 1"
  by (simp_all add: round_even_def)

lemmas round_even_numeral [simp] = round_even_quotient [of "numeral b" "numeral a" for a b, simplified]

lemma round64_fraction:
  assumes "1 / 2 ^ n \<le> x" "x < 2 / 2 ^ n" "n \<le> 1022"
  shows "round64 x = Fin (of_int (round_even (x * 2 ^ (n + 52))) / 2 ^ (n + 52))"
proof -
  have p: "(2 :: rat) powi (- int m) = 1 / 2 ^ m" for m by (simp add: power_int_minus field_simps)
  have e: "- int n - 52 = - int (n + 52)" "(2 :: rat) powi (- int n + 1) = 2 / 2 ^ n"
    using power_int_add [of "2 :: rat" "- int n" 1] p [of n] by simp_all
  show ?thesis using round64_eval [of "- int n" x] assms unfolding e p by (simp add: p field_simps)
qed

lemma literals:
  "round64 (20 / 100) = Fin (3602879701896397 / 2 ^ 54)" "round64 (1 / 2) = Fin (1 / 2)" "round64 (40 / 100) = Fin (3602879701896397 / 2 ^ 53)"
  using round64_fraction [of 3 "20 / 100"] round64_fraction [of 1 "1 / 2"] round64_fraction [of 2 "40 / 100"]
  by simp_all

lemma rounding_matters:
  "flt (fsub (Fin 1) (fmul (Fin 3) (round64 (20 / 100)))) (round64 (40 / 100))"
proof -
  have "round64 (3 * (3602879701896397 / 2 ^ 54)) = Fin (5404319552844596 / 2 ^ 53)"
    using round64_fraction [of 1 "3 * (3602879701896397 / 2 ^ 54)"] by simp
  moreover have "round64 (1 - 5404319552844596 / 2 ^ 53) = Fin (3602879701896396 / 2 ^ 53)"
    using round64_fraction [of 2 "1 - 5404319552844596 / 2 ^ 53"] by simp
  ultimately show ?thesis unfolding literals farith_Fin by simp
qed

end
