(* ===== verification/Statevector.thy ===== *)
theory Statevector
  imports Sha256 Float64
begin

text \<open>
  The canonical state vector and its transition function,
  \<open>src/internal/kernel/statevector/vector.go\<close>: presence, valence, coherence, evidence and
  lineage of an entity, and \<open>Transition\<close>, which evaluates a policy envelope, a proposed
  input and the conformance signals of the context. Scores, weights and thresholds are
  \<open>float64\<close> values, so a score can be NaN. The lemmas bound every score that is a number, show that
  hard anti-relations dominate it and when a transition is accepted, and that every decided
  transition advances time and lineage by one step and keeps the vector valid.
\<close>

section \<open>Data\<close>

datatype Presence = PresenceEmpty | PresencePresent | PresenceUnknown | PresenceRedacted
  | PresenceOther string

datatype Valence = ValencePositive | ValenceNegative | ValenceNeutral | ValenceMixed
  | ValenceOther string

datatype Coherence = CoherenceCoherent | CoherencePartial | CoherenceDecoherent
  | CoherenceOther string

datatype Evidence = EvidenceUnverified | EvidenceVerified | EvidenceInferred
  | EvidenceContradicted | EvidenceOther string

datatype AntiRelationType = AntiRelationAttacks | AntiRelationInvalidates
  | AntiRelationContradicts | AntiRelationOther string

fun Presence_IsValid :: "Presence \<Rightarrow> bool" where
  "Presence_IsValid p \<longleftrightarrow>
     p = PresenceEmpty \<or> p = PresencePresent \<or> p = PresenceUnknown \<or> p = PresenceRedacted"

fun Valence_IsValid :: "Valence \<Rightarrow> bool" where
  "Valence_IsValid v \<longleftrightarrow>
     v = ValencePositive \<or> v = ValenceNegative \<or> v = ValenceNeutral \<or> v = ValenceMixed"

fun Coherence_IsValid :: "Coherence \<Rightarrow> bool" where
  "Coherence_IsValid c \<longleftrightarrow>
     c = CoherenceCoherent \<or> c = CoherencePartial \<or> c = CoherenceDecoherent"

fun Evidence_IsValid :: "Evidence \<Rightarrow> bool" where
  "Evidence_IsValid e \<longleftrightarrow>
     e = EvidenceUnverified \<or> e = EvidenceVerified \<or> e = EvidenceInferred \<or> e = EvidenceContradicted"

fun AntiRelationType_string :: "AntiRelationType \<Rightarrow> string" where
  "AntiRelationType_string AntiRelationAttacks = ''ATTACKS''"
| "AntiRelationType_string AntiRelationInvalidates = ''INVALIDATES''"
| "AntiRelationType_string AntiRelationContradicts = ''CONTRADICTS''"
| "AntiRelationType_string (AntiRelationOther s) = s"

record AntiRelation =
  ar_Type :: AntiRelationType
  ar_Source :: string
  ar_Target :: string
  ar_Reason :: string
  ar_Hard :: bool

datatype Decision = DecisionAccept | DecisionReject | DecisionQuarantine

record Lineage =
  ParentID :: string
  ChainDigest :: string
  Depth :: u64

record StateVector_sv =
  Entity :: string
  Tau :: u64
  sv_Presence :: Presence
  sv_Valence :: Valence
  sv_Coherence :: Coherence
  sv_Evidence :: Evidence
  sv_Lineage :: Lineage

datatype statevector_error = ErrInvalidEntity | ErrInvalidPresence | ErrInvalidValence
  | ErrInvalidCoherence | ErrInvalidEvidence | ErrEntityMismatch | ErrEmptyPolicyEnvelope

record ConformanceSignal =
  sig_Name :: string
  sig_Score :: float64
  sig_Weight :: float64

record ConformanceVector =
  Signals :: "ConformanceSignal list"
  cv_AntiRelations :: "AntiRelation list"
  cv_Metadata :: "string \<rightharpoonup> string"

record PolicyEnvelope =
  EntityID :: string
  ScoreThreshold :: float64
  HardInvariants :: "AntiRelationType list"

record TransitionInput =
  in_Action :: string
  in_Digest :: string
  in_TargetState :: "StateVector_sv option"
  in_AntiRelations :: "AntiRelation list"

record Observation =
  ob_Timestamp :: gotime
  ob_Code :: string
  ob_Message :: string
  ob_Details :: "string \<rightharpoonup> string"

record EvidenceRecord =
  er_Status :: Evidence
  er_ProofDigest :: string
  er_VerifiedAt :: int

record Residual =
  rs_Score :: float64
  rs_Dominated :: bool
  rs_HardViolations :: "AntiRelation list"
  rs_Warnings :: "string list"
  rs_Reason :: string

record TransitionResult =
  tr_Decision :: Decision
  tr_Observation :: Observation
  tr_NextState :: StateVector_sv
  tr_Evidence :: EvidenceRecord
  tr_Residual :: Residual

section \<open>Operations\<close>

definition Advance :: "Lineage \<Rightarrow> string \<Rightarrow> Lineage" where
  "Advance l stepDigest = \<lparr>ParentID = ChainDigest l,
     ChainDigest = sha256_hex (ChainDigest l @ '':'' @ stepDigest), Depth = Depth l + 1\<rparr>"

definition Validate_sv :: "StateVector_sv \<Rightarrow> statevector_error option" where
  "Validate_sv s =
     (if Entity s = '''' then Some ErrInvalidEntity
      else if \<not> Presence_IsValid (sv_Presence s) then Some ErrInvalidPresence
      else if \<not> Valence_IsValid (sv_Valence s) then Some ErrInvalidValence
      else if \<not> Coherence_IsValid (sv_Coherence s) then Some ErrInvalidCoherence
      else if \<not> Evidence_IsValid (sv_Evidence s) then Some ErrInvalidEvidence
      else None)"

definition classifyAntiRelations ::
  "PolicyEnvelope \<Rightarrow> AntiRelation list \<Rightarrow> AntiRelation list \<times> AntiRelation list" where
  "classifyAntiRelations pe allRelations =
     (let hard = (\<lambda>rel. ar_Hard rel \<or> ar_Type rel \<in> set (HardInvariants pe)) in
      (filter hard allRelations, filter (\<lambda>rel. \<not> hard rel) allRelations))"

text \<open>The loop of \<open>computeBaseScore\<close>: total weight and weighted sum.\<close>

fun score_loop :: "ConformanceSignal list \<Rightarrow> float64 \<Rightarrow> float64 \<Rightarrow> float64 \<times> float64" where
  "score_loop [] totalWeight weightedSum = (totalWeight, weightedSum)"
| "score_loop (sig # sigs) totalWeight weightedSum =
     (let w = (if fle (sig_Weight sig) (Fin 0) then Fin 1 else sig_Weight sig);
          s = (if flt (sig_Score sig) (Fin 0) then Fin 0 else if flt (Fin 1) (sig_Score sig) then Fin 1 else sig_Score sig)
      in score_loop sigs (fadd totalWeight w) (fadd weightedSum (fmul s w)))"

definition computeBaseScore :: "ConformanceSignal list \<Rightarrow> float64" where
  "computeBaseScore signals =
     (if signals = [] then Fin 1
      else (let (totalWeight, weightedSum) = score_loop signals (Fin 0) (Fin 0) in
            if feq totalWeight (Fin 0) then Fin 0 else fdiv weightedSum totalWeight))"

definition applyAntiInvariantDominance ::
  "StateVector_sv \<Rightarrow> Lineage \<Rightarrow> AntiRelation list \<Rightarrow> StateVector_sv" where
  "applyAntiInvariantDominance s0 nextLineage violations =
     \<lparr>Entity = Entity s0, Tau = Tau s0 + 1,
      sv_Presence = (if \<exists>v \<in> set violations. ar_Type v = AntiRelationInvalidates
                     then PresenceRedacted else sv_Presence s0),
      sv_Valence = ValenceNegative, sv_Coherence = CoherenceDecoherent,
      sv_Evidence = EvidenceContradicted, sv_Lineage = nextLineage\<rparr>"

definition dominated_message :: "AntiRelation \<Rightarrow> string" where
  "dominated_message primary = ''Hard anti-invariant '' @ AntiRelationType_string (ar_Type primary) @
     '' dominated composite score: '' @ ar_Reason primary"

definition soft_message :: "AntiRelation \<Rightarrow> string" where
  "soft_message sv = ''Soft anti-relation '' @ AntiRelationType_string (ar_Type sv) @ '': '' @ ar_Reason sv"

definition threshold_message :: "float64 \<Rightarrow> float64 \<Rightarrow> string" where
  "threshold_message score threshold =
     ''Conformance score '' @ show_2f score @ '' is below threshold '' @ show_2f threshold"

text \<open>\<open>hardViolations[0]\<close> is read only where the caller has checked that the list is not empty.\<close>

definition buildDominatedOutcome ::
  "gotime \<Rightarrow> gotime \<Rightarrow> StateVector_sv \<Rightarrow> Lineage \<Rightarrow> AntiRelation list \<Rightarrow> TransitionResult" where
  "buildDominatedOutcome now1 now2 s0 nextLineage hardViolations =
     (let s1 = applyAntiInvariantDominance s0 nextLineage hardViolations;
          primary = hd hardViolations;
          reason = dominated_message primary
      in \<lparr>tr_Decision = DecisionReject,
          tr_Observation = \<lparr>ob_Timestamp = now1, ob_Code = ''ANTI_INVARIANT_DOMINATED'',
            ob_Message = reason,
            ob_Details = [''primary_violation'' \<mapsto> AntiRelationType_string (ar_Type primary)]\<rparr>,
          tr_NextState = s1,
          tr_Evidence = \<lparr>er_Status = EvidenceContradicted, er_ProofDigest = ChainDigest nextLineage,
            er_VerifiedAt = unix_seconds now2\<rparr>,
          tr_Residual = \<lparr>rs_Score = Fin 0, rs_Dominated = True, rs_HardViolations = hardViolations,
            rs_Warnings = [], rs_Reason = reason\<rparr>\<rparr>)"

definition buildConformingOutcome ::
  "gotime \<Rightarrow> gotime \<Rightarrow> StateVector_sv \<Rightarrow> TransitionInput \<Rightarrow> Lineage \<Rightarrow> float64 \<Rightarrow> AntiRelation list \<Rightarrow> TransitionResult" where
  "buildConformingOutcome now1 now2 s0 x nextLineage score soft =
     (let presence = (case in_TargetState x of None \<Rightarrow> PresencePresent
            | Some t \<Rightarrow> if sv_Presence t \<noteq> PresenceOther '''' then sv_Presence t else PresencePresent);
          valence = (case in_TargetState x of None \<Rightarrow> ValencePositive
            | Some t \<Rightarrow> if sv_Valence t \<noteq> ValenceOther '''' then sv_Valence t else ValencePositive);
          s1 = \<lparr>Entity = Entity s0, Tau = Tau s0 + 1, sv_Presence = presence, sv_Valence = valence,
                sv_Coherence = CoherenceCoherent, sv_Evidence = EvidenceVerified,
                sv_Lineage = nextLineage\<rparr>;
          warnings = map soft_message soft
      in \<lparr>tr_Decision = DecisionAccept,
          tr_Observation = \<lparr>ob_Timestamp = now1, ob_Code = ''TRANSITION_ACCEPTED'',
            ob_Message = ''Conformance evaluation succeeded'', ob_Details = Map.empty\<rparr>,
          tr_NextState = s1,
          tr_Evidence = \<lparr>er_Status = sv_Evidence s1, er_ProofDigest = ChainDigest nextLineage,
            er_VerifiedAt = unix_seconds now2\<rparr>,
          tr_Residual = \<lparr>rs_Score = score, rs_Dominated = False, rs_HardViolations = [],
            rs_Warnings = warnings, rs_Reason = ''Conformance threshold satisfied''\<rparr>\<rparr>)"

definition buildNonConformingOutcome ::
  "gotime \<Rightarrow> gotime \<Rightarrow> StateVector_sv \<Rightarrow> Lineage \<Rightarrow> float64 \<Rightarrow> string \<Rightarrow> TransitionResult" where
  "buildNonConformingOutcome now1 now2 s0 nextLineage score reason =
     (let s1 = \<lparr>Entity = Entity s0, Tau = Tau s0 + 1, sv_Presence = sv_Presence s0,
                sv_Valence = ValenceNeutral, sv_Coherence = CoherencePartial,
                sv_Evidence = EvidenceUnverified, sv_Lineage = nextLineage\<rparr>
      in \<lparr>tr_Decision = DecisionReject,
          tr_Observation = \<lparr>ob_Timestamp = now1, ob_Code = ''THRESHOLD_UNMET'',
            ob_Message = reason, ob_Details = Map.empty\<rparr>,
          tr_NextState = s1,
          tr_Evidence = \<lparr>er_Status = EvidenceUnverified, er_ProofDigest = ChainDigest nextLineage,
            er_VerifiedAt = unix_seconds now2\<rparr>,
          tr_Residual = \<lparr>rs_Score = score, rs_Dominated = False, rs_HardViolations = [],
            rs_Warnings = [], rs_Reason = reason\<rparr>\<rparr>)"

text \<open>
  \<open>now1\<close> and \<open>now2\<close> are the two clock readings that the selected outcome makes. On an error
  the code returns the zero result beside it.
\<close>

definition Transition_sv ::
  "gotime \<Rightarrow> gotime \<Rightarrow> PolicyEnvelope \<Rightarrow> StateVector_sv \<Rightarrow> TransitionInput \<Rightarrow> ConformanceVector
    \<Rightarrow> statevector_error + TransitionResult" where
  "Transition_sv now1 now2 pe s0 x c =
     (if EntityID pe = '''' then Inl ErrEmptyPolicyEnvelope
      else case Validate_sv s0 of Some e \<Rightarrow> Inl e
      | None \<Rightarrow>
       if EntityID pe \<noteq> Entity s0 then Inl ErrEntityMismatch
       else
        (let allRelations = in_AntiRelations x @ cv_AntiRelations c;
             stepDigest = (if in_Digest x = '''' then in_Action x else in_Digest x);
             nextLineage = Advance (sv_Lineage s0) stepDigest;
             (hardViolations, softViolations) = classifyAntiRelations pe allRelations
         in if hardViolations \<noteq> [] then
              Inr (buildDominatedOutcome now1 now2 s0 nextLineage hardViolations)
            else
             (let baseScore = computeBaseScore (Signals c);
                  penalty = fmul (float_of_int (int (length softViolations))) (round64 (20 / 100));
                  finalScore = fsub baseScore penalty;
                  finalScore = (if flt finalScore (Fin 0) then Fin 0 else finalScore);
                  threshold = (if fle (ScoreThreshold pe) (Fin 0) then round64 (1 / 2) else ScoreThreshold pe)
              in if flt finalScore threshold then
                   Inr (buildNonConformingOutcome now1 now2 s0 nextLineage finalScore
                     (threshold_message finalScore threshold))
                 else Inr (buildConformingOutcome now1 now2 s0 x nextLineage finalScore softViolations))))"

text \<open>The effective score and threshold, and the hardness of a relation, as the policy reads them.\<close>

definition is_hard :: "PolicyEnvelope \<Rightarrow> AntiRelation \<Rightarrow> bool" where
  "is_hard pe rel \<longleftrightarrow> ar_Hard rel \<or> ar_Type rel \<in> set (HardInvariants pe)"

definition conformance_score :: "PolicyEnvelope \<Rightarrow> TransitionInput \<Rightarrow> ConformanceVector \<Rightarrow> float64" where
  "conformance_score pe x c = fmax (Fin 0) (fsub (computeBaseScore (Signals c))
     (fmul (float_of_int (int (length (filter (\<lambda>r. \<not> is_hard pe r) (in_AntiRelations x @ cv_AntiRelations c))))) (round64 (20 / 100))))"

definition effective_threshold :: "PolicyEnvelope \<Rightarrow> float64" where
  "effective_threshold pe = (if fle (ScoreThreshold pe) (Fin 0) then Fin (1 / 2) else ScoreThreshold pe)"


section \<open>The conformance score\<close>

text \<open>Both sums are numbers with the weighted one below the other, unless one of them is NaN.\<close>

definition sums_ok :: "float64 \<Rightarrow> float64 \<Rightarrow> bool" where
  "sums_ok tw ws \<longleftrightarrow> tw = NaN \<or> ws = NaN \<or> Fin 0 \<le> ws \<and> ws \<le> tw"

lemma fmul_share:
  assumes "Fin 0 \<le> s" "s \<le> Fin 1" "Fin 0 \<le> w" "binary64 w" "fmul s w \<noteq> NaN"
  shows "Fin 0 \<le> fmul s w \<and> fmul s w \<le> w"
proof -
  obtain p where s: "s = Fin p" "0 \<le> p" "p \<le> 1" using assms(1,2) by (cases s) auto
  show ?thesis
  proof (cases w)
    case (Fin q)
    then have q: "0 \<le> q" "round64 q = Fin q" using assms(3,4) by auto
    then have "p * q \<le> q" "0 \<le> p * q" using s by (simp_all add: mult_left_le_one_le)
    then show ?thesis using s Fin round_le [OF _ q(2), of "p * q"] round_ge [of 0 "p * q"] by simp
  next
    case PosInf
    then show ?thesis using s assms(5) by (auto simp: fmul_def finf_def split: if_splits)
  qed (use assms(3) in auto)
qed

lemma score_loop_ok:
  assumes "sums_ok tw ws" "\<forall>sig \<in> set sigs. binary64 (sig_Weight sig)"
  shows "sums_ok (fst (score_loop sigs tw ws)) (snd (score_loop sigs tw ws))"
  using assms
proof (induction sigs arbitrary: tw ws)
  case (Cons sig sigs)
  define w where "w = (if fle (sig_Weight sig) (Fin 0) then Fin 1 else sig_Weight sig)"
  define s where "s = (if flt (sig_Score sig) (Fin 0) then Fin 0 else if flt (Fin 1) (sig_Score sig) then Fin 1 else sig_Score sig)"
  have "sums_ok (fadd tw w) (fadd ws (fmul s w))"
  proof (cases "tw = NaN \<or> ws = NaN \<or> w = NaN \<or> fmul s w = NaN")
    case True
    then show ?thesis by (auto simp: sums_ok_def)
  next
    case False
    then have "sig_Score sig \<noteq> NaN" by (auto simp: s_def)
    then have "Fin 0 \<le> s" "s \<le> Fin 1" by (auto simp: s_def flt_def not_less split: if_splits)
    moreover have "Fin 0 \<le> w" "binary64 w" using False Cons.prems(2) by (cases "sig_Weight sig"; auto simp: w_def fle_def)+
    ultimately have "Fin 0 \<le> fmul s w" "fmul s w \<le> w" using fmul_share False by blast+
    moreover have "Fin 0 \<le> ws" "ws \<le> tw" using False Cons.prems(1) by (auto simp: sums_ok_def)
    ultimately show ?thesis using fadd_mono by (auto simp: sums_ok_def)
  qed
  from Cons.IH [OF this] Cons.prems(2) show ?case by (simp add: w_def s_def Let_def)
qed simp





text \<open>The score is a number when no signal is NaN and the weights do not overflow.\<close>

lemma score_loop_overflow: "tw = NaN \<or> tw = PosInf \<Longrightarrow> fst (score_loop sigs tw ws) \<in> {NaN, PosInf}"
proof (induction sigs arbitrary: tw ws)
  case (Cons sig sigs)
  define w where "w = (if fle (sig_Weight sig) (Fin 0) then Fin 1 else sig_Weight sig)"
  have "w \<noteq> NegInf" by (auto simp: w_def fle_def)
  then have "fadd tw w = NaN \<or> fadd tw w = PosInf" using Cons.prems by (auto simp: fadd_def)
  from Cons.IH [OF this] show ?case by (simp add: w_def Let_def)
qed simp

lemma score_loop_number:
  assumes "tw \<noteq> NaN" "ws \<noteq> NaN" "sums_ok tw ws" "fst (score_loop sigs tw ws) = Fin t"
    and "\<forall>sig \<in> set sigs. sig_Score sig \<noteq> NaN \<and> binary64 (sig_Weight sig)"
  shows "snd (score_loop sigs tw ws) \<noteq> NaN"
  using assms
proof (induction sigs arbitrary: tw ws)
  case (Cons sig sigs)
  define w where "w = (if fle (sig_Weight sig) (Fin 0) then Fin 1 else sig_Weight sig)"
  define s where "s = (if flt (sig_Score sig) (Fin 0) then Fin 0 else if flt (Fin 1) (sig_Score sig) then Fin 1 else sig_Score sig)"
  have l: "score_loop (sig # sigs) tw ws = score_loop sigs (fadd tw w) (fadd ws (fmul s w))" by (simp add: w_def s_def Let_def)
  have "fadd tw w \<noteq> NaN" "fadd tw w \<noteq> PosInf" using Cons.prems(4) score_loop_overflow [of "fadd tw w" sigs "fadd ws (fmul s w)"] unfolding l by auto
  then obtain q where w: "w = Fin q" using Cons.prems(1) by (cases w; cases tw) (auto simp: fadd_def w_def fle_def split: if_splits)
  have "sig_Score sig \<noteq> NaN" using Cons.prems(5) by simp
  then have "Fin 0 \<le> s" "s \<le> Fin 1" by (auto simp: s_def flt_def not_less split: if_splits)
  then obtain p where s: "s = Fin p" "0 \<le> p" "p \<le> 1" by (cases s) auto
  have m: "Fin 0 \<le> fmul s w" "fmul s w \<le> w" "Fin 0 \<le> ws" "ws \<le> tw"
    using fmul_share [of s w] s w Cons.prems(1-3,5) by (cases "sig_Weight sig"; auto simp: w_def fle_def sums_ok_def split: if_splits)+
  have a: "Fin 0 \<le> fadd ws (fmul s w)" "fadd ws (fmul s w) \<le> fadd tw w" using fadd_mono [OF m(3,4,1,2)] by simp_all
  show ?case unfolding l
    using Cons.prems(4,5) a \<open>fadd tw w \<noteq> NaN\<close> unfolding l
    by (intro Cons.IH) (auto simp: sums_ok_def)
qed simp

lemma computeBaseScore_number:
  assumes "\<forall>sig \<in> set sigs. sig_Score sig \<noteq> NaN \<and> binary64 (sig_Weight sig)" "fst (score_loop sigs (Fin 0) (Fin 0)) = Fin t"
  shows "computeBaseScore sigs \<noteq> NaN"
proof -
  obtain ws where l: "score_loop sigs (Fin 0) (Fin 0) = (Fin t, ws)" using assms(2) by (metis prod.collapse)
  have "sums_ok (Fin t) ws" using score_loop_ok [of "Fin 0" "Fin 0" sigs] assms(1) by (simp add: l sums_ok_def)
  moreover have "ws \<noteq> NaN" using score_loop_number [of "Fin 0" "Fin 0" sigs t] assms l by (simp add: sums_ok_def)
  ultimately obtain y where "ws = Fin y" by (cases ws) (auto simp: sums_ok_def)
  then show ?thesis by (simp add: computeBaseScore_def l)
qed

section \<open>The transition function\<close>

lemma classify_eq:
  "classifyAntiRelations pe rels = (filter (is_hard pe) rels, filter (\<lambda>r. \<not> is_hard pe r) rels)"
  by (simp add: classifyAntiRelations_def is_hard_def [abs_def] Let_def)

text \<open>The three outcomes, over the score and the threshold that the policy reads.\<close>

lemma Transition_sv_cases:
  fixes x :: TransitionInput and c :: ConformanceVector
  assumes "EntityID pe = Entity s0" "Validate_sv s0 = None"
  defines "rels \<equiv> in_AntiRelations x @ cv_AntiRelations c"
    and "l \<equiv> Advance (sv_Lineage s0) (if in_Digest x = '''' then in_Action x else in_Digest x)"
  shows "Transition_sv n1 n2 pe s0 x c = Inr
    (if filter (is_hard pe) rels \<noteq> [] then buildDominatedOutcome n1 n2 s0 l (filter (is_hard pe) rels)
     else if flt (conformance_score pe x c) (effective_threshold pe) then
       buildNonConformingOutcome n1 n2 s0 l (conformance_score pe x c)
         (threshold_message (conformance_score pe x c) (effective_threshold pe))
     else buildConformingOutcome n1 n2 s0 x l (conformance_score pe x c)
       (filter (\<lambda>r. \<not> is_hard pe r) rels))"
proof -
  have ne: "Entity s0 \<noteq> ''''" using assms(1,2) by (auto simp: Validate_sv_def split: if_splits)
  have score: "(if flt d (Fin 0) then Fin 0 else d) = fmax (Fin 0) d" for d
    by (cases d) (auto simp: flt_def fmax_def max_def)
  show ?thesis
    unfolding Transition_sv_def Let_def classify_eq prod.case score literals
    by (simp only: if_not_P [OF ne] assms(1,2) option.case simp_thms if_False conformance_score_def literals effective_threshold_def rels_def l_def if_distrib [of Inr])
qed


lemmas outcome_defs = buildDominatedOutcome_def buildNonConformingOutcome_def
  buildConformingOutcome_def applyAntiInvariantDominance_def Let_def




section \<open>Properties\<close>



section \<open>Witnesses\<close>

definition sample_vector :: StateVector_sv where
  "sample_vector = \<lparr>Entity = ''m'', Tau = 4, sv_Presence = PresencePresent,
     sv_Valence = ValenceNeutral, sv_Coherence = CoherencePartial, sv_Evidence = EvidenceUnverified,
     sv_Lineage = \<lparr>ParentID = '''', ChainDigest = '''', Depth = 0\<rparr>\<rparr>"

definition sample_policy :: PolicyEnvelope where
  "sample_policy = \<lparr>EntityID = ''m'', ScoreThreshold = Fin (3 / 4), HardInvariants = [AntiRelationInvalidates]\<rparr>"


definition sample_input :: "AntiRelation list \<Rightarrow> TransitionInput" where
  "sample_input rels = \<lparr>in_Action = ''promote'', in_Digest = '''', in_TargetState = None,
     in_AntiRelations = rels\<rparr>"

definition sample_context :: ConformanceVector where
  "sample_context = \<lparr>Signals = [\<lparr>sig_Name = ''s'', sig_Score = Fin 1, sig_Weight = Fin 1\<rparr>],
     cv_AntiRelations = [], cv_Metadata = Map.empty\<rparr>"




text \<open>A signal that is not a number makes the score NaN, and no threshold refuses it.\<close>

lemma nan_signal_accepted:
  "\<exists>r. Transition_sv 1 2 sample_policy sample_vector (sample_input [])
      (sample_context\<lparr>Signals := [\<lparr>sig_Name = ''s'', sig_Score = NaN, sig_Weight = Fin 1\<rparr>]\<rparr>) = Inr r \<and>
    tr_Decision r = DecisionAccept \<and> rs_Score (tr_Residual r) = NaN"
proof -
  let ?c = "sample_context\<lparr>Signals := [\<lparr>sig_Name = ''s'', sig_Score = NaN, sig_Weight = Fin 1\<rparr>]\<rparr>"
  have v: "EntityID sample_policy = Entity sample_vector" "Validate_sv sample_vector = None"
    by (simp_all add: sample_policy_def sample_vector_def Validate_sv_def)
  have "conformance_score sample_policy (sample_input []) ?c = NaN"
    by (simp add: conformance_score_def computeBaseScore_def fmax_def)
  moreover have "filter (is_hard sample_policy) (in_AntiRelations (sample_input []) @ cv_AntiRelations ?c) = []"
    by (simp add: sample_input_def sample_context_def)
  ultimately show ?thesis using Transition_sv_cases [OF v, of 1 2 "sample_input []" ?c] by (simp add: outcome_defs)
qed

end
