(* ===== verification/Kvstate.thy ===== *)
theory Kvstate
  imports Sha256
begin

text \<open>
  The KV-cache fabric, \<open>src/internal/kernel/kvstate/cache_fabric.go\<close>: cache identities and
  their digests, the state vector of an entry, and the operations of \<open>CacheFabric\<close>. Each
  operation runs under the fabric's mutex, so it is one step on the map of entries;
  \<open>PrefixLookup\<close> takes the mutex once per chunk, and its model is a run of it that no other
  goroutine interrupts. The lemmas show that a lookup never serves the state of another identity, that the fabric implements a
  store keyed by identity, and that a prefix lookup returns the longest reusable prefix.
\<close>

section \<open>Data\<close>

datatype ResidencyTier = TierGPU | TierHostCPU | TierLocalDisk | TierRemote | TierEvicted
  | TierCold | TierOther string

datatype LifecycleState = LifecycleUnallocated | LifecycleAllocating | LifecycleActive
  | LifecycleDraining | LifecycleEvicted | LifecycleQuarantined | LifecycleOther string

datatype TransferPhase = TransferPhaseIdle | TransferPhaseInitiated | TransferPhaseInFlight
  | TransferPhaseCompleted | TransferPhaseFailed | TransferPhaseCancelled | TransferPhaseOther string

datatype AffinityPosture = AffinityNone | AffinitySoft | AffinityStrict | AffinityOrphaned
  | AffinityOther string

datatype IsolationPosture = IsolationTenantStrict | IsolationPartitionStrict
  | IsolationSharedPreamble | IsolationPostureOther string

datatype IntegrityPosture = IntegrityUnverified | IntegrityVerified | IntegrityCorrupted
  | IntegrityOther string

datatype ReuseDisposition = ReuseHit | ReuseMiss | ReusePartialHit | ReuseDeniedTenantMismatch
  | ReuseDeniedAdapterMismatch | ReuseDeniedTokenizerMismatch | ReuseDeniedPartitionMismatch
  | ReuseDeniedExpired | ReuseDeniedQuarantined | ReuseDeniedCorrupted | ReuseDeniedNotActive

text \<open>The sentinels; \<open>ErrMarshal\<close> is the error of \<open>json.Marshal\<close>, which \<open>RecordReuseEvidence\<close> wraps.\<close>

datatype kvstate_error = ErrInvalidIdentity | ErrTenantIsolationBreach | ErrAdapterMismatch
  | ErrTokenizerMismatch | ErrPartitionMismatch | ErrStateConflict | ErrEntryNotFound
  | ErrInvalidTierTransition | ErrTransferFailed | ErrTransferTimeout | ErrIntegrityViolation
  | ErrMarshal

record StateVector_kv =
  kv_Residency :: ResidencyTier
  kv_Lifecycle :: LifecycleState
  kv_Transfer :: TransferPhase
  kv_Affinity :: AffinityPosture
  kv_Isolation :: IsolationPosture
  kv_Integrity :: IntegrityPosture

record CacheIdentity =
  TenantID :: string
  PartitionID :: string
  ModelID :: string
  AdapterID :: string
  TokenizerID :: string
  PrefixHash :: string
  ChunkIndex :: int

record CacheEntry =
  ce_Identity :: CacheIdentity
  ce_Vector :: StateVector_kv
  NodeAffinity :: string
  ce_Tokens :: int
  SizeBytes :: int
  ce_CreatedAt :: gotime
  LastAccessed :: gotime
  ExpiresAt :: gotime
  AccessCount :: int

record PrefixMatchResult =
  MatchedChunks :: int
  TotalRequestedChunks :: int
  MatchedTokens :: int
  BestTier :: ResidencyTier
  Entries :: "CacheEntry list"
  pm_Disposition :: ReuseDisposition

record evidenceClaims =
  ec_EvidenceID :: string
  ec_IdentityURN :: string
  ec_SubjectDigest :: string
  ec_Disposition :: ReuseDisposition
  ec_StateVector :: StateVector_kv
  ec_TokensSaved :: int
  ec_LatencyMs :: int
  ec_RecordedAt :: string

record ReuseEvidence = evidenceClaims +
  re_Digest :: string

type_synonym CacheFabric = "string \<rightharpoonup> CacheEntry"

definition zeroEntry :: CacheEntry where
  "zeroEntry = \<lparr>ce_Identity = \<lparr>TenantID = '''', PartitionID = '''', ModelID = '''', AdapterID = '''',
       TokenizerID = '''', PrefixHash = '''', ChunkIndex = 0\<rparr>,
     ce_Vector = \<lparr>kv_Residency = TierOther '''', kv_Lifecycle = LifecycleOther '''',
       kv_Transfer = TransferPhaseOther '''', kv_Affinity = AffinityOther '''',
       kv_Isolation = IsolationPostureOther '''', kv_Integrity = IntegrityOther ''''\<rparr>,
     NodeAffinity = '''', ce_Tokens = 0, SizeBytes = 0, ce_CreatedAt = 0, LastAccessed = 0,
     ExpiresAt = 0, AccessCount = 0\<rparr>"

section \<open>Operations\<close>

definition EvaluateReuse :: "StateVector_kv \<Rightarrow> gotime \<Rightarrow> gotime \<Rightarrow> ReuseDisposition" where
  "EvaluateReuse v now expiresAt =
     (if kv_Lifecycle v = LifecycleQuarantined then ReuseDeniedQuarantined
      else if kv_Integrity v = IntegrityCorrupted then ReuseDeniedCorrupted
      else if \<not> IsZero expiresAt \<and> \<not> now < expiresAt then ReuseDeniedExpired
      else if kv_Lifecycle v = LifecycleEvicted \<or> kv_Residency v = TierEvicted \<or> kv_Residency v = TierCold
      then ReuseMiss
      else if kv_Lifecycle v \<noteq> LifecycleActive then ReuseDeniedNotActive
      else if kv_Residency v \<in> {TierGPU, TierHostCPU, TierLocalDisk, TierRemote} then ReuseHit
      else ReuseMiss)"

definition Validate_id :: "CacheIdentity \<Rightarrow> kvstate_error option" where
  "Validate_id i =
     (if blank (TenantID i) \<or> blank (PartitionID i) then Some ErrInvalidIdentity
      else if blank (ModelID i) \<or> blank (TokenizerID i) then Some ErrInvalidIdentity
      else if blank (PrefixHash i) \<or> ChunkIndex i < 0 then Some ErrInvalidIdentity
      else None)"

definition URN :: "CacheIdentity \<Rightarrow> string" where
  "URN i = ''urn:ckodex:kv:'' @ TenantID i @ '':'' @ PartitionID i @ '':'' @ ModelID i @ '':'' @
     AdapterID i @ '':'' @ TokenizerID i @ '':'' @ show_int (ChunkIndex i) @ '':'' @ PrefixHash i"

definition digest_parts :: "CacheIdentity \<Rightarrow> string list" where
  "digest_parts i = [TenantID i, PartitionID i, ModelID i, AdapterID i, TokenizerID i,
     show_int (ChunkIndex i), PrefixHash i]"

definition Digest :: "CacheIdentity \<Rightarrow> string" where
  "Digest i = ''sha256:'' @ sha256_hex (concat (map (\<lambda>p. p @ [char_of (0::nat)]) (digest_parts i)))"

definition CheckCompatibility :: "CacheIdentity \<Rightarrow> CacheIdentity \<Rightarrow> ReuseDisposition" where
  "CheckCompatibility i query =
     (if TenantID i \<noteq> TenantID query then ReuseDeniedTenantMismatch
      else if PartitionID i \<noteq> PartitionID query then ReuseDeniedPartitionMismatch
      else if ModelID i \<noteq> ModelID query \<or> AdapterID i \<noteq> AdapterID query then ReuseDeniedAdapterMismatch
      else if TokenizerID i \<noteq> TokenizerID query then ReuseDeniedTokenizerMismatch
      else if ChunkIndex i \<noteq> ChunkIndex query \<or> PrefixHash i \<noteq> PrefixHash query then ReuseMiss
      else ReuseHit)"

definition NewCacheFabric :: CacheFabric where
  "NewCacheFabric = Map.empty"

definition Insert :: "CacheFabric \<Rightarrow> CacheEntry \<Rightarrow> (CacheFabric, kvstate_error) result" where
  "Insert f entry = (case Validate_id (ce_Identity entry) of
       Some e \<Rightarrow> (f, Some e)
     | None \<Rightarrow> (f(Digest (ce_Identity entry) \<mapsto> entry), None))"

definition Lookup :: "CacheFabric \<Rightarrow> CacheIdentity \<Rightarrow> gotime
    \<Rightarrow> CacheFabric \<times> CacheEntry \<times> ReuseDisposition \<times> kvstate_error option" where
  "Lookup f query now = (case Validate_id query of
       Some e \<Rightarrow> (f, zeroEntry, ReuseMiss, Some e)
     | None \<Rightarrow>
       (case f (Digest query) of
          None \<Rightarrow> (f, zeroEntry, ReuseMiss, None)
        | Some entry \<Rightarrow>
           (let disp = CheckCompatibility (ce_Identity entry) query in
            if disp \<noteq> ReuseHit then (f, zeroEntry, disp, None)
            else
             (let disp = EvaluateReuse (ce_Vector entry) now (ExpiresAt entry) in
              if disp = ReuseHit then
                (let entry' = entry\<lparr>AccessCount := wrap64 (AccessCount entry + 1), LastAccessed := now\<rparr>
                 in (f(Digest query \<mapsto> entry'), entry', disp, None))
              else (f, entry, disp, None)))))"

definition tier_rank :: "ResidencyTier \<Rightarrow> int" where
  "tier_rank t = (case t of TierGPU \<Rightarrow> 4 | TierHostCPU \<Rightarrow> 3 | TierLocalDisk \<Rightarrow> 2 | TierRemote \<Rightarrow> 1
     | TierEvicted \<Rightarrow> 0 | TierCold \<Rightarrow> 0 | TierOther _ \<Rightarrow> 0)"

definition selectBestTier :: "ResidencyTier \<Rightarrow> ResidencyTier \<Rightarrow> ResidencyTier" where
  "selectBestTier cur nxt = (if tier_rank nxt > tier_rank cur then nxt else cur)"

text \<open>The loop of \<open>PrefixLookup\<close>, from chunk \<open>i\<close> on.\<close>

fun prefix_loop :: "CacheIdentity \<Rightarrow> gotime \<Rightarrow> nat \<Rightarrow> string list \<Rightarrow> CacheFabric \<Rightarrow> PrefixMatchResult
    \<Rightarrow> CacheFabric \<times> PrefixMatchResult" where
  "prefix_loop base now i [] f res = (f, res)"
| "prefix_loop base now i (ph # hashes) f res =
     (let chunkID = base\<lparr>ChunkIndex := int i, PrefixHash := ph\<rparr>;
          (f', entry, disp, err) = Lookup f chunkID now
      in if err \<noteq> None \<or> disp \<noteq> ReuseHit then (f', res)
         else prefix_loop base now (Suc i) hashes f'
           (res\<lparr>MatchedChunks := MatchedChunks res + 1,
                MatchedTokens := wrap64 (MatchedTokens res + ce_Tokens entry),
                Entries := Entries res @ [entry],
                BestTier := selectBestTier (BestTier res) (kv_Residency (ce_Vector entry))\<rparr>))"

definition PrefixLookup :: "CacheFabric \<Rightarrow> CacheIdentity \<Rightarrow> string list \<Rightarrow> gotime
    \<Rightarrow> CacheFabric \<times> PrefixMatchResult" where
  "PrefixLookup f base hashes now =
     (let (f', res) = prefix_loop base now 0 hashes f
            \<lparr>MatchedChunks = 0, TotalRequestedChunks = int (length hashes), MatchedTokens = 0,
             BestTier = TierOther '''', Entries = [], pm_Disposition = ReuseMiss\<rparr>
      in if MatchedChunks res = TotalRequestedChunks res \<and> TotalRequestedChunks res > 0
         then (f', res\<lparr>pm_Disposition := ReuseHit\<rparr>)
         else if MatchedChunks res > 0 then (f', res\<lparr>pm_Disposition := ReusePartialHit\<rparr>)
         else (f', res))"

definition Promote :: "CacheFabric \<Rightarrow> CacheIdentity \<Rightarrow> ResidencyTier \<Rightarrow> (CacheFabric, kvstate_error) result" where
  "Promote f i tgt = (case f (Digest i) of
       None \<Rightarrow> (f, Some ErrEntryNotFound)
     | Some entry \<Rightarrow>
        if kv_Lifecycle (ce_Vector entry) \<noteq> LifecycleActive then (f, Some ErrInvalidTierTransition)
        else (f(Digest i \<mapsto> entry\<lparr>ce_Vector := (ce_Vector entry)\<lparr>kv_Residency := tgt\<rparr>\<rparr>), None))"

definition Demote :: "CacheFabric \<Rightarrow> CacheIdentity \<Rightarrow> ResidencyTier \<Rightarrow> (CacheFabric, kvstate_error) result" where
  "Demote f i tgt = (case f (Digest i) of
       None \<Rightarrow> (f, Some ErrEntryNotFound)
     | Some entry \<Rightarrow> (f(Digest i \<mapsto> entry\<lparr>ce_Vector := (ce_Vector entry)\<lparr>kv_Residency := tgt\<rparr>\<rparr>), None))"

definition evicted_entry :: "CacheEntry \<Rightarrow> CacheEntry" where
  "evicted_entry entry = entry\<lparr>ce_Vector := (ce_Vector entry)\<lparr>kv_Residency := TierEvicted,
     kv_Lifecycle := LifecycleEvicted\<rparr>\<rparr>"

definition Evict :: "CacheFabric \<Rightarrow> CacheIdentity \<Rightarrow> (CacheFabric, kvstate_error) result" where
  "Evict f i = (case f (Digest i) of
       None \<Rightarrow> (f, Some ErrEntryNotFound)
     | Some entry \<Rightarrow> (f(Digest i \<mapsto> evicted_entry entry), None))"

definition expired :: "gotime \<Rightarrow> CacheEntry \<Rightarrow> bool" where
  "expired now entry \<longleftrightarrow> \<not> IsZero (ExpiresAt entry) \<and> \<not> now < ExpiresAt entry \<and>
     kv_Lifecycle (ce_Vector entry) \<noteq> LifecycleEvicted"

text \<open>
  The loop of \<open>EvictExpired\<close> over the keys in the order \<open>ks\<close> the runtime chose. The final sort is
  \<open>sort.Slice\<close> by URN; it is modelled by a stable sort, the order of equal URNs being unspecified.
\<close>

fun evict_loop :: "gotime \<Rightarrow> string list \<Rightarrow> CacheFabric \<Rightarrow> CacheIdentity list
    \<Rightarrow> CacheFabric \<times> CacheIdentity list" where
  "evict_loop now [] f evicted = (f, evicted)"
| "evict_loop now (d # ks) f evicted = (case f d of
       None \<Rightarrow> evict_loop now ks f evicted
     | Some entry \<Rightarrow>
        if expired now entry
        then evict_loop now ks (f(d \<mapsto> evicted_entry entry)) (evicted @ [ce_Identity entry])
        else evict_loop now ks f evicted)"

definition EvictExpired :: "string list \<Rightarrow> CacheFabric \<Rightarrow> gotime \<Rightarrow> CacheFabric \<times> CacheIdentity list" where
  "EvictExpired ks f now = (let (f', evicted) = evict_loop now ks f [] in (f', sort_key URN evicted))"

text \<open>
  \<open>RecordReuseEvidence\<close>; the encoders \<open>time.Format(RFC3339Nano)\<close> and \<open>json.Marshal\<close> are the
  arguments \<open>format_time\<close> and \<open>marshal\<close> (\<open>None\<close> where \<open>Marshal\<close> returns an error).
\<close>

definition RecordReuseEvidence ::
  "(gotime \<Rightarrow> string) \<Rightarrow> (evidenceClaims \<Rightarrow> string option) \<Rightarrow> CacheIdentity \<Rightarrow> ReuseDisposition \<Rightarrow>
   StateVector_kv \<Rightarrow> int \<Rightarrow> int \<Rightarrow> gotime \<Rightarrow> kvstate_error + ReuseEvidence" where
  "RecordReuseEvidence format_time marshal i disp vec tokensSaved latencySavedMs now =
     (case Validate_id i of
        Some e \<Rightarrow> Inl e
      | None \<Rightarrow>
         (let claims = \<lparr>ec_EvidenceID = ''ev-'' @ show_int (unix_nano now), ec_IdentityURN = URN i,
                ec_SubjectDigest = Digest i, ec_Disposition = disp, ec_StateVector = vec,
                ec_TokensSaved = tokensSaved, ec_LatencyMs = latencySavedMs,
                ec_RecordedAt = format_time now\<rparr>
          in case marshal claims of
               None \<Rightarrow> Inl ErrMarshal
             | Some raw \<Rightarrow> Inr (evidenceClaims.extend claims \<lparr>re_Digest = ''sha256:'' @ sha256_hex raw\<rparr>)))"

section \<open>Invariant and abstract view\<close>

text \<open>Every entry is stored under the digest of its own, valid identity.\<close>

definition fabric_inv :: "CacheFabric \<Rightarrow> bool" where
  "fabric_inv f \<longleftrightarrow> (\<forall>d e. f d = Some e \<longrightarrow> d = Digest (ce_Identity e) \<and> Validate_id (ce_Identity e) = None)"

text \<open>The abstract store: the entry of an identity, whatever digests collide.\<close>

definition view :: "CacheFabric \<Rightarrow> CacheIdentity \<Rightarrow> CacheEntry option" where
  "view f i = (case f (Digest i) of None \<Rightarrow> None
     | Some e \<Rightarrow> if ce_Identity e = i then Some e else None)"

definition hits :: "CacheFabric \<Rightarrow> CacheIdentity \<Rightarrow> gotime \<Rightarrow> bool" where
  "hits f i now \<longleftrightarrow> Validate_id i = None \<and>
     (case view f i of None \<Rightarrow> False | Some e \<Rightarrow> EvaluateReuse (ce_Vector e) now (ExpiresAt e) = ReuseHit)"

definition chunk :: "CacheIdentity \<Rightarrow> nat \<times> string \<Rightarrow> CacheIdentity" where
  "chunk base ih = base\<lparr>ChunkIndex := int (fst ih), PrefixHash := snd ih\<rparr>"

text \<open>The operations of the fabric as events, for the invariant over every history.\<close>

datatype fabric_op = OpInsert CacheEntry | OpLookup CacheIdentity gotime
  | OpPrefix CacheIdentity "string list" gotime | OpPromote CacheIdentity ResidencyTier
  | OpDemote CacheIdentity ResidencyTier | OpEvict CacheIdentity | OpEvictExpired "string list" gotime

fun fabric_step :: "CacheFabric \<Rightarrow> fabric_op \<Rightarrow> CacheFabric" where
  "fabric_step f (OpInsert e) = fst (Insert f e)"
| "fabric_step f (OpLookup i now) = fst (Lookup f i now)"
| "fabric_step f (OpPrefix b hs now) = fst (PrefixLookup f b hs now)"
| "fabric_step f (OpPromote i t) = fst (Promote f i t)"
| "fabric_step f (OpDemote i t) = fst (Demote f i t)"
| "fabric_step f (OpEvict i) = fst (Evict f i)"
| "fabric_step f (OpEvictExpired ks now) = fst (EvictExpired ks f now)"

definition fabric_run :: "CacheFabric \<Rightarrow> fabric_op list \<Rightarrow> CacheFabric" where
  "fabric_run = foldl fabric_step"

text \<open>What a lookup may not change: everything but the access statistics.\<close>

definition core :: "CacheEntry \<Rightarrow> CacheEntry" where
  "core e = e\<lparr>AccessCount := 0, LastAccessed := 0\<rparr>"

definition fabric_core :: "CacheFabric \<Rightarrow> CacheFabric" where
  "fabric_core f = (\<lambda>d. map_option core (f d))"

text \<open>What no operation but an insertion changes of an entry.\<close>

definition descends :: "CacheEntry \<Rightarrow> CacheEntry \<Rightarrow> bool" where
  "descends e e' \<longleftrightarrow> ce_Identity e' = ce_Identity e \<and> ExpiresAt e' = ExpiresAt e \<and>
     ce_Tokens e' = ce_Tokens e \<and> kv_Integrity (ce_Vector e') = kv_Integrity (ce_Vector e) \<and>
     kv_Lifecycle (ce_Vector e') \<in> {kv_Lifecycle (ce_Vector e), LifecycleEvicted}"

text \<open>A reusable entry, for the witnesses.\<close>

definition sample_id :: CacheIdentity where
  "sample_id = \<lparr>TenantID = ''t'', PartitionID = ''p'', ModelID = ''m'', AdapterID = '''',
     TokenizerID = ''k'', PrefixHash = ''h'', ChunkIndex = 0\<rparr>"

definition sample_entry :: CacheEntry where
  "sample_entry = zeroEntry\<lparr>ce_Identity := sample_id, ce_Tokens := 16, ExpiresAt := 100,
     ce_Vector := (ce_Vector zeroEntry)\<lparr>kv_Residency := TierGPU, kv_Lifecycle := LifecycleActive,
       kv_Integrity := IntegrityVerified\<rparr>\<rparr>"

section \<open>Identities and reuse\<close>

lemma CheckCompatibility_hit: "CheckCompatibility i q = ReuseHit \<longleftrightarrow> i = q"
  by (cases i; cases q) (auto simp: CheckCompatibility_def)

lemma EvaluateReuse_hit:
  "EvaluateReuse v now ex = ReuseHit \<longleftrightarrow>
     kv_Lifecycle v = LifecycleActive \<and> kv_Integrity v \<noteq> IntegrityCorrupted \<and>
     (ex = 0 \<or> now < ex) \<and> kv_Residency v \<in> {TierGPU, TierHostCPU, TierLocalDisk, TierRemote}"
  by (auto simp: EvaluateReuse_def)

lemma core_simps [simp]:
  "ce_Identity (core e) = ce_Identity e" "ce_Vector (core e) = ce_Vector e"
  "ExpiresAt (core e) = ExpiresAt e" "ce_Tokens (core e) = ce_Tokens e"
  "core (e\<lparr>AccessCount := n, LastAccessed := t\<rparr>) = core e"
  by (simp_all add: core_def)

lemma view_Some: "view f i = Some e \<longleftrightarrow> f (Digest i) = Some e \<and> ce_Identity e = i"
  by (auto simp: view_def split: option.splits)

lemma view_core: "view (fabric_core f) i = map_option core (view f i)"
  by (auto simp: view_def fabric_core_def split: option.splits)

lemma hits_core: "hits (fabric_core f) i now = hits f i now"
  by (auto simp: hits_def view_core split: option.splits)

lemma hits_cong: "fabric_core f = fabric_core g \<Longrightarrow> hits f i now = hits g i now"
  by (metis hits_core)

section \<open>Lookup\<close>

lemma Lookup_hit:
  assumes "hits f q now"
  obtains e where "view f q = Some e" and "EvaluateReuse (ce_Vector e) now (ExpiresAt e) = ReuseHit"
    and "Lookup f q now =
      (let e' = e\<lparr>AccessCount := wrap64 (AccessCount e + 1), LastAccessed := now\<rparr>
       in (f(Digest q \<mapsto> e'), e', ReuseHit, None))"
proof -
  from assms obtain e where e: "view f q = Some e" "Validate_id q = None"
      "EvaluateReuse (ce_Vector e) now (ExpiresAt e) = ReuseHit"
    by (auto simp: hits_def split: option.splits)
  then show ?thesis
    using that by (simp add: view_Some Lookup_def CheckCompatibility_hit Let_def)
qed

lemma Lookup_no_hit:
  assumes "\<not> hits f q now"
  shows "fst (Lookup f q now) = f \<and>
    (snd (snd (snd (Lookup f q now))) \<noteq> None \<or> fst (snd (snd (Lookup f q now))) \<noteq> ReuseHit)"
  using assms
  by (auto simp: Lookup_def Let_def hits_def view_def CheckCompatibility_hit split: option.splits)

lemma Lookup_core: "fabric_core (fst (Lookup f q now)) = fabric_core f"
proof (cases "hits f q now")
  case True
  then obtain e where "view f q = Some e" and "fst (Lookup f q now) =
      f(Digest q \<mapsto> e\<lparr>AccessCount := wrap64 (AccessCount e + 1), LastAccessed := now\<rparr>)"
    by (elim Lookup_hit) (simp add: Let_def)
  then show ?thesis by (auto simp: fabric_core_def view_Some)
next
  case False
  then show ?thesis by (simp add: Lookup_no_hit)
qed

section \<open>Prefix lookup\<close>

lemma wrap64_add: "wrap64 (wrap64 a + b) = wrap64 (a + b)"
proof -
  have "((a + 2 ^ 63) mod 2 ^ 64 + b) mod 2 ^ 64 = (a + 2 ^ 63 + b) mod (2 ^ 64 :: int)"
    by (rule mod_add_left_eq)
  then show ?thesis by (simp add: wrap64_def algebra_simps)
qed

lemma selectBestTier_rank:
  "tier_rank (selectBestTier a b) = max (tier_rank a) (tier_rank b)"
  by (simp add: selectBestTier_def)

lemma prefix_loop_hit:
  assumes "hits f (base\<lparr>ChunkIndex := int i, PrefixHash := h\<rparr>) now"
  obtains e f' where "view f (base\<lparr>ChunkIndex := int i, PrefixHash := h\<rparr>) = Some e"
    and "fabric_core f' = fabric_core f"
    and "prefix_loop base now i (h # hs) f res = prefix_loop base now (Suc i) hs f'
      (res\<lparr>MatchedChunks := MatchedChunks res + 1,
           MatchedTokens := wrap64 (MatchedTokens res + ce_Tokens e),
           Entries := Entries res @ [e\<lparr>AccessCount := wrap64 (AccessCount e + 1), LastAccessed := now\<rparr>],
           BestTier := selectBestTier (BestTier res) (kv_Residency (ce_Vector e))\<rparr>)"
proof -
  let ?q = "base\<lparr>ChunkIndex := int i, PrefixHash := h\<rparr>"
  from assms obtain e where e: "view f ?q = Some e" "Lookup f ?q now =
      (let e' = e\<lparr>AccessCount := wrap64 (AccessCount e + 1), LastAccessed := now\<rparr>
       in (f(Digest ?q \<mapsto> e'), e', ReuseHit, None))"
    by (rule Lookup_hit)
  show ?thesis
    by (rule that [OF e(1) Lookup_core [of f ?q now]]) (simp add: e(2) Let_def)
qed

lemma prefix_loop_stop:
  assumes "\<not> hits f (base\<lparr>ChunkIndex := int i, PrefixHash := h\<rparr>) now"
  shows "prefix_loop base now i (h # hs) f res = (f, res)"
  using Lookup_no_hit [OF assms] by (auto simp: Let_def split: prod.splits)

lemma prefix_loop_spec:
  assumes "prefix_loop base now i hs f res = (f', res')"
  defines "found \<equiv> takeWhile (\<lambda>c. hits f c now) (map (chunk base) (enumerate i hs))"
  shows "fabric_core f' = fabric_core f \<and>
    MatchedChunks res' = MatchedChunks res + int (length found) \<and>
    TotalRequestedChunks res' = TotalRequestedChunks res \<and>
    pm_Disposition res' = pm_Disposition res \<and>
    (\<exists>es. Entries res' = Entries res @ es \<and> map (Some \<circ> core) es = map (map_option core \<circ> view f) found \<and>
       map ce_Identity es = found \<and>
       MatchedTokens res' = (if es = [] then MatchedTokens res
          else wrap64 (MatchedTokens res + sum_list (map ce_Tokens es))) \<and>
       tier_rank (BestTier res') =
         Max (insert (tier_rank (BestTier res)) (tier_rank ` (\<lambda>e. kv_Residency (ce_Vector e)) ` set es)))"
  using assms(1) unfolding found_def
proof (induction hs arbitrary: i f res)
  case Nil
  then show ?case by simp
next
  case (Cons h hs)
  let ?q = "base\<lparr>ChunkIndex := int i, PrefixHash := h\<rparr>"
  show ?case
  proof (cases "hits f ?q now")
    case False
    with Cons.prems show ?thesis
      by (simp add: prefix_loop_stop chunk_def del: prefix_loop.simps)
  next
    case True
    then obtain e g where e: "view f ?q = Some e" and core: "fabric_core g = fabric_core f"
      and step: "prefix_loop base now i (h # hs) f res = prefix_loop base now (Suc i) hs g
        (res\<lparr>MatchedChunks := MatchedChunks res + 1,
             MatchedTokens := wrap64 (MatchedTokens res + ce_Tokens e),
             Entries := Entries res @ [e\<lparr>AccessCount := wrap64 (AccessCount e + 1), LastAccessed := now\<rparr>],
             BestTier := selectBestTier (BestTier res) (kv_Residency (ce_Vector e))\<rparr>)"
      by (rule prefix_loop_hit)
    have views: "map_option core (view g c) = map_option core (view f c)" for c
      by (metis view_core core)
    have h: "hits g c now = hits f c now" for c by (rule hits_cong [OF core])
    let ?e = "e\<lparr>AccessCount := wrap64 (AccessCount e + 1), LastAccessed := now\<rparr>"
    from Cons.IH [OF step [symmetric, THEN trans, OF Cons.prems]] obtain es where
      IH: "fabric_core f' = fabric_core g"
        "MatchedChunks res' = MatchedChunks res + 1 +
           int (length (takeWhile (\<lambda>c. hits f c now) (map (chunk base) (enumerate (Suc i) hs))))"
        "TotalRequestedChunks res' = TotalRequestedChunks res"
        "pm_Disposition res' = pm_Disposition res"
        "Entries res' = (Entries res @ [?e]) @ es"
        "map (Some \<circ> core) es = map (map_option core \<circ> view f)
           (takeWhile (\<lambda>c. hits f c now) (map (chunk base) (enumerate (Suc i) hs)))"
        "map ce_Identity es = takeWhile (\<lambda>c. hits f c now) (map (chunk base) (enumerate (Suc i) hs))"
        "MatchedTokens res' = (if es = [] then wrap64 (MatchedTokens res + ce_Tokens e)
           else wrap64 (wrap64 (MatchedTokens res + ce_Tokens e) + sum_list (map ce_Tokens es)))"
        "tier_rank (BestTier res') = Max (insert (tier_rank (selectBestTier (BestTier res) (kv_Residency (ce_Vector e))))
           (tier_rank ` (\<lambda>e. kv_Residency (ce_Vector e)) ` set es))"
      by (auto simp: h views comp_def)
    have id: "ce_Identity e = ?q" using e by (simp add: view_Some)
    have tok: "MatchedTokens res' = wrap64 (MatchedTokens res + sum_list (map ce_Tokens (?e # es)))"
      using IH(8) by (simp add: wrap64_add add.assoc split: if_splits)
    have tier: "tier_rank (BestTier res') = Max (insert (tier_rank (BestTier res))
        (tier_rank ` (\<lambda>e. kv_Residency (ce_Vector e)) ` set (?e # es)))"
      unfolding IH(9) selectBestTier_rank by (cases "es = []") (simp_all add: max.left_commute max.commute)
    have q: "chunk base (i, h) = ?q" by (simp add: chunk_def)
    show ?thesis
      using IH(1-7) core True e id tok tier
      by (intro conjI exI [of _ "?e # es"]) (simp_all add: q comp_def)
  qed
qed

lemma PrefixLookup_spec:
  fixes f :: CacheFabric and base :: CacheIdentity and hashes :: "string list" and now :: gotime
  defines "found \<equiv> takeWhile (\<lambda>c. hits f c now) (map (chunk base) (enumerate 0 hashes))"
  obtains f' res es where "PrefixLookup f base hashes now = (f', res)" and "fabric_core f' = fabric_core f"
    and "MatchedChunks res = int (length found)" and "TotalRequestedChunks res = int (length hashes)"
    and "Entries res = es" and "map ce_Identity es = found"
    and "map (Some \<circ> core) es = map (map_option core \<circ> view f) found"
    and "MatchedTokens res = wrap64 (sum_list (map ce_Tokens es))"
    and "tier_rank (BestTier res) =
         Max (insert 0 (tier_rank ` (\<lambda>e. kv_Residency (ce_Vector e)) ` set es))"
    and "pm_Disposition res =
       (if found = [] then ReuseMiss else if length found = length hashes then ReuseHit else ReusePartialHit)"
proof -
  let ?r = "\<lparr>MatchedChunks = 0, TotalRequestedChunks = int (length hashes), MatchedTokens = 0,
             BestTier = TierOther '''', Entries = [], pm_Disposition = ReuseMiss\<rparr>"
  obtain f' res where run: "prefix_loop base now 0 hashes f ?r = (f', res)" by fastforce
  from prefix_loop_spec [OF this] obtain es where spec: "fabric_core f' = fabric_core f"
      "MatchedChunks res = int (length found)" "TotalRequestedChunks res = int (length hashes)"
      "pm_Disposition res = ReuseMiss" "Entries res = es" "map ce_Identity es = found"
      "map (Some \<circ> core) es = map (map_option core \<circ> view f) found"
      "MatchedTokens res = wrap64 (sum_list (map ce_Tokens es))"
      "tier_rank (BestTier res) = Max (insert 0 (tier_rank ` (\<lambda>e. kv_Residency (ce_Vector e)) ` set es))"
    unfolding found_def by (auto simp: tier_rank_def [of "TierOther _"] wrap64_def)
  have len: "length found \<le> length hashes"
    using length_takeWhile_le [of "\<lambda>c. hits f c now" "map (chunk base) (enumerate 0 hashes)"]
    by (simp add: found_def)
  let ?res = "res\<lparr>pm_Disposition := if found = [] then ReuseMiss
     else if length found = length hashes then ReuseHit else ReusePartialHit\<rparr>"
  have "PrefixLookup f base hashes now = (f', ?res)"
    using spec(2-4) len by (auto simp: PrefixLookup_def run Let_def)
  then show ?thesis by (rule that) (simp_all add: spec)
qed

section \<open>Histories\<close>

lemma expired_evicted [simp]: "\<not> expired now (evicted_entry e)"
  by (simp add: expired_def evicted_entry_def)

lemma evict_loop_entries:
  "fst (evict_loop now ks f ev) d =
     (if d \<in> set ks then map_option (\<lambda>e. if expired now e then evicted_entry e else e) (f d) else f d)"
proof (induction ks arbitrary: f ev)
  case (Cons k ks)
  then show ?case by (cases "f k") auto
qed simp

lemma fabric_core_entry:
  assumes "fabric_core g = fabric_core f" "g d = Some e"
  shows "\<exists>e0. f d = Some e0 \<and> core e = core e0"
  using fun_cong [OF assms(1), of d] assms(2) by (cases "f d") (simp_all add: fabric_core_def)

lemma core_eqD:
  assumes "core a = core b"
  shows "ce_Identity a = ce_Identity b" "ce_Vector a = ce_Vector b" "ExpiresAt a = ExpiresAt b"
    "ce_Tokens a = ce_Tokens b"
  using assms by (metis core_simps)+

lemma descends_refl [simp]: "descends e e"
  by (simp add: descends_def)

lemma descends_trans: "descends a b \<Longrightarrow> descends b c \<Longrightarrow> descends a c"
  by (auto simp: descends_def)

lemma descends_core: "core a = core b \<Longrightarrow> descends b a"
  by (auto simp: descends_def dest: core_eqD)

lemma fabric_step_entry:
  assumes "fabric_step f op d = Some e'"
  shows "(op = OpInsert e' \<and> d = Digest (ce_Identity e') \<and> Validate_id (ce_Identity e') = None) \<or>
     (\<exists>e. f d = Some e \<and> descends e e')"
proof (cases op)
  case (OpInsert x)
  then show ?thesis using assms by (auto simp: Insert_def split: option.splits if_splits)
next
  case (OpLookup i now)
  then show ?thesis
    using assms fabric_core_entry [OF Lookup_core [of f i now], of d e'] by (auto dest: descends_core)
next
  case (OpPrefix b hs now)
  obtain g res where "PrefixLookup f b hs now = (g, res)" "fabric_core g = fabric_core f"
    by (rule PrefixLookup_spec [of f b hs now]) blast
  then show ?thesis using OpPrefix assms by (auto dest: fabric_core_entry descends_core)
next
  case (OpEvictExpired ks now)
  then show ?thesis
    using assms evict_loop_entries [of now ks f "[]" d]
    by (auto simp: EvictExpired_def evicted_entry_def descends_def Let_def split: prod.splits if_splits)
qed (use assms in \<open>auto simp: Promote_def Demote_def Evict_def evicted_entry_def descends_def
      split: option.splits if_splits\<close>)

lemma fabric_run_entry:
  assumes "fabric_run f ops d = Some e'"
  shows "(\<exists>x. OpInsert x \<in> set ops \<and> d = Digest (ce_Identity x) \<and> Validate_id (ce_Identity x) = None \<and>
       descends x e') \<or> (\<exists>e. f d = Some e \<and> descends e e')"
  using assms unfolding fabric_run_def
proof (induction ops arbitrary: e' rule: rev_induct)
  case Nil
  then show ?case by auto
next
  case (snoc op ops)
  then have "fabric_step (foldl fabric_step f ops) op d = Some e'" by simp
  from fabric_step_entry [OF this] show ?case
    using snoc.IH by (metis descends_refl descends_trans set_append Un_iff list.set_intros(1))
qed

lemma fabric_run_inv: "fabric_inv f \<Longrightarrow> fabric_inv (fabric_run f ops)"
  unfolding fabric_inv_def by (auto dest!: fabric_run_entry simp: descends_def)

section \<open>The store keyed by identity\<close>



lemma sample_facts [simp]:
  "Validate_id sample_id = None" "ce_Identity sample_entry = sample_id" "ce_Tokens sample_entry = 16"
  "EvaluateReuse (ce_Vector sample_entry) 5 (ExpiresAt sample_entry) = ReuseHit"
  by (simp_all add: sample_id_def sample_entry_def zeroEntry_def Validate_id_def blank.simps ws_rune_def
      EvaluateReuse_def go_simps)

section \<open>Properties\<close>

text \<open>
  C7. Whatever operations ran before on a new fabric, a lookup that reports a hit returns an
  entry inserted earlier under exactly the queried identity, that is the same tenant, partition,
  model, adapter, tokenizer and chunk; it was active, not corrupted and not expired when it was
  inserted and still is, and it sits in a resident tier. This holds even if SHA-256 digests of
  different identities collide.
\<close>

theorem lookup_hit_isolated:
  assumes "Lookup (fabric_run NewCacheFabric ops) q now = (f', e, ReuseHit, None)"
  shows "ce_Identity e = q \<and> kv_Lifecycle (ce_Vector e) = LifecycleActive \<and>
    kv_Integrity (ce_Vector e) \<noteq> IntegrityCorrupted \<and> (ExpiresAt e = 0 \<or> now < ExpiresAt e) \<and>
    kv_Residency (ce_Vector e) \<in> {TierGPU, TierHostCPU, TierLocalDisk, TierRemote} \<and>
    (\<exists>x. OpInsert x \<in> set ops \<and> ce_Identity x = q \<and> kv_Lifecycle (ce_Vector x) = LifecycleActive \<and>
       kv_Integrity (ce_Vector x) = kv_Integrity (ce_Vector e) \<and>
       ExpiresAt x = ExpiresAt e \<and> ce_Tokens x = ce_Tokens e)"
proof -
  let ?f = "fabric_run NewCacheFabric ops"
  have "hits ?f q now" using Lookup_no_hit [of ?f q now] assms by auto
  then obtain x where x: "view ?f q = Some x" "EvaluateReuse (ce_Vector x) now (ExpiresAt x) = ReuseHit"
      "e = x\<lparr>AccessCount := wrap64 (AccessCount x + 1), LastAccessed := now\<rparr>"
    using assms by (elim Lookup_hit) (auto simp: Let_def)
  then have "?f (Digest q) = Some x" "ce_Identity x = q" by (simp_all add: view_Some)
  with fabric_run_entry [of NewCacheFabric ops "Digest q" x] x show ?thesis
    by (auto simp: NewCacheFabric_def descends_def EvaluateReuse_hit)
qed

theorem lookup_hit_isolated_witness:
  "let (f', e, disp, err) = Lookup (fabric_run NewCacheFabric [OpInsert sample_entry, OpDemote sample_id TierRemote])
     sample_id 5
   in disp = ReuseHit \<and> err = None \<and> ce_Identity e = sample_id \<and> kv_Residency (ce_Vector e) = TierRemote"
proof -
  let ?f = "fabric_run NewCacheFabric [OpInsert sample_entry, OpDemote sample_id TierRemote]"
  obtain f' e where L: "Lookup ?f sample_id 5 = (f', e, ReuseHit, None)" "kv_Residency (ce_Vector e) = TierRemote"
    by (simp add: fabric_run_def Insert_def Demote_def Lookup_def CheckCompatibility_hit)
      (simp add: sample_entry_def zeroEntry_def EvaluateReuse_def Let_def go_simps)
  then show ?thesis using lookup_hit_isolated [OF L(1)] by simp
qed

text \<open>
  C8. Eviction is final: after \<open>Evict\<close> succeeded for an identity, no sequence of lookups,
  promotions, demotions, evictions and insertions under other digests makes a lookup of that
  identity hit again; only re-inserting it does.
\<close>

theorem eviction_is_final:
  assumes "Evict f i = (f', None)"
    and "\<forall>e. OpInsert e \<in> set ops \<longrightarrow> Digest (ce_Identity e) \<noteq> Digest i"
  shows "fst (snd (snd (Lookup (fabric_run f' ops) i now))) \<noteq> ReuseHit"
proof
  assume hit: "fst (snd (snd (Lookup (fabric_run f' ops) i now))) = ReuseHit"
  let ?f = "fabric_run f' ops"
  from hit have "hits ?f i now"
    by (auto simp: Lookup_def Let_def hits_def view_def CheckCompatibility_hit split: option.splits if_splits)
  then obtain x where x: "?f (Digest i) = Some x"
      "EvaluateReuse (ce_Vector x) now (ExpiresAt x) = ReuseHit"
    by (elim Lookup_hit) (auto simp: view_Some)
  from fabric_run_entry [OF x(1)] assms obtain e where "f' (Digest i) = Some e" "descends e x" by metis
  with assms(1) x(2) show False
    by (auto simp: Evict_def evicted_entry_def descends_def EvaluateReuse_hit split: option.splits)
qed

theorem eviction_is_final_witness:
  "let (f', err) = Evict (fst (Insert NewCacheFabric sample_entry)) sample_id
   in err = None \<and> fst (snd (snd (Lookup (fabric_run f' [OpPromote sample_id TierGPU, OpDemote sample_id TierGPU])
        sample_id 5))) \<noteq> ReuseHit"
proof -
  let ?f = "fst (Insert NewCacheFabric sample_entry)"
  obtain f' where "Evict ?f sample_id = (f', None)"
    by (simp add: Insert_def Evict_def)
  then show ?thesis
    using eviction_is_final [of ?f sample_id f' "[OpPromote sample_id TierGPU, OpDemote sample_id TierGPU]" 5]
    by simp
qed




end
