(* ===== verification/Kv_Transfer.thy ===== *)
theory Kv_Transfer
  imports Kvstate "HOL-Library.Sublist"
begin

text \<open>
  The transfer contract between a prefill and a decode node,
  \<open>src/internal/kernel/kvstate/transfer.go\<close>: the contract record, its constructor and the
  methods that drive its phase. A contract is a plain struct; each method returns the updated
  struct and its error. The methods called over a contract's life are a list of events, and
  \<open>transfer_reach\<close> is the step relation they induce.
\<close>

section \<open>Data\<close>

datatype TransferRole = RoleProducer | RoleConsumer | RoleBoth | RoleOther string

record TransferContract =
  TransferID :: string
  tc_Identity :: CacheIdentity
  SourceNode :: string
  TargetNode :: string
  Connector :: string
  tc_Role :: TransferRole
  tc_Phase :: TransferPhase
  tc_Tokens :: int
  tc_Bytes :: int
  PayloadChecksum :: string
  tc_CreatedAt :: gotime
  Deadline :: gotime
  CompletedAt :: gotime
  FailureReason :: string

section \<open>Operations\<close>

definition NewTransferContract ::
  "string \<Rightarrow> CacheIdentity \<Rightarrow> string \<Rightarrow> string \<Rightarrow> string \<Rightarrow> TransferRole \<Rightarrow> int \<Rightarrow> int \<Rightarrow> gotime
   \<Rightarrow> kvstate_error + TransferContract" where
  "NewTransferContract i identity src dst conn role tokens bytesCount deadline =
     (case Validate_id identity of
        Some e \<Rightarrow> Inl e
      | None \<Rightarrow>
         if i = '''' \<or> src = '''' \<or> dst = '''' \<or> conn = '''' then Inl ErrTransferFailed
         else if src = dst then Inl ErrTransferFailed
         else Inr \<lparr>TransferID = i, tc_Identity = identity, SourceNode = src, TargetNode = dst,
           Connector = conn, tc_Role = role, tc_Phase = TransferPhaseIdle, tc_Tokens = tokens,
           tc_Bytes = bytesCount, PayloadChecksum = '''', tc_CreatedAt = 0, Deadline = deadline,
           CompletedAt = 0, FailureReason = ''''\<rparr>)"

definition Initiate :: "TransferContract \<Rightarrow> gotime \<Rightarrow> (TransferContract, kvstate_error) result" where
  "Initiate t now =
     (if tc_Phase t \<noteq> TransferPhaseIdle then (t, Some ErrStateConflict)
      else (t\<lparr>tc_CreatedAt := now, tc_Phase := TransferPhaseInitiated\<rparr>, None))"

definition MarkInFlight :: "TransferContract \<Rightarrow> gotime \<Rightarrow> (TransferContract, kvstate_error) result" where
  "MarkInFlight t now =
     (if \<not> IsZero (Deadline t) \<and> \<not> now < Deadline t
      then (t\<lparr>tc_Phase := TransferPhaseFailed, FailureReason := ''deadline exceeded prior to in-flight''\<rparr>,
            Some ErrTransferTimeout)
      else if tc_Phase t \<noteq> TransferPhaseInitiated then (t, Some ErrStateConflict)
      else (t\<lparr>tc_Phase := TransferPhaseInFlight\<rparr>, None))"

definition Complete :: "TransferContract \<Rightarrow> gotime \<Rightarrow> string \<Rightarrow> (TransferContract, kvstate_error) result" where
  "Complete t now checksum =
     (if \<not> IsZero (Deadline t) \<and> \<not> now < Deadline t
      then (t\<lparr>tc_Phase := TransferPhaseFailed, FailureReason := ''deadline exceeded before completion''\<rparr>,
            Some ErrTransferTimeout)
      else if tc_Phase t \<noteq> TransferPhaseInFlight then (t, Some ErrStateConflict)
      else if blank checksum
      then (t\<lparr>tc_Phase := TransferPhaseFailed, FailureReason := ''missing payload checksum''\<rparr>,
            Some ErrIntegrityViolation)
      else (t\<lparr>PayloadChecksum := checksum, CompletedAt := now, tc_Phase := TransferPhaseCompleted\<rparr>, None))"

definition Fail :: "TransferContract \<Rightarrow> gotime \<Rightarrow> string \<Rightarrow> TransferContract" where
  "Fail t now reason = t\<lparr>tc_Phase := TransferPhaseFailed, FailureReason := reason, CompletedAt := now\<rparr>"

definition VerifyGovernance :: "TransferContract \<Rightarrow> string \<Rightarrow> kvstate_error option" where
  "VerifyGovernance t consumerAdapter =
     (if AdapterID (tc_Identity t) \<noteq> '''' \<and> AdapterID (tc_Identity t) \<noteq> consumerAdapter
      then Some ErrAdapterMismatch else None)"

section \<open>The life of a contract\<close>

datatype transfer_event = EvInitiate gotime | EvInFlight gotime | EvComplete gotime string
  | EvFail gotime string

fun transfer_call :: "TransferContract \<Rightarrow> transfer_event \<Rightarrow> (TransferContract, kvstate_error) result" where
  "transfer_call t (EvInitiate now) = Initiate t now"
| "transfer_call t (EvInFlight now) = MarkInFlight t now"
| "transfer_call t (EvComplete now checksum) = Complete t now checksum"
| "transfer_call t (EvFail now reason) = (Fail t now reason, None)"

inductive transfer_reach :: "TransferContract \<Rightarrow> transfer_event list \<Rightarrow> TransferContract \<Rightarrow> bool" where
  start: "transfer_reach t [] t"
| call: "transfer_reach t evs t1 \<Longrightarrow> transfer_call t1 ev = (t2, err) \<Longrightarrow> transfer_reach t (evs @ [ev]) t2"

text \<open>The same history, computed.\<close>

definition transfer_run :: "TransferContract \<Rightarrow> transfer_event list \<Rightarrow> TransferContract" where
  "transfer_run = foldl (\<lambda>t ev. fst (transfer_call t ev))"

text \<open>The fields that no method writes.\<close>

definition terms_of :: "TransferContract
    \<Rightarrow> string \<times> CacheIdentity \<times> string \<times> string \<times> string \<times> TransferRole \<times> int \<times> int \<times> gotime" where
  "terms_of t = (TransferID t, tc_Identity t, SourceNode t, TargetNode t, Connector t, tc_Role t,
     tc_Tokens t, tc_Bytes t, Deadline t)"

definition in_time :: "TransferContract \<Rightarrow> gotime \<Rightarrow> bool" where
  "in_time t now \<longleftrightarrow> Deadline t = 0 \<or> now < Deadline t"

text \<open>What the phase says about the events so far.\<close>

definition phase_evidence :: "transfer_event list \<Rightarrow> TransferContract \<Rightarrow> bool" where
  "phase_evidence evs t \<longleftrightarrow> (case tc_Phase t of
       TransferPhaseInitiated \<Rightarrow> subseq [EvInitiate (tc_CreatedAt t)] evs
     | TransferPhaseInFlight \<Rightarrow> \<exists>t2. in_time t t2 \<and> subseq [EvInitiate (tc_CreatedAt t), EvInFlight t2] evs
     | TransferPhaseCompleted \<Rightarrow> \<not> blank (PayloadChecksum t) \<and> in_time t (CompletedAt t) \<and>
         (\<exists>t2. in_time t t2 \<and> subseq [EvInitiate (tc_CreatedAt t), EvInFlight t2,
            EvComplete (CompletedAt t) (PayloadChecksum t)] evs)
     | p \<Rightarrow> p \<in> {TransferPhaseIdle, TransferPhaseFailed})"

section \<open>Lemmas\<close>

lemmas transfer_defs = Initiate_def MarkInFlight_def Complete_def Fail_def

lemma transfer_reach_run: "transfer_reach t evs t' \<longleftrightarrow> t' = transfer_run t evs"
proof
  show "transfer_reach t evs t' \<Longrightarrow> t' = transfer_run t evs"
    by (induction rule: transfer_reach.induct) (simp_all add: transfer_run_def)
  have "transfer_reach t evs (transfer_run t evs)"
  proof (induction evs rule: rev_induct)
    case Nil
    then show ?case by (simp add: transfer_run_def transfer_reach.start)
  next
    case (snoc ev evs)
    then show ?case
      by (auto intro!: transfer_reach.call [OF snoc] simp: transfer_run_def prod_eq_iff)
  qed
  then show "t' = transfer_run t evs \<Longrightarrow> transfer_reach t evs t'" by simp
qed

lemma transfer_call_terms: "terms_of (fst (transfer_call t ev)) = terms_of t"
  by (cases ev) (auto simp: transfer_defs terms_of_def)

lemma transfer_reach_terms: "transfer_reach t evs t' \<Longrightarrow> terms_of t' = terms_of t"
  by (induction rule: transfer_reach.induct) (metis transfer_call_terms fst_conv)+

lemma subseq_snoc: "subseq xs ys \<Longrightarrow> subseq (xs @ [x]) (ys @ [x])"
  by (simp add: list_emb_append_mono)

lemma phase_evidence_call:
  assumes "phase_evidence evs t" "transfer_call t ev = (t', err)"
  shows "phase_evidence (evs @ [ev]) t'"
proof (cases "tc_Phase t' = tc_Phase t")
  case True
  with assms show ?thesis
    by (cases ev)
      (auto simp: phase_evidence_def transfer_defs in_time_def
        split: TransferPhase.splits if_splits intro: subseq_rev_drop_many)
next
  case False
  with assms show ?thesis
  proof (cases ev)
    case (EvInFlight now)
    with assms False show ?thesis
      using subseq_snoc [of "[EvInitiate (tc_CreatedAt t)]" evs "EvInFlight now"]
      by (auto simp: phase_evidence_def MarkInFlight_def in_time_def split: if_splits)
  next
    case (EvComplete now cs)
    with assms False show ?thesis
      using subseq_snoc [of "[EvInitiate (tc_CreatedAt t), EvInFlight _]" evs "EvComplete now cs"]
      by (fastforce simp: phase_evidence_def Complete_def in_time_def split: if_splits)
  qed (auto simp: phase_evidence_def Initiate_def Fail_def split: if_splits)
qed

lemma phase_evidence_reach:
  "transfer_reach t evs t' \<Longrightarrow> tc_Phase t = TransferPhaseIdle \<Longrightarrow> phase_evidence evs t'"
  by (induction rule: transfer_reach.induct) (simp_all add: phase_evidence_def [of "[]"] phase_evidence_call)

lemma transfer_failed_final:
  "tc_Phase t = TransferPhaseFailed \<Longrightarrow> tc_Phase (fst (transfer_call t ev)) = TransferPhaseFailed"
  by (cases ev) (auto simp: transfer_defs)

section \<open>Properties\<close>

text \<open>
  C11. A contract made by \<open>NewTransferContract\<close> and driven by any sequence of calls that ends
  completed carries a non-blank checksum, was initiated, put in flight and completed in this
  order, the last two before the deadline, and is the contract that was made: same identity,
  valid, between two different nodes. Whatever was called, its phase is one of idle, initiated,
  in flight, completed and failed, and a failed contract stays failed.
\<close>

theorem completed_transfer_verified:
  assumes "NewTransferContract i identity src dst conn role tokens bytes deadline = Inr t0"
    and "transfer_reach t0 evs t"
  shows "(tc_Phase t = TransferPhaseCompleted \<longrightarrow>
      \<not> blank (PayloadChecksum t) \<and> in_time t (CompletedAt t) \<and>
      (\<exists>t2. in_time t t2 \<and> subseq [EvInitiate (tc_CreatedAt t), EvInFlight t2,
         EvComplete (CompletedAt t) (PayloadChecksum t)] evs)) \<and>
    terms_of t = (i, identity, src, dst, conn, role, tokens, bytes, deadline) \<and>
    Validate_id identity = None \<and> src \<noteq> dst \<and>
    tc_Phase t \<in> {TransferPhaseIdle, TransferPhaseInitiated, TransferPhaseInFlight,
      TransferPhaseCompleted, TransferPhaseFailed} \<and>
    (tc_Phase t = TransferPhaseFailed \<longrightarrow> tc_Phase (fst (transfer_call t ev)) = TransferPhaseFailed)"
proof -
  have new: "tc_Phase t0 = TransferPhaseIdle" "Validate_id identity = None" "src \<noteq> dst"
      "terms_of t0 = (i, identity, src, dst, conn, role, tokens, bytes, deadline)"
    using assms(1) by (auto simp: NewTransferContract_def terms_of_def split: option.splits if_splits)
  have ph: "phase_evidence evs t" using assms(2) new(1) by (rule phase_evidence_reach)
  then have "tc_Phase t \<in> {TransferPhaseIdle, TransferPhaseInitiated, TransferPhaseInFlight,
      TransferPhaseCompleted, TransferPhaseFailed}"
    by (auto simp: phase_evidence_def split: TransferPhase.splits)
  moreover have "terms_of t = terms_of t0" by (rule transfer_reach_terms [OF assms(2)])
  ultimately show ?thesis
    using new ph by (cases "tc_Phase t") (simp_all add: phase_evidence_def transfer_failed_final)
qed

theorem completed_transfer_verified_witness:
  "case NewTransferContract ''x'' sample_id ''prefill'' ''decode'' ''nixl'' RoleBoth 16 1024 100 of
     Inl _ \<Rightarrow> False
   | Inr t0 \<Rightarrow>
       (let t = transfer_run t0 [EvInitiate 1, EvInFlight 2, EvComplete 3 ''c0ffee'']
        in tc_Phase t = TransferPhaseCompleted \<and> in_time t (CompletedAt t) \<and> \<not> blank (PayloadChecksum t))"
proof -
  obtain t0 where t0: "NewTransferContract ''x'' sample_id ''prefill'' ''decode'' ''nixl'' RoleBoth 16 1024 100 = Inr t0"
    by (simp add: NewTransferContract_def)
  let ?t = "transfer_run t0 [EvInitiate 1, EvInFlight 2, EvComplete 3 ''c0ffee'']"
  have "tc_Phase ?t = TransferPhaseCompleted"
    using t0 by (auto simp: transfer_run_def transfer_defs NewTransferContract_def blank.simps ws_rune_def)
  then show ?thesis
    using completed_transfer_verified [OF t0, of "[EvInitiate 1, EvInFlight 2, EvComplete 3 ''c0ffee'']" ?t]
    by (simp add: t0 transfer_reach_run)
qed

end
