(* ===== verification/Actor.thy ===== *)
theory Actor
  imports Prelude
begin

text \<open>
  Actors and inference sessions, the first half of \<open>src/internal/kernel/actor/coactor.go\<close>. Every
  method holds the mutex of its object, so it is one step on the object's record. The lemmas
  show the concurrency bound and the slot accounting of an actor, and the turn bound and the
  finality of terminal sessions.
\<close>

section \<open>Data\<close>

datatype actor_error = ErrInvalidTransition_a | ErrCapacityExceeded | ErrReentrancyProhibited
  | ErrActorNotActive | ErrActorNotResident | ErrSessionExpired | ErrSessionTerminal
  | ErrMaxTurnsReached | ErrStaleFence | ErrFenceExpired | ErrDigestMismatch | ErrMemberNotFound
  | ErrInvalidPattern

datatype ActorLifecycle = ActorInactive | ActorActivating | ActorActive | ActorDeactivating

datatype ActorResidency = ResidencyCold | ResidencyLoading | ResidencyResident | ResidencyEvicting
  | ActorResidencyOther string

datatype ConcurrencyState = ConcurrencyIdle | ConcurrencyProcessing | ConcurrencyAtCapacity

datatype ReentrancyMode = ReentrancyForbidden | ReentrancyAllowed | ReentrancyModeOther string

datatype ActorType = ActorTypeModel | ActorTypeAgent | ActorTypeTool | ActorTypeOther string

datatype IdleStatus = IdleStatusActive | IdleStatusTimedOut

datatype SessionPhase = SessionPhaseActive | SessionPhaseIdle | SessionPhaseDraining
  | SessionPhaseEvicted | SessionPhaseCompleted

datatype SessionCacheState = CacheEmpty | CacheWarming | CacheResident | CacheFenced
  | CacheTransferred | CacheEvicted | SessionCacheStateOther string

datatype SessionAffinityState = AffinityUnbound | AffinityBound | AffinityRebinding

datatype SessionExpiryStatus = SessionLive | SessionExpired

record ActorStateVector =
  av_Lifecycle :: ActorLifecycle
  av_Residency :: ActorResidency
  av_Concurrency :: ConcurrencyState

record Actor =
  a_id :: string
  a_actorType :: ActorType
  a_vector :: ActorStateVector
  maxConcurrency :: int
  activeSlots :: int
  reentrancy :: ReentrancyMode
  idleTimeout :: int
  a_lastActivity :: gotime

record SessionStateVector =
  ss_Phase :: SessionPhase
  ss_Cache :: SessionCacheState
  ss_Affinity :: SessionAffinityState

record InferenceSession =
  s_id :: string
  modelRef :: string
  actorRef :: string
  groupRef :: string
  boundEndpoint :: string
  s_vector :: SessionStateVector
  s_ttl :: int
  maxTurns :: int
  turnCount :: int
  tokenCount :: int
  kvCacheSize :: int
  s_lastActivity :: gotime

section \<open>Actors\<close>

definition NewActor :: "string \<Rightarrow> ActorType \<Rightarrow> int \<Rightarrow> ReentrancyMode \<Rightarrow> int \<Rightarrow> gotime \<Rightarrow> Actor" where
  "NewActor i aType maxC reent idle now =
     (let maxC = (if maxC \<le> 0 then 1 else maxC)
      in \<lparr>a_id = i, a_actorType = aType,
          a_vector = \<lparr>av_Lifecycle = ActorInactive, av_Residency = ResidencyCold,
                      av_Concurrency = ConcurrencyIdle\<rparr>,
          maxConcurrency = maxC, activeSlots = 0, reentrancy = reent, idleTimeout = idle,
          a_lastActivity = now\<rparr>)"

definition Activate :: "Actor \<Rightarrow> gotime \<Rightarrow> (Actor, actor_error) result" where
  "Activate a now =
     (if av_Lifecycle (a_vector a) = ActorActive then (a, None)
      else (a\<lparr>a_vector := (a_vector a)\<lparr>av_Lifecycle := ActorActive\<rparr>, a_lastActivity := now\<rparr>, None))"

definition Deactivate :: "Actor \<Rightarrow> gotime \<Rightarrow> (Actor, actor_error) result" where
  "Deactivate a now =
     (if activeSlots a > 0 then (a, Some ErrInvalidTransition_a)
      else (a\<lparr>a_vector := (a_vector a)\<lparr>av_Lifecycle := ActorInactive, av_Concurrency := ConcurrencyIdle\<rparr>,
              a_lastActivity := now\<rparr>, None))"

definition SetResidency :: "Actor \<Rightarrow> ActorResidency \<Rightarrow> (Actor, actor_error) result" where
  "SetResidency a residency = (a\<lparr>a_vector := (a_vector a)\<lparr>av_Residency := residency\<rparr>\<rparr>, None)"

definition AcquireSlot :: "Actor \<Rightarrow> gotime \<Rightarrow> (Actor, actor_error) result" where
  "AcquireSlot a now =
     (if av_Lifecycle (a_vector a) \<noteq> ActorActive then (a, Some ErrActorNotActive)
      else if av_Residency (a_vector a) \<noteq> ResidencyResident then (a, Some ErrActorNotResident)
      else if activeSlots a > 0 \<and> reentrancy a = ReentrancyForbidden then (a, Some ErrReentrancyProhibited)
      else if activeSlots a \<ge> maxConcurrency a then (a, Some ErrCapacityExceeded)
      else
       (let n = wrap32 (activeSlots a + 1);
            c = (if n \<ge> maxConcurrency a then ConcurrencyAtCapacity else ConcurrencyProcessing)
        in (a\<lparr>activeSlots := n, a_lastActivity := now, a_vector := (a_vector a)\<lparr>av_Concurrency := c\<rparr>\<rparr>, None)))"

definition ReleaseSlot :: "Actor \<Rightarrow> gotime \<Rightarrow> (Actor, actor_error) result" where
  "ReleaseSlot a now =
     (if activeSlots a \<le> 0 then (a, Some ErrInvalidTransition_a)
      else
       (let n = wrap32 (activeSlots a - 1);
            c = (if n = 0 then ConcurrencyIdle else ConcurrencyProcessing)
        in (a\<lparr>activeSlots := n, a_lastActivity := now, a_vector := (a_vector a)\<lparr>av_Concurrency := c\<rparr>\<rparr>, None)))"

definition CheckIdle :: "Actor \<Rightarrow> gotime \<Rightarrow> Actor \<times> IdleStatus \<times> actor_error option" where
  "CheckIdle a now =
     (if activeSlots a > 0 then (a, IdleStatusActive, None)
      else if idleTimeout a > 0 \<and> time_sub now (a_lastActivity a) \<ge> idleTimeout a
      then (a\<lparr>a_vector := (a_vector a)\<lparr>av_Lifecycle := ActorInactive, av_Concurrency := ConcurrencyIdle\<rparr>\<rparr>,
            IdleStatusTimedOut, None)
      else (a, IdleStatusActive, None))"

section \<open>Inference sessions\<close>

definition NewInferenceSession ::
  "string \<Rightarrow> string \<Rightarrow> string \<Rightarrow> string \<Rightarrow> int \<Rightarrow> int \<Rightarrow> gotime \<Rightarrow> InferenceSession" where
  "NewInferenceSession i model actr grp lifetime turns now =
     \<lparr>s_id = i, modelRef = model, actorRef = actr, groupRef = grp, boundEndpoint = '''',
      s_vector = \<lparr>ss_Phase = SessionPhaseActive, ss_Cache = CacheEmpty, ss_Affinity = AffinityUnbound\<rparr>,
      s_ttl = lifetime, maxTurns = turns, turnCount = 0, tokenCount = 0, kvCacheSize = 0, s_lastActivity = now\<rparr>"

definition session_terminal :: "InferenceSession \<Rightarrow> bool" where
  "session_terminal s \<longleftrightarrow>
     ss_Phase (s_vector s) = SessionPhaseEvicted \<or> ss_Phase (s_vector s) = SessionPhaseCompleted"

definition BindEndpoint :: "InferenceSession \<Rightarrow> string \<Rightarrow> (InferenceSession, actor_error) result" where
  "BindEndpoint s endpoint =
     (if session_terminal s then (s, Some ErrSessionTerminal)
      else (s\<lparr>boundEndpoint := endpoint, s_vector := (s_vector s)\<lparr>ss_Affinity := AffinityBound\<rparr>\<rparr>, None))"

definition RecordTurn :: "InferenceSession \<Rightarrow> int \<Rightarrow> int \<Rightarrow> gotime \<Rightarrow> (InferenceSession, actor_error) result" where
  "RecordTurn s tokens cacheBytes now =
     (if session_terminal s then (s, Some ErrSessionTerminal)
      else
       (let s = s\<lparr>turnCount := wrap32 (turnCount s + 1), tokenCount := wrap64 (tokenCount s + tokens),
                  kvCacheSize := cacheBytes, s_lastActivity := now,
                  s_vector := (s_vector s)\<lparr>ss_Cache := CacheResident\<rparr>\<rparr>
        in if maxTurns s > 0 \<and> turnCount s \<ge> maxTurns s
           then (s\<lparr>s_vector := \<lparr>ss_Phase = SessionPhaseCompleted, ss_Cache = CacheEvicted,
                                ss_Affinity = AffinityUnbound\<rparr>, boundEndpoint := ''''\<rparr>,
                 Some ErrMaxTurnsReached)
           else (s, None)))"

definition CheckExpiry :: "InferenceSession \<Rightarrow> gotime \<Rightarrow> InferenceSession \<times> SessionExpiryStatus" where
  "CheckExpiry s now =
     (if session_terminal s then (s, SessionExpired)
      else if s_ttl s > 0 \<and> time_sub now (s_lastActivity s) \<ge> s_ttl s
      then (s\<lparr>s_vector := \<lparr>ss_Phase = SessionPhaseEvicted, ss_Cache = CacheEvicted,
                           ss_Affinity = AffinityUnbound\<rparr>, boundEndpoint := ''''\<rparr>, SessionExpired)
      else (s, SessionLive))"

definition SetCacheState :: "InferenceSession \<Rightarrow> SessionCacheState \<Rightarrow> InferenceSession" where
  "SetCacheState s state = s\<lparr>s_vector := (s_vector s)\<lparr>ss_Cache := state\<rparr>\<rparr>"

section \<open>Histories and invariants\<close>

datatype actor_op = CallActivate gotime | CallDeactivate gotime | CallSetResidency ActorResidency
  | CallAcquireSlot gotime | CallReleaseSlot gotime | CallCheckIdle gotime

fun actor_call :: "Actor \<Rightarrow> actor_op \<Rightarrow> (Actor, actor_error) result" where
  "actor_call a (CallActivate now) = Activate a now"
| "actor_call a (CallDeactivate now) = Deactivate a now"
| "actor_call a (CallSetResidency r) = SetResidency a r"
| "actor_call a (CallAcquireSlot now) = AcquireSlot a now"
| "actor_call a (CallReleaseSlot now) = ReleaseSlot a now"
| "actor_call a (CallCheckIdle now) = (fst (CheckIdle a now), snd (snd (CheckIdle a now)))"

definition actor_run :: "Actor \<Rightarrow> actor_op list \<Rightarrow> Actor" where
  "actor_run = foldl (\<lambda>a op. fst (actor_call a op))"

text \<open>The slots granted minus the slots returned by the calls of a history.\<close>

fun granted :: "actor_op \<Rightarrow> actor_error option \<Rightarrow> int" where
  "granted (CallAcquireSlot _) None = 1"
| "granted (CallReleaseSlot _) None = - 1"
| "granted _ _ = 0"

fun net_slots :: "Actor \<Rightarrow> actor_op list \<Rightarrow> int" where
  "net_slots a [] = 0"
| "net_slots a (op # ops) = (let (a', err) = actor_call a op in granted op err + net_slots a' ops)"

definition actor_inv :: "Actor \<Rightarrow> bool" where
  "actor_inv a \<longleftrightarrow> 0 \<le> activeSlots a \<and> activeSlots a \<le> maxConcurrency a \<and>
     1 \<le> maxConcurrency a \<and> maxConcurrency a < 2 ^ 31 \<and>
     (reentrancy a = ReentrancyForbidden \<longrightarrow> activeSlots a \<le> 1) \<and>
     (activeSlots a > 0 \<longrightarrow> av_Lifecycle (a_vector a) = ActorActive) \<and>
     av_Concurrency (a_vector a) =
       (if activeSlots a = 0 then ConcurrencyIdle
        else if activeSlots a = maxConcurrency a then ConcurrencyAtCapacity else ConcurrencyProcessing)"

datatype session_op = CallBindEndpoint string | CallRecordTurn int int gotime | CallCheckExpiry gotime
  | CallSetCacheState SessionCacheState

fun session_call :: "InferenceSession \<Rightarrow> session_op \<Rightarrow> (InferenceSession, actor_error) result" where
  "session_call s (CallBindEndpoint e) = BindEndpoint s e"
| "session_call s (CallRecordTurn tok bytes now) = RecordTurn s tok bytes now"
| "session_call s (CallCheckExpiry now) = (fst (CheckExpiry s now), None)"
| "session_call s (CallSetCacheState c) = (SetCacheState s c, None)"

definition session_run :: "InferenceSession \<Rightarrow> session_op list \<Rightarrow> InferenceSession" where
  "session_run = foldl (\<lambda>s op. fst (session_call s op))"

definition session_inv :: "InferenceSession \<Rightarrow> bool" where
  "session_inv s \<longleftrightarrow>
     ss_Phase (s_vector s) \<in> {SessionPhaseActive, SessionPhaseEvicted, SessionPhaseCompleted} \<and>
     (session_terminal s \<longrightarrow> boundEndpoint s = '''' \<and> ss_Affinity (s_vector s) = AffinityUnbound) \<and>
     maxTurns s < 2 ^ 31 \<and>
     (maxTurns s > 0 \<longrightarrow> 0 \<le> turnCount s \<and> turnCount s \<le> maxTurns s \<and>
        (ss_Phase (s_vector s) = SessionPhaseCompleted \<longleftrightarrow> turnCount s = maxTurns s)) \<and>
     (maxTurns s \<le> 0 \<longrightarrow> ss_Phase (s_vector s) \<noteq> SessionPhaseCompleted)"

lemmas actor_defs = Activate_def Deactivate_def SetResidency_def AcquireSlot_def ReleaseSlot_def
  CheckIdle_def

lemmas session_defs = BindEndpoint_def RecordTurn_def CheckExpiry_def SetCacheState_def

section \<open>The slot pool an actor provides\<close>

text \<open>What the co-actor group relies on: a granted slot adds one, a returned slot removes one, a
  refused call changes nothing, and the count stays between zero and the capacity.\<close>

locale slot_pool =
  fixes slots :: "'a \<Rightarrow> int" and cap :: "'a \<Rightarrow> int" and inv :: "'a \<Rightarrow> bool"
    and acquire :: "'a \<Rightarrow> gotime \<Rightarrow> 'a \<times> 'e option" and release :: "'a \<Rightarrow> gotime \<Rightarrow> 'a \<times> 'e option"
  assumes bounded: "inv a \<Longrightarrow> 0 \<le> slots a \<and> slots a \<le> cap a"
    and acquire_ok: "inv a \<Longrightarrow> acquire a t = (a', None) \<Longrightarrow> inv a' \<and> slots a' = slots a + 1 \<and> cap a' = cap a"
    and acquire_err: "acquire a t = (a', Some e) \<Longrightarrow> a' = a"
    and release_ok: "inv a \<Longrightarrow> release a t = (a', None) \<Longrightarrow> inv a' \<and> slots a' = slots a - 1 \<and> cap a' = cap a"
    and release_err: "release a t = (a', Some e) \<Longrightarrow> a' = a"
    and release_some: "inv a \<Longrightarrow> 0 < slots a \<Longrightarrow> \<exists>a'. release a t = (a', None)"
begin

lemma acquire_inv: "inv a \<Longrightarrow> inv (fst (acquire a t))"
  by (cases "acquire a t"; cases "snd (acquire a t)") (auto dest: acquire_ok acquire_err)

lemma release_inv: "inv a \<Longrightarrow> inv (fst (release a t))"
  by (cases "release a t"; cases "snd (release a t)") (auto dest: release_ok release_err)

lemma acquire_below_cap: "inv a \<Longrightarrow> acquire a t = (a', None) \<Longrightarrow> slots a < cap a"
  using bounded [of a'] acquire_ok [of a t a'] by force

text \<open>Moving a slot between two members of a pool of actors keeps the total.\<close>

lemma move_total:
  assumes "finite S" "d \<in> S" "p \<in> S" "p \<noteq> d" "inv (A d)" "inv (A p)" "0 < slots (A p)"
    and "acquire (A d) t = (d', None)"
  shows "(\<Sum>x\<in>S. slots ((A(d := d', p := fst (release (A p) t'))) x)) = (\<Sum>x\<in>S. slots (A x))"
proof -
  obtain p' where p': "release (A p) t' = (p', None)" "slots p' = slots (A p) - 1"
    using release_some [OF assms(6,7)] release_ok [OF assms(6)] by blast
  have d': "slots d' = slots (A d) + 1" using acquire_ok [OF assms(5,8)] by blast
  have S: "S = insert d (insert p (S - {d, p}))" using assms(2,3) by blast
  have "(\<Sum>x\<in>S - {d, p}. slots ((A(d := d', p := p')) x)) = (\<Sum>x\<in>S - {d, p}. slots (A x))"
    by (rule sum.cong) auto
  then show ?thesis
    using assms(1,4) p' d' by (subst (1 2) S) (simp add: sum.insert_remove)
qed

end

lemma AcquireSlot_cases:
  obtains (refused) e where "AcquireSlot a now = (a, Some e)"
  | (granted) "av_Lifecycle (a_vector a) = ActorActive" "av_Residency (a_vector a) = ResidencyResident"
      "activeSlots a \<le> 0 \<or> reentrancy a \<noteq> ReentrancyForbidden" "activeSlots a < maxConcurrency a"
      "AcquireSlot a now = (a\<lparr>activeSlots := wrap32 (activeSlots a + 1), a_lastActivity := now,
         a_vector := (a_vector a)\<lparr>av_Concurrency := if wrap32 (activeSlots a + 1) \<ge> maxConcurrency a
           then ConcurrencyAtCapacity else ConcurrencyProcessing\<rparr>\<rparr>, None)"
proof (cases "snd (AcquireSlot a now)")
  case None
  then show ?thesis by (intro granted) (auto simp: AcquireSlot_def Let_def split: if_splits)
next
  case (Some e)
  then show ?thesis by (intro refused [of e]) (auto simp: AcquireSlot_def Let_def split: if_splits)
qed

lemma actor_inv_AcquireSlot: "actor_inv a \<Longrightarrow> actor_inv (fst (AcquireSlot a now))"
  by (cases rule: AcquireSlot_cases [of a now]) (auto simp: actor_inv_def)

lemma actor_inv_ReleaseSlot: "actor_inv a \<Longrightarrow> actor_inv (fst (ReleaseSlot a now))"
  by (auto simp: actor_inv_def ReleaseSlot_def Let_def)

interpretation actor_slots: slot_pool activeSlots maxConcurrency actor_inv AcquireSlot ReleaseSlot
proof
  fix a a' :: Actor and t e
  show "actor_inv a \<Longrightarrow> 0 \<le> activeSlots a \<and> activeSlots a \<le> maxConcurrency a"
    by (simp add: actor_inv_def)
  show "actor_inv a' \<and> activeSlots a' = activeSlots a + 1 \<and> maxConcurrency a' = maxConcurrency a"
    if "actor_inv a" "AcquireSlot a t = (a', None)"
    using that actor_inv_AcquireSlot [of a t]
    by (cases rule: AcquireSlot_cases [of a t]) (auto simp: actor_inv_def [of a])
  show "AcquireSlot a t = (a', Some e) \<Longrightarrow> a' = a"
    by (cases rule: AcquireSlot_cases [of a t]) auto
  show "actor_inv a' \<and> activeSlots a' = activeSlots a - 1 \<and> maxConcurrency a' = maxConcurrency a"
    if "actor_inv a" "ReleaseSlot a t = (a', None)"
    using that actor_inv_ReleaseSlot [of a t]
    by (auto simp: actor_inv_def [of a] ReleaseSlot_def Let_def split: if_splits)
  show "ReleaseSlot a t = (a', Some e) \<Longrightarrow> a' = a"
    by (auto simp: ReleaseSlot_def Let_def split: if_splits)
  show "actor_inv a \<Longrightarrow> 0 < activeSlots a \<Longrightarrow> \<exists>a'. ReleaseSlot a t = (a', None)"
    by (simp add: ReleaseSlot_def Let_def)
qed

section \<open>Lemmas on histories\<close>

lemma actor_call_inv:
  assumes "actor_inv a" "actor_call a op = (a', err)"
  shows "actor_inv a'" "activeSlots a' = activeSlots a + granted op err"
proof -
  have "actor_inv a' \<and> activeSlots a' = activeSlots a + granted op err"
  proof (cases op)
    case (CallAcquireSlot t)
    then show ?thesis
      using assms actor_slots.acquire_ok [of a t a'] actor_slots.acquire_err [of a t a'] by (cases err) auto
  next
    case (CallReleaseSlot t)
    then show ?thesis
      using assms actor_slots.release_ok [of a t a'] actor_slots.release_err [of a t a'] by (cases err) auto
  qed (use assms in \<open>auto simp: actor_inv_def actor_defs split: if_splits\<close>)
  then show "actor_inv a'" "activeSlots a' = activeSlots a + granted op err" by simp_all
qed

lemma actor_run_inv:
  "actor_inv a \<Longrightarrow> actor_inv (actor_run a ops) \<and> activeSlots (actor_run a ops) = activeSlots a + net_slots a ops"
  unfolding actor_run_def
proof (induction ops arbitrary: a)
  case (Cons op ops)
  obtain a' err where "actor_call a op = (a', err)" by fastforce
  then show ?case using Cons.IH [of a'] actor_call_inv [OF Cons.prems, of op a' err] by simp
qed simp

lemma actor_call_const:
  "maxConcurrency (fst (actor_call a op)) = maxConcurrency a \<and> reentrancy (fst (actor_call a op)) = reentrancy a"
  by (cases op) (simp_all add: actor_defs Let_def)

lemma actor_run_const:
  "maxConcurrency (actor_run (NewActor i aType maxC reent idle t0) ops) = max 1 maxC \<and>
   reentrancy (actor_run (NewActor i aType maxC reent idle t0) ops) = reent"
proof -
  have "maxConcurrency (actor_run a ops) = maxConcurrency a \<and> reentrancy (actor_run a ops) = reentrancy a" for a
    unfolding actor_run_def by (induction ops arbitrary: a) (simp_all add: actor_call_const)
  then show ?thesis by (simp add: NewActor_def Let_def)
qed

lemma session_call_inv: "session_inv s \<Longrightarrow> session_inv (fst (session_call s op))"
  by (cases op) (auto simp: session_inv_def session_defs session_terminal_def Let_def)

lemma session_run_inv: "session_inv s \<Longrightarrow> session_inv (session_run s ops)"
  unfolding session_run_def by (induction ops arbitrary: s) (simp_all add: session_call_inv)

lemma session_run_maxTurns: "maxTurns (session_run s ops) = maxTurns s"
proof -
  have "maxTurns (fst (session_call s op)) = maxTurns s" for s op
    by (cases op) (simp_all add: session_defs Let_def)
  then show ?thesis unfolding session_run_def by (induction ops arbitrary: s) simp_all
qed

lemma session_call_terminal:
  "session_terminal s \<Longrightarrow> session_terminal (fst (session_call s op)) \<and>
     ss_Phase (s_vector (fst (session_call s op))) = ss_Phase (s_vector s) \<and>
     turnCount (fst (session_call s op)) = turnCount s"
  by (cases op) (auto simp: session_defs session_terminal_def)

lemma session_run_terminal:
  "session_terminal s \<Longrightarrow> session_terminal (session_run s ops) \<and>
     ss_Phase (s_vector (session_run s ops)) = ss_Phase (s_vector s) \<and>
     turnCount (session_run s ops) = turnCount s"
  unfolding session_run_def by (induction ops arbitrary: s) (simp_all add: session_call_terminal)

section \<open>Properties\<close>

text \<open>
  C12. Whatever methods are called on an actor made by \<open>NewActor\<close>, its active slots are the
  slots granted minus the slots returned, never negative and never above the maximum
  concurrency, at most one when reentrancy is forbidden; an actor holding a slot is active, and
  its concurrency state says exactly whether it is idle, at capacity or in between. A further
  slot is granted exactly when it is active and resident, below its capacity, and idle or
  reentrant.
\<close>

theorem actor_slot_bound:
  assumes "maxC < 2 ^ 31"
    and "a = actor_run (NewActor i aType maxC reent idle t0) ops"
  shows "activeSlots a = net_slots (NewActor i aType maxC reent idle t0) ops \<and>
    0 \<le> activeSlots a \<and> activeSlots a \<le> max 1 maxC \<and>
    (reent = ReentrancyForbidden \<longrightarrow> activeSlots a \<le> 1) \<and>
    (activeSlots a > 0 \<longrightarrow> av_Lifecycle (a_vector a) = ActorActive) \<and>
    av_Concurrency (a_vector a) = (if activeSlots a = 0 then ConcurrencyIdle
      else if activeSlots a = max 1 maxC then ConcurrencyAtCapacity else ConcurrencyProcessing) \<and>
    (snd (AcquireSlot a now) = None \<longleftrightarrow>
       av_Lifecycle (a_vector a) = ActorActive \<and> av_Residency (a_vector a) = ResidencyResident \<and>
       activeSlots a < max 1 maxC \<and> (activeSlots a = 0 \<or> reent \<noteq> ReentrancyForbidden))"
proof -
  let ?n = "NewActor i aType maxC reent idle t0"
  have "actor_inv ?n" using assms(1) by (simp add: actor_inv_def NewActor_def Let_def)
  from actor_run_inv [OF this, of ops] have inv: "actor_inv a" "activeSlots a = net_slots ?n ops"
    by (simp_all add: assms(2)) (simp add: NewActor_def Let_def)
  have const: "maxConcurrency a = max 1 maxC \<and> reentrancy a = reent"
    unfolding assms(2) by (rule actor_run_const)
  show ?thesis using inv const by (auto simp: actor_inv_def AcquireSlot_def Let_def)
qed

theorem actor_slot_bound_witness:
  "let a = actor_run (NewActor ''a'' ActorTypeModel 2 ReentrancyAllowed 0 1)
       [CallActivate 2, CallSetResidency ResidencyResident, CallAcquireSlot 3, CallAcquireSlot 4, CallAcquireSlot 5]
   in activeSlots a = 2 \<and> activeSlots a \<le> max 1 2 \<and> av_Concurrency (a_vector a) = ConcurrencyAtCapacity \<and>
      snd (AcquireSlot a 6) \<noteq> None"
proof -
  let ?ops = "[CallActivate 2, CallSetResidency ResidencyResident, CallAcquireSlot 3, CallAcquireSlot 4, CallAcquireSlot 5]"
  let ?a = "actor_run (NewActor ''a'' ActorTypeModel 2 ReentrancyAllowed 0 1) ?ops"
  obtain a where a: "a = ?a" by simp
  then have "activeSlots a = 2"
    by (simp add: actor_run_def NewActor_def actor_defs Let_def)
  then show ?thesis
    using actor_slot_bound [OF _ a, of 6] by (simp add: a [symmetric] Let_def del: net_slots.simps not_None_eq)
qed

text \<open>
  C13. Whatever methods are called on a session made by \<open>NewInferenceSession\<close>: with a positive
  turn limit the turn count stays within it and the session is completed exactly when the limit
  is reached; without one it never completes. A terminal session has no endpoint and refuses to
  bind one or to record a turn, changing nothing; it stays in its phase with its turn count
  whatever is called later, and every expiry check of it answers expired. An expiry check
  answers expired exactly when it leaves the session terminal.
\<close>

theorem session_terminal_final:
  assumes "turns < 2 ^ 31"
    and "s = session_run (NewInferenceSession i model actr grp lifetime turns t0) ops"
  shows "(if 0 < turns then 0 \<le> turnCount s \<and> turnCount s \<le> turns \<and>
        (ss_Phase (s_vector s) = SessionPhaseCompleted \<longleftrightarrow> turnCount s = turns)
      else ss_Phase (s_vector s) \<noteq> SessionPhaseCompleted) \<and>
    (session_terminal s \<longrightarrow> boundEndpoint s = '''' \<and>
       BindEndpoint s e = (s, Some ErrSessionTerminal) \<and>
       RecordTurn s tok bytes now = (s, Some ErrSessionTerminal) \<and>
       ss_Phase (s_vector (session_run s later)) = ss_Phase (s_vector s) \<and>
       turnCount (session_run s later) = turnCount s \<and>
       snd (CheckExpiry (session_run s later) now) = SessionExpired) \<and>
    (snd (CheckExpiry s now) = SessionExpired \<longleftrightarrow> session_terminal (fst (CheckExpiry s now)))"
proof -
  have "session_inv (NewInferenceSession i model actr grp lifetime turns t0)"
    using assms(1) by (simp add: session_inv_def NewInferenceSession_def session_terminal_def)
  then have inv: "session_inv s" unfolding assms(2) by (rule session_run_inv)
  have turns: "maxTurns s = turns"
    unfolding assms(2) by (simp add: session_run_maxTurns) (simp add: NewInferenceSession_def)
  show ?thesis
    using inv turns session_run_terminal [of s later]
    by (auto simp: session_inv_def session_defs) (auto simp: session_terminal_def)
qed

theorem session_terminal_final_witness:
  "let s = session_run (NewInferenceSession ''s'' ''m'' ''a'' '''' 0 2 1)
       [CallBindEndpoint ''ep'', CallRecordTurn 10 64 2, CallRecordTurn 20 64 3]
   in session_terminal s \<and> turnCount s = 2 \<and>
      turnCount (session_run s [CallRecordTurn 1 1 4, CallBindEndpoint ''x'']) = 2 \<and> boundEndpoint s = ''''"
proof -
  let ?ops = "[CallBindEndpoint ''ep'', CallRecordTurn 10 64 2, CallRecordTurn 20 64 3]"
  let ?s = "session_run (NewInferenceSession ''s'' ''m'' ''a'' '''' 0 2 1) ?ops"
  obtain s where s: "s = ?s" by simp
  then have "session_terminal s" "turnCount s = 2"
    by (simp_all add: session_run_def NewInferenceSession_def session_defs session_terminal_def Let_def)
  then show ?thesis
    using session_terminal_final [OF _ s, of _ _ _ _ "[CallRecordTurn 1 1 4, CallBindEndpoint ''x'']"]
    by (simp add: s [symmetric] Let_def)
qed

end
