(* ===== verification/Coactor.thy ===== *)
theory Coactor
  imports Actor "HOL-Library.Word"
begin

text \<open>
  Co-actor groups and the prefill-to-decode handoff, the second half of
  \<open>src/internal/kernel/actor/coactor.go\<close>. Members, sessions and fences are shared by pointer, so
  the model has a store of actors, sessions and fences and a group refers to them by address;
  only the fence pointer may be nil where the code tests for it. A loop over the member map
  takes the iteration order as an argument, one per loop, and \<open>len(g.members)\<close> is the length
  of that order. A group method holds the group's mutex and is one step on group and store.
\<close>

section \<open>Data\<close>

datatype CoactorPattern = PatternPrefillDecode | PatternAgentEnsemble | PatternPipeline
  | PatternMixtureOfAgents | CoactorPatternOther string

datatype CoactorGroupPhase = GroupPhaseForming | GroupPhaseReady | GroupPhaseDegraded | GroupPhaseDissolved

datatype TransferPhase_co = TransferUninitialized | TransferPrefilling | TransferFenced
  | TransferTransmitting | TransferVerifying | TransferCompleted | TransferFailed | TransferAborted

datatype TransferMechanism = TransferNCCL | TransferRDMA | TransferTCP | TransferMechanismOther string

datatype MemberRole = RolePrefill | RoleDecode | RoleRouter | RoleWorker | MemberRoleOther string

record GroupStateVector =
  gv_Phase :: CoactorGroupPhase
  gv_Pattern :: CoactorPattern
  gv_Transfer :: TransferPhase_co

record TransferFence =
  Epoch :: u64
  SessionID :: string
  PrefillActorID :: string
  DecodeActorID :: string
  PrefixTokens :: int
  tf_Digest :: string
  Mechanism :: TransferMechanism
  tf_CreatedAt :: gotime
  tf_ExpiresAt :: gotime

record CoactorMember =
  cm_Name :: string
  cm_Role :: MemberRole
  cm_Actor :: nat
  DependsOn :: "string list"

record CoActorGroup =
  g_id :: string
  g_pattern :: CoactorPattern
  g_members :: "string \<rightharpoonup> CoactorMember"
  g_vector :: GroupStateVector
  currentEpoch :: u64
  activeFence :: "nat option"

record co_store =
  actors :: "nat \<Rightarrow> Actor"
  sessions :: "nat \<Rightarrow> InferenceSession"
  fences :: "nat \<Rightarrow> TransferFence"
  next_fence :: nat

text \<open>The outcome of a group method: the store, the group and the error.\<close>

type_synonym co_result = "co_store \<times> CoActorGroup \<times> actor_error option"

section \<open>Operations\<close>

definition NewCoActorGroup :: "string \<Rightarrow> CoactorPattern \<Rightarrow> CoActorGroup" where
  "NewCoActorGroup i pattern =
     \<lparr>g_id = i, g_pattern = pattern, g_members = Map.empty,
      g_vector = \<lparr>gv_Phase = GroupPhaseForming, gv_Pattern = pattern, gv_Transfer = TransferUninitialized\<rparr>,
      currentEpoch = 0, activeFence = None\<rparr>"

definition AddMember :: "CoActorGroup \<Rightarrow> string \<Rightarrow> MemberRole \<Rightarrow> nat \<Rightarrow> string list \<Rightarrow> CoActorGroup" where
  "AddMember g name role actr dependsOn =
     g\<lparr>g_members := (g_members g)(name \<mapsto>
        \<lparr>cm_Name = name, cm_Role = role, cm_Actor = actr, DependsOn = dependsOn\<rparr>)\<rparr>"

definition member_ready :: "co_store \<Rightarrow> CoactorMember \<Rightarrow> bool" where
  "member_ready st m \<longleftrightarrow>
     (let sv = a_vector (actors st (cm_Actor m))
      in av_Lifecycle sv = ActorActive \<and> av_Residency sv = ResidencyResident)"

fun count_ready :: "co_store \<Rightarrow> (string \<rightharpoonup> CoactorMember) \<Rightarrow> string list \<Rightarrow> nat \<Rightarrow> nat" where
  "count_ready st ms [] n = n"
| "count_ready st ms (k # ks) n = (case ms k of
       None \<Rightarrow> count_ready st ms ks n
     | Some m \<Rightarrow> count_ready st ms ks (if member_ready st m then n + 1 else n))"

definition RefreshPhase :: "string list \<Rightarrow> co_store \<Rightarrow> CoActorGroup \<Rightarrow> CoActorGroup \<times> CoactorGroupPhase" where
  "RefreshPhase ks st g =
     (let phase =
        (if length ks = 0 then GroupPhaseDissolved
         else
          (let readyCount = count_ready st (g_members g) ks 0
           in if readyCount = length ks then GroupPhaseReady
              else if readyCount > 0 then GroupPhaseDegraded
              else GroupPhaseForming))
      in (g\<lparr>g_vector := (g_vector g)\<lparr>gv_Phase := phase\<rparr>\<rparr>, phase))"

fun findMemberByRole :: "string list \<Rightarrow> CoActorGroup \<Rightarrow> MemberRole \<Rightarrow> actor_error + CoactorMember" where
  "findMemberByRole [] g role = Inl ErrMemberNotFound"
| "findMemberByRole (k # ks) g role = (case g_members g k of
       None \<Rightarrow> findMemberByRole ks g role
     | Some m \<Rightarrow> if cm_Role m = role then Inr m else findMemberByRole ks g role)"

definition set_transfer :: "CoActorGroup \<Rightarrow> TransferPhase_co \<Rightarrow> CoActorGroup" where
  "set_transfer g p = g\<lparr>g_vector := (g_vector g)\<lparr>gv_Transfer := p\<rparr>\<rparr>"

definition set_actor :: "co_store \<Rightarrow> nat \<Rightarrow> Actor \<Rightarrow> co_store" where
  "set_actor st x a = st\<lparr>actors := (actors st)(x := a)\<rparr>"

definition set_cache :: "co_store \<Rightarrow> nat \<Rightarrow> SessionCacheState \<Rightarrow> co_store" where
  "set_cache st s c = st\<lparr>sessions := (sessions st)(s := SetCacheState (sessions st s) c)\<rparr>"

definition InitiatePrefill :: "string list \<Rightarrow> co_store \<Rightarrow> CoActorGroup \<Rightarrow> nat \<Rightarrow> gotime \<Rightarrow> co_result" where
  "InitiatePrefill ks st g session timeNow =
     (if g_pattern g \<noteq> PatternPrefillDecode then (st, g, Some ErrInvalidPattern)
      else if gv_Phase (g_vector g) \<noteq> GroupPhaseReady then (st, g, Some ErrInvalidTransition_a)
      else
       (case findMemberByRole ks g RolePrefill of
          Inl e \<Rightarrow> (st, g, Some e)
        | Inr prefillMember \<Rightarrow>
           (case AcquireSlot (actors st (cm_Actor prefillMember)) timeNow of
              (a, Some e) \<Rightarrow> (set_actor st (cm_Actor prefillMember) a, g, Some e)
            | (a, None) \<Rightarrow>
                (set_cache (set_actor st (cm_Actor prefillMember) a) session CacheWarming,
                 set_transfer g TransferPrefilling, None))))"

text \<open>\<open>CreateTransferFence\<close> allocates the fence; on success its address is returned.\<close>

definition CreateTransferFence :: "string list \<Rightarrow> string list \<Rightarrow> co_store \<Rightarrow> CoActorGroup \<Rightarrow> nat \<Rightarrow> int \<Rightarrow> string
    \<Rightarrow> duration \<Rightarrow> gotime \<Rightarrow> co_store \<times> CoActorGroup \<times> (actor_error + nat)" where
  "CreateTransferFence ks1 ks2 st g session tokens digest lifetime now =
     (if g_pattern g \<noteq> PatternPrefillDecode then (st, g, Inl ErrInvalidPattern)
      else
       (case findMemberByRole ks1 g RolePrefill of
          Inl e \<Rightarrow> (st, g, Inl e)
        | Inr prefill \<Rightarrow>
           (case findMemberByRole ks2 g RoleDecode of
              Inl e \<Rightarrow> (st, g, Inl e)
            | Inr decode \<Rightarrow>
               (let ep = currentEpoch g + 1;
                    fence = \<lparr>Epoch = ep, SessionID = s_id (sessions st session),
                      PrefillActorID = a_id (actors st (cm_Actor prefill)),
                      DecodeActorID = a_id (actors st (cm_Actor decode)),
                      PrefixTokens = tokens, tf_Digest = digest, Mechanism = TransferMechanismOther '''',
                      tf_CreatedAt = now, tf_ExpiresAt = time_add now lifetime\<rparr>;
                    x = next_fence st
                in (set_cache (st\<lparr>fences := (fences st)(x := fence), next_fence := Suc x\<rparr>) session CacheFenced,
                    set_transfer (g\<lparr>currentEpoch := ep, activeFence := Some x\<rparr>) TransferFenced,
                    Inr x)))))"

definition stale :: "co_store \<Rightarrow> CoActorGroup \<Rightarrow> nat option \<Rightarrow> bool" where
  "stale st g fence \<longleftrightarrow> (case fence of None \<Rightarrow> True | Some x \<Rightarrow> Epoch (fences st x) \<noteq> currentEpoch g)"

definition BeginTransfer :: "co_store \<Rightarrow> CoActorGroup \<Rightarrow> nat option \<Rightarrow> TransferMechanism \<Rightarrow> co_result" where
  "BeginTransfer st g fence mech =
     (if stale st g fence then (st, g, Some ErrStaleFence)
      else if gv_Transfer (g_vector g) \<noteq> TransferFenced then (st, g, Some ErrInvalidTransition_a)
      else
       (let x = the fence
        in (st\<lparr>fences := (fences st)(x := (fences st x)\<lparr>Mechanism := mech\<rparr>)\<rparr>,
            set_transfer g TransferTransmitting, None)))"

definition release_prefill :: "string list \<Rightarrow> co_store \<Rightarrow> CoActorGroup \<Rightarrow> gotime \<Rightarrow> co_store" where
  "release_prefill ks st g now = (case findMemberByRole ks g RolePrefill of
       Inl _ \<Rightarrow> st
     | Inr prefillMember \<Rightarrow>
         set_actor st (cm_Actor prefillMember) (fst (ReleaseSlot (actors st (cm_Actor prefillMember)) now)))"

definition VerifyAndCompleteHandoff :: "string list \<Rightarrow> string list \<Rightarrow> co_store \<Rightarrow> CoActorGroup \<Rightarrow> nat option
    \<Rightarrow> string \<Rightarrow> string \<Rightarrow> gotime \<Rightarrow> nat \<Rightarrow> co_result" where
  "VerifyAndCompleteHandoff ks1 ks2 st g fence receivedDigest decodeEndpoint now session =
     (if stale st g fence then (st, g, Some ErrStaleFence)
      else
       (let f = fences st (the fence) in
        if now > tf_ExpiresAt f then (st, set_transfer g TransferFailed, Some ErrFenceExpired)
        else if tf_Digest f \<noteq> receivedDigest
        then (set_cache st session CacheEmpty, set_transfer g TransferFailed, Some ErrDigestMismatch)
        else
         (case findMemberByRole ks1 g RoleDecode of
            Inl e \<Rightarrow> (st, g, Some e)
          | Inr decodeMember \<Rightarrow>
             (case AcquireSlot (actors st (cm_Actor decodeMember)) now of
                (a, Some e) \<Rightarrow> (set_actor st (cm_Actor decodeMember) a, set_transfer g TransferFailed, Some e)
              | (a, None) \<Rightarrow>
                 (let st1 = release_prefill ks2 (set_actor st (cm_Actor decodeMember) a) g now;
                      st2 = set_cache st1 session CacheTransferred;
                      (s, err) = BindEndpoint (sessions st2 session) decodeEndpoint
                  in (st2\<lparr>sessions := (sessions st2)(session := s)\<rparr>, set_transfer g TransferCompleted, err))))))"

definition AbortTransfer :: "co_store \<Rightarrow> CoActorGroup \<Rightarrow> nat option \<Rightarrow> string \<Rightarrow> co_result" where
  "AbortTransfer st g fence reason =
     (if stale st g fence then (st, g, Some ErrStaleFence)
      else (st, (set_transfer g TransferAborted)\<lparr>g_vector :=
          (g_vector (set_transfer g TransferAborted))\<lparr>gv_Phase := GroupPhaseDegraded\<rparr>\<rparr>, None))"

section \<open>Histories\<close>

text \<open>The calls on a group, and those on the actors and sessions that others make meanwhile.\<close>

datatype co_op = CallAddMember string MemberRole nat "string list"
  | CallRefreshPhase "string list"
  | CallInitiatePrefill "string list" nat gotime
  | CallCreateTransferFence "string list" "string list" nat int string duration gotime
  | CallBeginTransfer "nat option" TransferMechanism
  | CallVerifyHandoff "string list" "string list" "nat option" string string gotime nat
  | CallAbortTransfer "nat option" string
  | CallActor nat actor_op
  | CallSession nat session_op

fun co_step :: "co_store \<times> CoActorGroup \<Rightarrow> co_op \<Rightarrow> co_store \<times> CoActorGroup" where
  "co_step (st, g) (CallAddMember name role x deps) = (st, AddMember g name role x deps)"
| "co_step (st, g) (CallRefreshPhase ks) = (st, fst (RefreshPhase ks st g))"
| "co_step (st, g) (CallInitiatePrefill ks s now) =
     (let (st', g', _) = InitiatePrefill ks st g s now in (st', g'))"
| "co_step (st, g) (CallCreateTransferFence ks1 ks2 s tok dig life now) =
     (let (st', g', _) = CreateTransferFence ks1 ks2 st g s tok dig life now in (st', g'))"
| "co_step (st, g) (CallBeginTransfer fence mech) = (let (st', g', _) = BeginTransfer st g fence mech in (st', g'))"
| "co_step (st, g) (CallVerifyHandoff ks1 ks2 fence dig ep now s) =
     (let (st', g', _) = VerifyAndCompleteHandoff ks1 ks2 st g fence dig ep now s in (st', g'))"
| "co_step (st, g) (CallAbortTransfer fence reason) = (let (st', g', _) = AbortTransfer st g fence reason in (st', g'))"
| "co_step (st, g) (CallActor x op) = (set_actor st x (fst (actor_call (actors st x) op)), g)"
| "co_step (st, g) (CallSession s op) =
     (st\<lparr>sessions := (sessions st)(s := fst (session_call (sessions st s) op))\<rparr>, g)"

definition co_run :: "co_store \<times> CoActorGroup \<Rightarrow> co_op list \<Rightarrow> co_store \<times> CoActorGroup" where
  "co_run = foldl co_step"

text \<open>The number of fences a history created.\<close>

fun created :: "co_store \<times> CoActorGroup \<Rightarrow> co_op \<Rightarrow> nat" where
  "created (st, g) (CallCreateTransferFence ks1 ks2 s tok dig life now) =
     (case CreateTransferFence ks1 ks2 st g s tok dig life now of (_, _, Inr _) \<Rightarrow> 1 | _ \<Rightarrow> 0)"
| "created _ _ = 0"

fun creations :: "co_store \<times> CoActorGroup \<Rightarrow> co_op list \<Rightarrow> nat" where
  "creations c [] = 0"
| "creations c (op # ops) = created c op + creations (co_step c op) ops"


text \<open>The fence fields that are fixed at creation.\<close>

definition fence_terms :: "TransferFence \<Rightarrow> u64 \<times> string \<times> gotime" where
  "fence_terms f = (Epoch f, tf_Digest f, tf_ExpiresAt f)"

text \<open>A group of a prefill and a decode actor, for the witnesses.\<close>

definition sample_actor :: "string \<Rightarrow> Actor" where
  "sample_actor i = actor_run (NewActor i ActorTypeModel 4 ReentrancyAllowed 0 1)
     [CallActivate 1, CallSetResidency ResidencyResident]"

definition sample_store :: co_store where
  "sample_store = \<lparr>actors = (\<lambda>x. if x = 0 then sample_actor ''p'' else sample_actor ''d''),
     sessions = (\<lambda>_. NewInferenceSession ''s'' ''m'' '''' '''' 0 0 1),
     fences = (\<lambda>_. \<lparr>Epoch = 0, SessionID = '''', PrefillActorID = '''', DecodeActorID = '''',
       PrefixTokens = 0, tf_Digest = '''', Mechanism = TransferTCP, tf_CreatedAt = 0, tf_ExpiresAt = 0\<rparr>),
     next_fence = 0\<rparr>"

definition sample_group :: CoActorGroup where
  "sample_group = fst (RefreshPhase [''p'', ''d''] sample_store
     (AddMember (AddMember (NewCoActorGroup ''g'' PatternPrefillDecode) ''p'' RolePrefill 0 [])
        ''d'' RoleDecode 1 []))"

section \<open>Lemmas\<close>

lemmas co_defs = set_transfer_def set_actor_def set_cache_def

lemma co_simps [simp]:
  "actors (set_cache st s c) = actors st" "fences (set_cache st s c) = fences st"
  "next_fence (set_cache st s c) = next_fence st"
  "sessions (set_cache st s c) = (sessions st)(s := SetCacheState (sessions st s) c)"
  "actors (set_actor st x a) = (actors st)(x := a)" "fences (set_actor st x a) = fences st"
  "next_fence (set_actor st x a) = next_fence st" "sessions (set_actor st x a) = sessions st"
  "currentEpoch (set_transfer g p) = currentEpoch g" "g_members (set_transfer g p) = g_members g"
  "g_pattern (set_transfer g p) = g_pattern g" "gv_Transfer (g_vector (set_transfer g p)) = p"
  "gv_Phase (g_vector (set_transfer g p)) = gv_Phase (g_vector g)"
  by (simp_all add: co_defs)

lemma release_prefill_simps [simp]:
  "fences (release_prefill ks st g now) = fences st" "sessions (release_prefill ks st g now) = sessions st"
  "next_fence (release_prefill ks st g now) = next_fence st"
  by (simp_all add: release_prefill_def split: sum.splits)

lemma find_member_cong: "g_members g = g_members h \<Longrightarrow> findMemberByRole ks g r = findMemberByRole ks h r"
  by (induction ks) (simp_all split: option.splits)




lemma co_step_fences:
  assumes "co_step (st, g) op = (st', g')"
  shows "next_fence st \<le> next_fence st' \<and> currentEpoch g' = currentEpoch g + of_nat (created (st, g) op) \<and>
    (\<forall>x < next_fence st. fence_terms (fences st' x) = fence_terms (fences st x))"
  using assms
  by (cases op) (auto simp: AddMember_def RefreshPhase_def InitiatePrefill_def CreateTransferFence_def
      BeginTransfer_def VerifyAndCompleteHandoff_def AbortTransfer_def fence_terms_def Let_def
      split: if_splits sum.splits prod.splits option.splits)

lemma co_run_fences:
  assumes "co_run (st, g) ops = (st', g')"
  shows "next_fence st \<le> next_fence st' \<and> currentEpoch g' = currentEpoch g + of_nat (creations (st, g) ops) \<and>
    (\<forall>x < next_fence st. fence_terms (fences st' x) = fence_terms (fences st x))"
  using assms unfolding co_run_def
proof (induction ops arbitrary: st g)
  case (Cons op ops)
  obtain st1 g1 where s: "co_step (st, g) op = (st1, g1)" by fastforce
  from co_step_fences [OF s] Cons.IH [of st1 g1] Cons.prems show ?case by (simp add: s)
qed simp





lemma create_fence_ok:
  assumes "CreateTransferFence ks1 ks2 st g s tok dig life now = (st', g', Inr x)"
  shows "x = next_fence st \<and> next_fence st' = Suc x \<and>
    fence_terms (fences st' x) = (currentEpoch g', dig, time_add now life) \<and>
    currentEpoch g' = currentEpoch g + 1 \<and> gv_Transfer (g_vector g') = TransferFenced \<and>
    actors st' = actors st \<and> g_members g' = g_members g \<and>
    sessions st' = (sessions st)(s := SetCacheState (sessions st s) CacheFenced)"
  using assms by (auto simp: CreateTransferFence_def fence_terms_def Let_def set_transfer_def
      split: if_splits sum.splits)

lemma stale_refused:
  assumes "stale st g fence"
  shows "BeginTransfer st g fence mech = (st, g, Some ErrStaleFence)"
    "VerifyAndCompleteHandoff ks1 ks2 st g fence dig ep now s = (st, g, Some ErrStaleFence)"
    "AbortTransfer st g fence reason = (st, g, Some ErrStaleFence)"
  using assms by (simp_all add: BeginTransfer_def VerifyAndCompleteHandoff_def AbortTransfer_def)



lemma sample_actor_facts [simp]:
  "actor_inv (sample_actor i)" "snd (AcquireSlot (sample_actor i) t) = None"
  "activeSlots (sample_actor i) = 0" "av_Lifecycle (a_vector (sample_actor i)) = ActorActive"
  "av_Residency (a_vector (sample_actor i)) = ResidencyResident"
  by (simp_all add: sample_actor_def actor_run_def NewActor_def Activate_def SetResidency_def
      AcquireSlot_def actor_inv_def Let_def)


lemma sample_group_facts:
  "g_members sample_group =
     [''p'' \<mapsto> \<lparr>cm_Name = ''p'', cm_Role = RolePrefill, cm_Actor = 0, DependsOn = []\<rparr>,
      ''d'' \<mapsto> \<lparr>cm_Name = ''d'', cm_Role = RoleDecode, cm_Actor = 1, DependsOn = []\<rparr>]"
  "g_pattern sample_group = PatternPrefillDecode" "gv_Phase (g_vector sample_group) = GroupPhaseReady"
  by (simp_all add: sample_group_def sample_store_def RefreshPhase_def NewCoActorGroup_def
      AddMember_def member_ready_def Let_def)

section \<open>Properties\<close>

text \<open>
  C14. A transfer fence is good exactly until the next fence of its group is created. After a
  fence was created, let any calls on the group, its actors and its sessions happen that create
  \<open>n\<close> further fences, fewer than \<open>2^64\<close>. The fence is stale exactly when \<open>n\<close> is positive, and
  then beginning the transfer, completing the handoff and aborting with it are all refused with
  \<open>ErrStaleFence\<close> and change nothing; a nil fence is always refused.
\<close>

theorem stale_fence_refused:
  assumes "CreateTransferFence ks1 ks2 st g s tok dig life now = (st1, g1, Inr x)"
    and "co_run (st1, g1) ops = (st2, g2)" and "creations (st1, g1) ops < 2 ^ 64"
  shows "(stale st2 g2 (Some x) \<longleftrightarrow> 0 < creations (st1, g1) ops) \<and>
    (\<forall>f. stale st2 g2 f \<longrightarrow>
       BeginTransfer st2 g2 f mech = (st2, g2, Some ErrStaleFence) \<and>
       VerifyAndCompleteHandoff ks3 ks4 st2 g2 f dig' ep now' s' = (st2, g2, Some ErrStaleFence) \<and>
       AbortTransfer st2 g2 f reason = (st2, g2, Some ErrStaleFence)) \<and>
    stale st2 g2 None"
proof -
  let ?n = "creations (st1, g1) ops"
  have "x < next_fence st1" "Epoch (fences st1 x) = currentEpoch g1"
    using create_fence_ok [OF assms(1)] by (auto simp: fence_terms_def)
  with co_run_fences [OF assms(2)]
  have "Epoch (fences st2 x) = currentEpoch g1" "currentEpoch g2 = currentEpoch g1 + of_nat ?n"
    by (auto simp: fence_terms_def)
  then have "stale st2 g2 (Some x) \<longleftrightarrow> of_nat ?n \<noteq> (0 :: u64)" by (simp add: stale_def)
  also have "\<dots> \<longleftrightarrow> 0 < ?n" using assms(3) by (auto simp: word_of_nat_eq_0_iff dest: dvd_imp_le intro: gr0I)
  finally show ?thesis by (simp add: stale_refused) (simp add: stale_def)
qed

theorem stale_fence_refused_witness:
  "let (st1, g1, r) = CreateTransferFence [''p'', ''d''] [''p'', ''d''] sample_store sample_group 0 8 ''dg'' 10 5;
       (st2, g2) = co_run (st1, g1) [CallCreateTransferFence [''d'', ''p''] [''p'', ''d''] 0 8 ''dg2'' 10 6]
   in r = Inr 0 \<and> AbortTransfer st2 g2 (Some 0) ''x'' = (st2, g2, Some ErrStaleFence)"
proof -
  let ?op = "CallCreateTransferFence [''d'', ''p''] [''p'', ''d''] 0 8 ''dg2'' 10 6"
  obtain st1 g1 where c: "CreateTransferFence [''p'', ''d''] [''p'', ''d''] sample_store sample_group 0 8 ''dg'' 10 5
      = (st1, g1, Inr 0)" and g1: "g_members g1 = g_members sample_group" "g_pattern g1 = PatternPrefillDecode"
    by (simp add: CreateTransferFence_def sample_group_facts sample_store_def Let_def)
  obtain st2 g2 where r: "co_run (st1, g1) [?op] = (st2, g2)" by fastforce
  have "creations (st1, g1) [?op] = 1"
    using g1 by (simp add: CreateTransferFence_def sample_group_facts Let_def)
  then show ?thesis using stale_fence_refused [OF c r] by (simp add: c r)
qed





end
