(* ===== verification/Go_Heap.thy ===== *)
theory Go_Heap
  imports Prelude "HOL-Library.Multiset"
begin

text \<open>
  The standard library's \<open>container/heap\<close>, which \<open>src/internal/scheduler/token_queue.go\<close> uses for
  its request heap. As in Go the algorithms know the container only through \<open>heap.Interface\<close>:
  \<open>lt s i j\<close> and \<open>swap s i j\<close> are its methods on a container state \<open>s\<close>. The locale
  \<open>heap_interface\<close> states what the algorithms need of an implementation and proves once that
  they restore the heap order and only permute the elements.
\<close>

section \<open>The algorithms\<close>

definition parent :: "nat \<Rightarrow> nat" where
  "parent j = (j - 1) div 2"

lemma parent_less: "0 < j \<Longrightarrow> parent j < j"
  by (simp add: parent_def)

lemma parent_eq: "parent j = j \<longleftrightarrow> j = 0"
  by (cases "j = 0") (auto simp: parent_def dest: parent_less)

lemma parent_0 [simp]: "parent 0 = 0"
  by (simp add: parent_def)

lemma parent_le: "parent j \<le> j"
  by (simp add: parent_def)

lemma parent_children: "0 < c \<Longrightarrow> parent c = i \<longleftrightarrow> c = 2 * i + 1 \<or> c = 2 * i + 2"
  by (auto simp: parent_def)

function heap_up :: "('s \<Rightarrow> nat \<Rightarrow> nat \<Rightarrow> bool) \<Rightarrow> ('s \<Rightarrow> nat \<Rightarrow> nat \<Rightarrow> 's) \<Rightarrow> 's \<Rightarrow> nat \<Rightarrow> 's" where
  "heap_up lt swap s j =
     (let i = parent j
      in if i = j \<or> \<not> lt s j i then s else heap_up lt swap (swap s i j) i)"
  by pat_completeness auto
termination
  by (relation "measure (\<lambda>(_, _, _, j). j)") (auto simp: parent_def)

text \<open>The child of \<open>i\<close> that \<open>down\<close> compares with, where \<open>2 * i + 1 < n\<close>.\<close>

definition best_child :: "('s \<Rightarrow> nat \<Rightarrow> nat \<Rightarrow> bool) \<Rightarrow> 's \<Rightarrow> nat \<Rightarrow> nat \<Rightarrow> nat" where
  "best_child lt s i n =
     (if 2 * i + 2 < n \<and> lt s (2 * i + 2) (2 * i + 1) then 2 * i + 2 else 2 * i + 1)"

text \<open>\<open>heap_down\<close> returns the state and the index where the element came to rest.\<close>

function heap_down :: "('s \<Rightarrow> nat \<Rightarrow> nat \<Rightarrow> bool) \<Rightarrow> ('s \<Rightarrow> nat \<Rightarrow> nat \<Rightarrow> 's) \<Rightarrow> 's \<Rightarrow> nat \<Rightarrow> nat \<Rightarrow> 's \<times> nat" where
  "heap_down lt swap s i n =
     (if 2 * i + 1 \<ge> n then (s, i)
      else
       (let j = best_child lt s i n
        in if \<not> lt s j i then (s, i) else heap_down lt swap (swap s i j) j n))"
  by pat_completeness auto
termination
  by (relation "measure (\<lambda>(_, _, _, i, n). n - i)") (auto simp: best_child_def)

declare heap_up.simps [simp del] heap_down.simps [simp del]

text \<open>\<open>heap.Push\<close>, \<open>heap.Pop\<close> and \<open>heap.Remove\<close>; \<open>push\<close>, \<open>pop\<close> and \<open>len\<close> are the container's methods.\<close>

definition heap_Push where
  "heap_Push lt swap len push s x = (let s = push s x in heap_up lt swap s (len s - 1))"

definition heap_Pop where
  "heap_Pop lt swap len pop s =
     (let n = len s - 1; s = swap s 0 n in pop (fst (heap_down lt swap s 0 n)))"

definition heap_Remove where
  "heap_Remove lt swap len pop s i =
     (let n = len s - 1;
          s = (if n \<noteq> i
               then let s = swap s i n; (s, m) = heap_down lt swap s i n
                    in if m > i then s else heap_up lt swap s i
               else s)
      in pop s)"

text \<open>Heap order of a list under a key: no element has a larger key than its parent.\<close>

definition is_heap :: "('a \<Rightarrow> 'k :: linorder) \<Rightarrow> 'a list \<Rightarrow> bool" where
  "is_heap key xs \<longleftrightarrow> (\<forall>c. 0 < c \<and> c < length xs \<longrightarrow> key (xs ! c) \<le> key (xs ! parent c))"

lemma is_heap_take:
  "is_heap key (take n xs) \<longleftrightarrow> (\<forall>c. 0 < c \<and> c < n \<and> c < length xs \<longrightarrow> key (xs ! c) \<le> key (xs ! parent c))"
proof -
  have "take n xs ! parent c = xs ! parent c" if "0 < c" "c < n" for c
    using parent_less [of c] that by simp
  then show ?thesis by (auto simp: is_heap_def)
qed

lemma is_heap_cong:
  assumes "\<And>x. x \<in> set xs \<Longrightarrow> f x = g x"
  shows "is_heap f xs \<longleftrightarrow> is_heap g xs"
proof -
  have "f (xs ! c) = g (xs ! c)" "f (xs ! parent c) = g (xs ! parent c)" if "c < length xs" for c
    using assms that le_less_trans [OF parent_le that] by simp_all
  then show ?thesis by (simp add: is_heap_def)
qed

lemma heap_root_max:
  assumes "is_heap key xs" "c < length xs"
  shows "key (xs ! c) \<le> key (xs ! 0)"
  using assms(2)
proof (induction c rule: less_induct)
  case (less c)
  show ?case
  proof (cases "c = 0")
    case False
    then have "key (xs ! c) \<le> key (xs ! parent c)" using assms(1) less.prems by (simp add: is_heap_def)
    also have "\<dots> \<le> key (xs ! 0)" using less.IH [of "parent c"] less.prems parent_less [of c] False by force
    finally show ?thesis .
  qed simp
qed

section \<open>Correctness over the interface\<close>

locale heap_interface =
  fixes lt :: "'s \<Rightarrow> nat \<Rightarrow> nat \<Rightarrow> bool" and swap :: "'s \<Rightarrow> nat \<Rightarrow> nat \<Rightarrow> 's"
    and elems :: "'s \<Rightarrow> 'a list" and key :: "'s \<Rightarrow> 'a \<Rightarrow> 'k :: linorder" and inv :: "'s \<Rightarrow> bool"
  assumes less_key: "inv s \<Longrightarrow> i < length (elems s) \<Longrightarrow> j < length (elems s) \<Longrightarrow>
      lt s i j \<longleftrightarrow> key s (elems s ! j) < key s (elems s ! i)"
    and swap_elems: "inv s \<Longrightarrow> i < length (elems s) \<Longrightarrow> j < length (elems s) \<Longrightarrow>
      elems (swap s i j) = (elems s)[i := elems s ! j, j := elems s ! i]"
    and swap_key: "inv s \<Longrightarrow> i < length (elems s) \<Longrightarrow> j < length (elems s) \<Longrightarrow> key (swap s i j) = key s"
    and swap_inv: "inv s \<Longrightarrow> i < length (elems s) \<Longrightarrow> j < length (elems s) \<Longrightarrow> inv (swap s i j)"
begin

definition prio :: "'s \<Rightarrow> nat \<Rightarrow> 'k" where
  "prio s i = key s (elems s ! i)"

text \<open>The first \<open>n\<close> positions are in heap order, the edges selected by \<open>ok\<close> at least.\<close>

definition ordered :: "(nat \<Rightarrow> bool) \<Rightarrow> 's \<Rightarrow> nat \<Rightarrow> bool" where
  "ordered ok s n \<longleftrightarrow> (\<forall>c. 0 < c \<and> c < n \<and> ok c \<longrightarrow> prio s c \<le> prio s (parent c))"

definition bridged :: "'s \<Rightarrow> nat \<Rightarrow> nat \<Rightarrow> bool" where
  "bridged s n i \<longleftrightarrow> (\<forall>c. 0 < i \<and> 0 < c \<and> c < n \<and> parent c = i \<longrightarrow> prio s c \<le> prio s (parent i))"

lemma orderedD: "ordered ok s n \<Longrightarrow> 0 < c \<Longrightarrow> c < n \<Longrightarrow> ok c \<Longrightarrow> prio s c \<le> prio s (parent c)"
  by (simp add: ordered_def)

lemma bridgedD: "bridged s n i \<Longrightarrow> 0 < i \<Longrightarrow> 0 < c \<Longrightarrow> c < n \<Longrightarrow> parent c = i \<Longrightarrow> prio s c \<le> prio s (parent i)"
  by (simp add: bridged_def)

lemma prio_swap:
  assumes "inv s" "i < length (elems s)" "j < length (elems s)" "x < length (elems s)"
  shows "prio (swap s i j) x = (if x = i then prio s j else if x = j then prio s i else prio s x)"
  using assms by (simp add: prio_def swap_elems swap_key nth_list_update)

lemma less_prio:
  "inv s \<Longrightarrow> i < length (elems s) \<Longrightarrow> j < length (elems s) \<Longrightarrow> lt s i j \<longleftrightarrow> prio s j < prio s i"
  by (simp add: prio_def less_key)

text \<open>What every rearrangement keeps: the elements, and those from position \<open>n\<close> on in place.\<close>

definition rearranged :: "nat \<Rightarrow> 's \<Rightarrow> 's \<Rightarrow> bool" where
  "rearranged n s s' \<longleftrightarrow> inv s' \<and> mset (elems s') = mset (elems s) \<and> key s' = key s \<and>
     drop n (elems s') = drop n (elems s)"

lemma rearranged_length: "rearranged n s s' \<Longrightarrow> length (elems s') = length (elems s)"
  unfolding rearranged_def by (metis size_mset)

lemma rearranged_trans: "rearranged n s s' \<Longrightarrow> rearranged n s' s'' \<Longrightarrow> rearranged n s s''"
  by (simp add: rearranged_def)

lemma rearranged_refl: "inv s \<Longrightarrow> rearranged n s s"
  by (simp add: rearranged_def)

lemma swap_rearranged:
  assumes "inv s" "i < n" "j < n" "n \<le> length (elems s)"
  shows "rearranged n s (swap s i j)"
  using assms by (simp add: rearranged_def swap_inv swap_elems swap_key mset_swap)

lemma up_spec:
  assumes "inv s" "j < n" "n \<le> length (elems s)" "ordered (\<lambda>c. c \<noteq> j) s n" "bridged s n j"
  shows "rearranged n s (heap_up lt swap s j) \<and> ordered (\<lambda>_. True) (heap_up lt swap s j) n"
  using assms
proof (induction j arbitrary: s rule: less_induct)
  case (less j)
  let ?i = "parent j"
  show ?case
  proof (cases "?i = j \<or> \<not> lt s j ?i")
    case True
    then have "prio s j \<le> prio s ?i"
      using less.prems less_prio [of s j ?i] parent_less [of j] by (cases "j = 0") auto
    with less.prems(4) have "ordered (\<lambda>_. True) s n" by (auto simp: ordered_def)
    moreover have "heap_up lt swap s j = s" using True by (subst heap_up.simps) (simp add: Let_def)
    ultimately show ?thesis using less.prems(1) by (simp add: rearranged_refl)
  next
    case False
    then have i: "?i < j" "0 < j" using parent_less [of j] by (auto simp: parent_eq)
    let ?t = "swap s ?i j"
    have gt: "prio s ?i < prio s j" using False less.prems i less_prio [of s j ?i] by simp
    have t: "prio ?t c = (if c = ?i then prio s j else if c = j then prio s ?i else prio s c)" if "c < n" for c
      using prio_swap [of s ?i j c] less.prems(1-3) i that by simp
    have re: "rearranged n s ?t" using less.prems i by (intro swap_rearranged) auto
    have "prio ?t c \<le> prio ?t (parent c)" if c: "0 < c" "c < n" "c \<noteq> ?i" for c
    proof -
      have pc: "parent c < c" "parent c < n" using parent_less [of c] c by simp_all
      consider "c = j" | "parent c = j" "c \<noteq> j" | "parent c = ?i" "c \<noteq> j" | "c \<noteq> j" "parent c \<noteq> j" "parent c \<noteq> ?i"
        by blast
      then show ?thesis
      proof cases
        case 1
        then show ?thesis using t [of j] t [of ?i] gt i less.prems(2) by simp
      next
        case 2
        then have "prio s c \<le> prio s ?i" using bridgedD [OF less.prems(5), of c] c i by simp
        then show ?thesis using 2 t [of c] t [of j] c i less.prems(2) by simp
      next
        case 3
        then have "prio s c \<le> prio s ?i" using orderedD [OF less.prems(4), of c] c by simp
        then show ?thesis using 3 t [of c] t [of ?i] gt c i less.prems(2) by simp
      next
        case 4
        then have "prio s c \<le> prio s (parent c)" using orderedD [OF less.prems(4), of c] c by simp
        then show ?thesis using 4 t [of c] t [of "parent c"] c pc by simp
      qed
    qed
    then have "ordered (\<lambda>c. c \<noteq> ?i) ?t n" by (simp add: ordered_def)
    moreover have "bridged ?t n ?i"
      unfolding bridged_def
    proof (intro allI impI)
      fix c assume c: "0 < ?i \<and> 0 < c \<and> c < n \<and> parent c = ?i"
      have up: "prio s ?i \<le> prio s (parent ?i)" using orderedD [OF less.prems(4), of ?i] less.prems(2) c i by simp
      have "prio s c \<le> prio s (parent ?i)" if "c \<noteq> j"
        using orderedD [OF less.prems(4), of c] c that up by (metis order_trans)
      moreover have "parent ?i < ?i" using parent_less [of ?i] c by simp
      moreover have "c \<noteq> ?i" using parent_less [of c] c by auto
      ultimately show "prio ?t c \<le> prio ?t (parent ?i)"
        using t [of c] t [of "parent ?i"] up c i less.prems(2) by simp
    qed
    ultimately have "rearranged n ?t (heap_up lt swap ?t ?i) \<and> ordered (\<lambda>_. True) (heap_up lt swap ?t ?i) n"
      using less.IH [of ?i ?t] i re rearranged_length [OF re] less.prems(2,3) by (simp add: rearranged_def)
    moreover have "heap_up lt swap s j = heap_up lt swap ?t ?i"
      using False by (subst heap_up.simps) (simp add: Let_def)
    ultimately show ?thesis using rearranged_trans [OF re] by simp
  qed
qed

lemma best_child_cases:
  assumes "inv s" "n \<le> length (elems s)" "2 * i + 1 < n" and "j = best_child lt s i n"
  shows "j < n" "parent j = i" "0 < j" "i < j"
    and "\<And>c. 0 < c \<Longrightarrow> c < n \<Longrightarrow> parent c = i \<Longrightarrow> prio s c \<le> prio s j"
proof -
  show j: "j < n" "parent j = i" "0 < j" "i < j"
    using assms(3,4) parent_children [of j i] by (auto simp: best_child_def)
  fix c assume c: "0 < c" "c < n" "parent c = i"
  then have "c = 2 * i + 1 \<or> c = 2 * i + 2" by (simp add: parent_children)
  moreover have "lt s (2 * i + 2) (2 * i + 1) \<longleftrightarrow> prio s (2 * i + 1) < prio s (2 * i + 2)" if "2 * i + 2 < n"
    using less_prio [OF assms(1)] assms(2) that by simp
  ultimately show "prio s c \<le> prio s j"
    using c(2) assms(4) by (auto simp: best_child_def)
qed

text \<open>One step of \<open>down\<close>: the swap moves the violation to the child.\<close>

lemma down_step:
  assumes "inv s" "n \<le> length (elems s)" "2 * i + 1 < n" and j: "j = best_child lt s i n"
    and "lt s j i" and "ordered (\<lambda>c. c \<noteq> i \<and> parent c \<noteq> i) s n" "bridged s n i"
  shows "rearranged n s (swap s i j) \<and> ordered (\<lambda>c. parent c \<noteq> j) (swap s i j) n \<and> bridged (swap s i j) n j"
proof -
  note bc = best_child_cases [OF assms(1-4)]
  let ?t = "swap s i j"
  have gt: "prio s i < prio s j" using assms(2,3,5) bc less_prio [OF assms(1), of j i] by simp
  have t: "prio ?t c = (if c = i then prio s j else if c = j then prio s i else prio s c)" if "c < n" for c
    using prio_swap [OF assms(1), of i j c] assms(2) bc(1,4) that by simp
  have "prio ?t c \<le> prio ?t (parent c)" if c: "0 < c" "c < n" "parent c \<noteq> j" for c
  proof -
    have pc: "parent c < c" "parent c < n" using parent_less [of c] c by simp_all
    consider "parent c = i" | "c = i" "parent c \<noteq> i" | "c \<noteq> i" "parent c \<noteq> i" by blast
    then show ?thesis
    proof cases
      case 1
      then have "prio s c \<le> prio s j" using bc(5) c by simp
      then show ?thesis using 1 c pc t [of c] t [of i] gt by auto
    next
      case 2
      then have "prio s j \<le> prio s (parent i)" using bridgedD [OF assms(7), of j] bc c by simp
      then show ?thesis using 2 c pc t [of c] t [of "parent c"] by simp
    next
      case 3
      then have "prio s c \<le> prio s (parent c)" using orderedD [OF assms(6), of c] c by simp
      moreover have "c \<noteq> j" using 3 bc(2) by auto
      ultimately show ?thesis using 3 c pc t [of c] t [of "parent c"] by simp
    qed
  qed
  moreover have "prio ?t c \<le> prio ?t (parent j)" if c: "0 < c" "c < n" "parent c = j" for c
  proof -
    have ne: "c \<noteq> i" "c \<noteq> j" "j \<noteq> i" using parent_less [of c] c bc(4) by auto
    then have "prio s c \<le> prio s j" using orderedD [OF assms(6), of c] c by simp
    then show ?thesis using t [of c] t [of i] c bc(2) ne assms(3) by simp
  qed
  ultimately show ?thesis
    using swap_rearranged [OF assms(1), of i n j] bc(1) assms(2,3) by (simp add: ordered_def bridged_def)
qed

lemma down_stop:
  assumes "inv s" "n \<le> length (elems s)" "i < n"
    and "2 * i + 1 \<ge> n \<or> \<not> lt s (best_child lt s i n) i"
    and c: "0 < c" "c < n" "parent c = i"
  shows "prio s c \<le> prio s i"
proof -
  have n: "2 * i + 1 < n" using c by (auto simp: parent_children)
  note bc = best_child_cases [OF assms(1,2) n refl]
  have "prio s (best_child lt s i n) \<le> prio s i"
    using assms(2-4) n bc(1) less_prio [OF assms(1), of "best_child lt s i n" i] by simp
  with bc(5) [OF c] show ?thesis by simp
qed

lemma down_spec:
  assumes "inv s" "n \<le> length (elems s)" "i < n" "ordered (\<lambda>c. parent c \<noteq> i) s n" "bridged s n i"
  shows "rearranged n s (fst (heap_down lt swap s i n)) \<and> ordered (\<lambda>_. True) (fst (heap_down lt swap s i n)) n \<and>
    i \<le> snd (heap_down lt swap s i n)"
  using assms
proof (induction "n - i" arbitrary: s i rule: less_induct)
  case less
  let ?j = "best_child lt s i n"
  show ?case
  proof (cases "2 * i + 1 \<ge> n \<or> \<not> lt s ?j i")
    case True
    then have "heap_down lt swap s i n = (s, i)" by (subst heap_down.simps) (auto simp: Let_def)
    moreover have "ordered (\<lambda>_. True) s n"
      using down_stop [OF less.prems(1-3) True] less.prems(4) by (auto simp: ordered_def)
    ultimately show ?thesis using less.prems(1) by (simp add: rearranged_refl)
  next
    case False
    then have n: "2 * i + 1 < n" and lt: "lt s ?j i" by auto
    have "ordered (\<lambda>c. c \<noteq> i \<and> parent c \<noteq> i) s n" using less.prems(4) by (simp add: ordered_def)
    note st = down_step [OF less.prems(1,2) n refl lt this less.prems(5)]
    note bc = best_child_cases [OF less.prems(1,2) n refl]
    have step: "heap_down lt swap s i n = heap_down lt swap (swap s i ?j) ?j n"
      using False by (subst heap_down.simps) (auto simp: Let_def)
    have t: "inv (swap s i ?j)" "n \<le> length (elems (swap s i ?j))"
      using st less.prems(2) rearranged_length [of n s "swap s i ?j"] by (simp_all add: rearranged_def)
    have "n - ?j < n - i" using bc(1,4) by simp
    note IH = less.hyps [OF this t bc(1) conjunct1 [OF conjunct2 [OF st]] conjunct2 [OF conjunct2 [OF st]]]
    have "i \<le> snd (heap_down lt swap (swap s i ?j) ?j n)" using IH bc(4) by simp
    then show ?thesis
      unfolding step using IH rearranged_trans [OF conjunct1 [OF st]] by blast
  qed
qed

text \<open>\<open>down\<close> and, where it did not move, \<open>up\<close>: \<open>Remove\<close> after its swap.\<close>

lemma down_up_spec:
  assumes "inv s" "n \<le> length (elems s)" "i < n" "ordered (\<lambda>c. c \<noteq> i \<and> parent c \<noteq> i) s n" "bridged s n i"
  defines "r \<equiv> (let (s', m) = heap_down lt swap s i n in if m > i then s' else heap_up lt swap s' i)"
  shows "rearranged n s r \<and> ordered (\<lambda>_. True) r n"
proof (cases "2 * i + 1 \<ge> n \<or> \<not> lt s (best_child lt s i n) i")
  case True
  then have "heap_down lt swap s i n = (s, i)" by (subst heap_down.simps) (auto simp: Let_def)
  then have r: "r = heap_up lt swap s i" by (simp add: r_def)
  have "ordered (\<lambda>c. c \<noteq> i) s n"
    using down_stop [OF assms(1-3) True] assms(4) by (auto simp: ordered_def)
  with assms(1-3,5) show ?thesis unfolding r by (intro up_spec)
next
  case False
  let ?j = "best_child lt s i n"
  let ?t = "swap s i ?j"
  have n: "2 * i + 1 < n" and lt: "lt s ?j i" using False by auto
  note st = down_step [OF assms(1,2) n refl lt assms(4,5)]
  note bc = best_child_cases [OF assms(1,2) n refl]
  have step: "heap_down lt swap s i n = heap_down lt swap ?t ?j n"
    using False by (subst heap_down.simps) (auto simp: Let_def)
  have t: "inv ?t" "n \<le> length (elems ?t)"
    using st assms(2) rearranged_length [of n s ?t] by (simp_all add: rearranged_def)
  note D = down_spec [OF t bc(1) conjunct1 [OF conjunct2 [OF st]] conjunct2 [OF conjunct2 [OF st]]]
  have "i < snd (heap_down lt swap s i n)" using D bc(4) by (simp add: step)
  then have "r = fst (heap_down lt swap ?t ?j n)" by (auto simp: r_def step split: prod.splits)
  then show ?thesis using D rearranged_trans [OF conjunct1 [OF st]] by simp
qed

lemma ordered_is_heap:
  "n \<le> length (elems s) \<Longrightarrow> ordered (\<lambda>_. True) s n \<longleftrightarrow> is_heap (key s) (take n (elems s))"
  by (auto simp: ordered_def is_heap_take prio_def)

text \<open>After swapping position \<open>i\<close> of a heap with the last one, the rest is a heap except at \<open>i\<close>.\<close>

lemma swap_last_hole:
  assumes "inv s" "is_heap (key s) (elems s)" "Suc n = length (elems s)" "i < n"
  shows "ordered (\<lambda>c. c \<noteq> i \<and> parent c \<noteq> i) (swap s i n) n" "bridged (swap s i n) n i"
proof -
  have t: "prio (swap s i n) c = prio s c" if "c < n" "c \<noteq> i" for c
    using prio_swap [OF assms(1), of i n c] assms(3,4) that by simp
  have h: "prio s c \<le> prio s (parent c)" if "0 < c" "c < n" for c
    using assms(2,3) that by (simp add: is_heap_def prio_def)
  show "ordered (\<lambda>c. c \<noteq> i \<and> parent c \<noteq> i) (swap s i n) n"
    unfolding ordered_def
  proof (intro allI impI)
    fix c assume c: "0 < c \<and> c < n \<and> c \<noteq> i \<and> parent c \<noteq> i"
    then show "prio (swap s i n) c \<le> prio (swap s i n) (parent c)"
      using t [of c] t [of "parent c"] h [of c] parent_less [of c] by simp
  qed
  show "bridged (swap s i n) n i"
    unfolding bridged_def
  proof (intro allI impI)
    fix c assume c: "0 < i \<and> 0 < c \<and> c < n \<and> parent c = i"
    then have "parent i < i" "i < c" using parent_less [of i] parent_less [of c] by simp_all
    moreover have "prio s c \<le> prio s (parent i)" using h [of c] h [of i] c assms(4) by simp
    ultimately show "prio (swap s i n) c \<le> prio (swap s i n) (parent i)"
      using t [of c] t [of "parent i"] c by simp
  qed
qed

end

locale heap_container = heap_interface +
  fixes len :: "'a \<Rightarrow> nat" and push :: "'a \<Rightarrow> 'b \<Rightarrow> 'a" and pop :: "'a \<Rightarrow> 'a \<times> 'b"
  assumes len_elems: "len s = length (elems s)"
    and push_law: "inv s \<Longrightarrow> x \<notin> set (elems s) \<Longrightarrow>
      inv (push s x) \<and> elems (push s x) = elems s @ [x] \<and> key (push s x) = key s"
    and pop_law: "inv s \<Longrightarrow> elems s \<noteq> [] \<Longrightarrow>
      inv (fst (pop s)) \<and> elems (fst (pop s)) = butlast (elems s) \<and> key (fst (pop s)) = key s \<and>
      snd (pop s) = last (elems s)"
begin

lemma Push_spec:
  assumes "inv s" "is_heap (key s) (elems s)" "x \<notin> set (elems s)" and s': "s' = heap_Push lt swap len push s x"
  shows "inv s' \<and> key s' = key s \<and> is_heap (key s) (elems s') \<and> mset (elems s') = add_mset x (mset (elems s))"
proof -
  let ?t = "push s x" and ?n = "length (elems s)"
  have t: "inv ?t" "elems ?t = elems s @ [x]" "key ?t = key s" using push_law [OF assms(1,3)] by simp_all
  have "ordered (\<lambda>c. c \<noteq> ?n) ?t (Suc ?n)"
    unfolding ordered_def
  proof (intro allI impI)
    fix c assume c: "0 < c \<and> c < Suc ?n \<and> c \<noteq> ?n"
    then show "prio ?t c \<le> prio ?t (parent c)"
      using assms(2) parent_less [of c] by (simp add: prio_def t nth_append is_heap_def)
  qed
  moreover have "bridged ?t (Suc ?n) ?n"
    unfolding bridged_def by (auto dest: parent_less)
  ultimately have "rearranged (Suc ?n) ?t s' \<and> ordered (\<lambda>_. True) s' (Suc ?n)"
    using up_spec [of ?t ?n "Suc ?n"] t by (simp add: s' heap_Push_def len_elems Let_def)
  moreover from this have "length (elems s') = Suc ?n" using rearranged_length [of "Suc ?n" ?t s'] t by simp
  ultimately show ?thesis
    using ordered_is_heap [of "Suc ?n" s'] t by (auto simp: rearranged_def)
qed

text \<open>Taking off the last element of a container whose first \<open>n\<close> positions form a heap.\<close>

lemma pop_last:
  assumes "rearranged n t u" "ordered (\<lambda>_. True) u n" "length (elems t) = Suc n"
    and "pop u = (s', x)"
  shows "inv s' \<and> key s' = key t \<and> is_heap (key t) (elems s') \<and> x = elems t ! n \<and>
    mset (elems t) = add_mset x (mset (elems s'))"
proof -
  have u: "inv u" "key u = key t" "length (elems u) = Suc n" "mset (elems u) = mset (elems t)"
      "drop n (elems u) = drop n (elems t)"
    using assms(1) rearranged_length [OF assms(1)] assms(3) by (simp_all add: rearranged_def)
  then have "elems u \<noteq> []" by auto
  with pop_law [OF u(1)] assms(4) have p: "inv s'" "elems s' = butlast (elems u)" "key s' = key u" "x = last (elems u)"
    by simp_all
  have "x = elems t ! n"
    using p(4) u(3,5) assms(3) \<open>elems u \<noteq> []\<close> by (metis last_drop hd_drop_conv_nth last_conv_nth diff_Suc_1 lessI)
  moreover have "mset (elems u) = add_mset x (mset (elems s'))"
    using p(2,4) \<open>elems u \<noteq> []\<close> by (metis append_butlast_last_id mset.simps union_code mset_append add_mset_add_single)
  moreover have "is_heap (key t) (elems s')"
    using ordered_is_heap [of n u] assms(2) u(2,3) p(2) by (simp add: butlast_conv_take)
  ultimately show ?thesis using p u by simp
qed

lemma Pop_spec:
  assumes "inv s" "is_heap (key s) (elems s)" "elems s \<noteq> []" and "heap_Pop lt swap len pop s = (s', x)"
  shows "inv s' \<and> key s' = key s \<and> is_heap (key s) (elems s') \<and> x = elems s ! 0 \<and>
    mset (elems s) = add_mset x (mset (elems s'))"
proof -
  obtain n where n: "length (elems s) = Suc n" using assms(3) by (cases "elems s") auto
  let ?t = "swap s 0 n"
  let ?u = "fst (heap_down lt swap ?t 0 n)"
  have t: "inv ?t" "elems ?t = (elems s)[0 := elems s ! n, n := elems s ! 0]" "key ?t = key s"
    using assms(1,3) n by (simp_all add: swap_inv swap_elems swap_key)
  have "rearranged n ?t ?u \<and> ordered (\<lambda>_. True) ?u n"
  proof (cases "n = 0")
    case True
    then show ?thesis using t by (simp add: heap_down.simps rearranged_refl ordered_def)
  next
    case False
    note hole = swap_last_hole [OF assms(1,2) n [symmetric], of 0]
    have "ordered (\<lambda>c. parent c \<noteq> 0) ?t n" using hole(1) False by (auto simp: ordered_def)
    then show ?thesis using down_spec [of ?t n 0] hole(2) t n False by simp
  qed
  moreover have "pop ?u = (s', x)" using assms(4) n by (simp add: heap_Pop_def len_elems Let_def)
  ultimately have "inv s' \<and> key s' = key ?t \<and> is_heap (key ?t) (elems s') \<and> x = elems ?t ! n \<and>
      mset (elems ?t) = add_mset x (mset (elems s'))"
    using pop_last [of n ?t ?u s' x] t n by simp
  moreover have "mset (elems ?t) = mset (elems s)" "elems ?t ! n = elems s ! 0"
    using t n by (simp_all add: mset_swap)
  ultimately show ?thesis using t by simp
qed

lemma Remove_spec:
  assumes "inv s" "is_heap (key s) (elems s)" "i < length (elems s)" and "heap_Remove lt swap len pop s i = (s', x)"
  shows "inv s' \<and> key s' = key s \<and> is_heap (key s) (elems s') \<and> x = elems s ! i \<and>
    mset (elems s) = add_mset x (mset (elems s'))"
proof -
  obtain n where n: "length (elems s) = Suc n" using assms(3) by (cases "elems s") auto
  show ?thesis
  proof (cases "i = n")
    case True
    then have "pop s = (s', x)" using assms(4) n by (simp add: heap_Remove_def len_elems Let_def)
    moreover have "is_heap (key s) (take n (elems s))"
      using assms(2) n is_heap_def [of "key s" "elems s"] by (simp add: is_heap_take)
    ultimately show ?thesis
      using pop_last [of n s s s' x] True assms(1) n ordered_is_heap [of n s] by (simp add: rearranged_refl)
  next
    case False
    then have i: "i < n" using assms(3) n by simp
    let ?t = "swap s i n"
    let ?u = "let (s', m) = heap_down lt swap ?t i n in if m > i then s' else heap_up lt swap s' i"
    have t: "inv ?t" "elems ?t = (elems s)[i := elems s ! n, n := elems s ! i]" "key ?t = key s"
      using assms(1) n i by (simp_all add: swap_inv swap_elems swap_key)
    have "rearranged n ?t ?u \<and> ordered (\<lambda>_. True) ?u n"
      using down_up_spec [OF t(1) _ i swap_last_hole [OF assms(1,2) n [symmetric] i]] t n by simp
    moreover have "pop ?u = (s', x)"
      using assms(4) n False by (simp add: heap_Remove_def len_elems Let_def)
    ultimately have "inv s' \<and> key s' = key ?t \<and> is_heap (key ?t) (elems s') \<and> x = elems ?t ! n \<and>
        mset (elems ?t) = add_mset x (mset (elems s'))"
      using pop_last [of n ?t ?u s' x] t n by simp
    moreover have "mset (elems ?t) = mset (elems s)" "elems ?t ! n = elems s ! i"
      using t n i by (simp_all add: mset_swap)
    ultimately show ?thesis using t by simp
  qed
qed

end

end
