(* ===== verification/Token_Queue.thy ===== *)
theory Token_Queue
  imports Go_Heap Float64
begin

text \<open>
  The token-aware admission queue of the scheduler, \<open>src/internal/scheduler/token_queue.go\<close> and
  \<open>token_queue_types.go\<close>. Requests are shared by pointer between the caller, the heap slice and
  the lookup map, and \<open>Swap\<close> writes each request's \<open>heapIndex\<close>, so the model has a store of
  requests by address. Tenant states never leave the queue and are plain values. Every exported
  method holds the queue's mutex and is one step; the clock readings are arguments. Scores,
  weights and ratios are \<open>float64\<close> values of \<open>Float64\<close>, rounded where the code rounds. The heap algorithms
  are in \<open>Go_Heap\<close>, whose container interface the request heap implements, as long as no score is NaN.
\<close>

section \<open>Data\<close>

datatype QueueDisposition = DispositionAdmit | DispositionBackpressure | DispositionReject

record QueuedRequest =
  qr_ID :: string
  qr_TenantID :: string
  qr_Priority :: int
  PromptTokens :: int
  MaxOutputTokens :: int
  PredictedTokens :: int
  CacheHitTokens :: int
  CacheLocality :: float64
  qr_Arrival :: gotime
  qr_Deadline :: gotime
  EstimatedLatency :: duration
  calculatedScore :: float64
  heapIndex :: int

record TenantConfig =
  tc_TenantID :: string
  TokenBudget :: int
  MaxQueuedRequests :: int
  MaxQueuedTokens :: int
  tc_Weight :: float64

record TenantState =
  ts_TenantID :: string
  QueuedRequests :: int
  QueuedTokens :: int
  ActiveTokens :: int
  ServedTokens :: int

record TokenQueueConfig =
  MaxQueueDepth :: int
  MaxQueueTokens :: int
  SaturationThreshold :: float64
  HighPriorityFloor :: int
  DefaultEstimatedLatency :: duration
  PriorityWeight :: float64
  UrgencyWeight :: float64
  LocalityWeight :: float64
  FairnessWeight :: float64
  CostWeight :: float64
  Tenants :: "string \<rightharpoonup> TenantConfig"
  DefaultTenant :: TenantConfig

record EnqueueResult =
  er_Disposition :: QueueDisposition
  er_Reason :: string
  Admitted :: bool
  PriorityScore :: float64
  QueueDepth :: int
  QueueTokens :: int
  RetryAfter :: duration

record QueueMetrics =
  TotalRequestsQueued :: int
  TotalTokensQueued :: int
  qm_MaxQueueDepth :: int
  qm_MaxQueueTokens :: int
  SaturationRatio :: float64
  qm_AdmittedCount :: int
  qm_BackpressuredCount :: int
  qm_RejectedCount :: int
  qm_ExpiredEvictedCount :: int
  qm_Tenants :: "string \<rightharpoonup> TenantState"

type_synonym request_store = "nat \<Rightarrow> QueuedRequest"

record TokenQueue =
  q_cfg :: TokenQueueConfig
  q_heap :: "nat list"
  q_lookup :: "string \<rightharpoonup> nat"
  q_tenants :: "string \<rightharpoonup> TenantState"
  totalTokens :: int
  admittedCount :: int
  backpressuredCount :: int
  rejectedCount :: int
  expiredEvictedCount :: int

section \<open>Requests\<close>

definition EffectiveCost :: "QueuedRequest \<Rightarrow> int" where
  "EffectiveCost r =
     (if PredictedTokens r > 0 then PredictedTokens r
      else
       (let uncachedPrompt = wrap64 (PromptTokens r - CacheHitTokens r);
            uncachedPrompt = (if uncachedPrompt < 0 then 0 else uncachedPrompt);
            total = wrap64 (uncachedPrompt + MaxOutputTokens r)
        in if total \<le> 0 then 1 else total))"

definition LocalityScore :: "QueuedRequest \<Rightarrow> float64" where
  "LocalityScore r =
     (if flt (Fin 0) (CacheLocality r) then fmin (CacheLocality r) (Fin 1)
      else if PromptTokens r \<le> 0 then Fin 0
      else (let ratio = fdiv (float_of_int (CacheHitTokens r)) (float_of_int (PromptTokens r)) in fmin ratio (Fin 1)))"

definition DefaultTokenQueueConfig :: TokenQueueConfig where
  "DefaultTokenQueueConfig =
     \<lparr>MaxQueueDepth = 1000, MaxQueueTokens = 1000000, SaturationThreshold = round64 (80 / 100),
      HighPriorityFloor = 80, DefaultEstimatedLatency = 500 * 10 ^ 6, PriorityWeight = Fin 1,
      UrgencyWeight = Fin 10, LocalityWeight = Fin 20, FairnessWeight = Fin 15, CostWeight = Fin 5,
      Tenants = Map.empty,
      DefaultTenant = \<lparr>tc_TenantID = '''', TokenBudget = 100000, MaxQueuedRequests = 200,
        MaxQueuedTokens = 200000, tc_Weight = Fin 1\<rparr>\<rparr>"

section \<open>The request heap\<close>

text \<open>\<open>requestHeap\<close> as a container of \<open>container/heap\<close>: the store and the slice.\<close>

type_synonym requestHeap = "request_store \<times> nat list"

definition rq_Len :: "requestHeap \<Rightarrow> nat" where
  "rq_Len s = length (snd s)"

definition rq_Less :: "requestHeap \<Rightarrow> nat \<Rightarrow> nat \<Rightarrow> bool" where
  "rq_Less s i j \<longleftrightarrow> flt (calculatedScore (fst s (snd s ! j))) (calculatedScore (fst s (snd s ! i)))"

definition set_index :: "request_store \<Rightarrow> nat \<Rightarrow> int \<Rightarrow> request_store" where
  "set_index st x i = st(x := (st x)\<lparr>heapIndex := i\<rparr>)"

definition rq_Swap :: "requestHeap \<Rightarrow> nat \<Rightarrow> nat \<Rightarrow> requestHeap" where
  "rq_Swap s i j =
     (let h = (snd s)[i := snd s ! j, j := snd s ! i]
      in (set_index (set_index (fst s) (h ! i) (int i)) (h ! j) (int j), h))"

definition rq_Push :: "requestHeap \<Rightarrow> nat \<Rightarrow> requestHeap" where
  "rq_Push s item = (set_index (fst s) item (int (length (snd s))), snd s @ [item])"

definition rq_Pop :: "requestHeap \<Rightarrow> requestHeap \<times> nat" where
  "rq_Pop s = (let item = last (snd s) in ((set_index (fst s) item (- 1), butlast (snd s)), item))"

text \<open>\<open>heap.Push\<close>, \<open>heap.Pop\<close> and \<open>heap.Remove\<close> on the queue's heap.\<close>

definition push_request :: "request_store \<Rightarrow> TokenQueue \<Rightarrow> nat \<Rightarrow> request_store \<times> TokenQueue" where
  "push_request st q x =
     (let (st', h) = heap_Push rq_Less rq_Swap rq_Len rq_Push (st, q_heap q) x in (st', q\<lparr>q_heap := h\<rparr>))"

definition pop_request :: "request_store \<Rightarrow> TokenQueue \<Rightarrow> request_store \<times> TokenQueue \<times> nat" where
  "pop_request st q =
     (let ((st', h), x) = heap_Pop rq_Less rq_Swap rq_Len rq_Pop (st, q_heap q) in (st', q\<lparr>q_heap := h\<rparr>, x))"

definition remove_request :: "request_store \<Rightarrow> TokenQueue \<Rightarrow> nat \<Rightarrow> request_store \<times> TokenQueue" where
  "remove_request st q i =
     (let ((st', h), x) = heap_Remove rq_Less rq_Swap rq_Len rq_Pop (st, q_heap q) i in (st', q\<lparr>q_heap := h\<rparr>))"

section \<open>Operations of the queue\<close>

definition NewTokenQueue :: "TokenQueueConfig \<Rightarrow> TokenQueue" where
  "NewTokenQueue cfg =
     (let cfg = (if MaxQueueDepth cfg \<le> 0 then cfg\<lparr>MaxQueueDepth := 1000\<rparr> else cfg);
          cfg = (if MaxQueueTokens cfg \<le> 0 then cfg\<lparr>MaxQueueTokens := 1000000\<rparr> else cfg);
          cfg = (if fle (SaturationThreshold cfg) (Fin 0) \<or> flt (Fin 1) (SaturationThreshold cfg)
                 then cfg\<lparr>SaturationThreshold := round64 (80 / 100)\<rparr> else cfg);
          cfg = (if DefaultEstimatedLatency cfg \<le> 0 then cfg\<lparr>DefaultEstimatedLatency := 500 * 10 ^ 6\<rparr> else cfg)
      in \<lparr>q_cfg = cfg, q_heap = [], q_lookup = Map.empty, q_tenants = Map.empty, totalTokens = 0,
          admittedCount = 0, backpressuredCount = 0, rejectedCount = 0, expiredEvictedCount = 0\<rparr>)"

definition getTenantConfig :: "TokenQueue \<Rightarrow> string \<Rightarrow> TenantConfig" where
  "getTenantConfig q tenantID = (case Tenants (q_cfg q) tenantID of
       Some cfg \<Rightarrow> cfg
     | None \<Rightarrow> (DefaultTenant (q_cfg q))\<lparr>tc_TenantID := tenantID\<rparr>)"

text \<open>\<open>Duration.Seconds\<close>: whole seconds and the remaining nanoseconds, converted apart.\<close>

definition duration_Seconds :: "duration \<Rightarrow> float64" where
  "duration_Seconds d = fadd (float_of_int (go_div d (10 ^ 9))) (fdiv (float_of_int (go_rem d (10 ^ 9))) (Fin (10 ^ 9)))"

definition calculateUrgency :: "TokenQueue \<Rightarrow> QueuedRequest \<Rightarrow> gotime \<Rightarrow> float64" where
  "calculateUrgency q r now =
     (if IsZero (qr_Deadline r) then Fin 0
      else
       (let latency = (if EstimatedLatency r \<le> 0 then DefaultEstimatedLatency (q_cfg q) else EstimatedLatency r);
            slack = wrap64 (time_sub (qr_Deadline r) now - latency)
        in if slack \<le> 0 then fmul (UrgencyWeight (q_cfg q)) (Fin 10)
           else fdiv (UrgencyWeight (q_cfg q)) (fadd (Fin 1) (duration_Seconds slack))))"

definition calculateFairnessPenalty :: "TokenQueue \<Rightarrow> string \<Rightarrow> float64" where
  "calculateFairnessPenalty q tenantID = (case q_tenants q tenantID of
       None \<Rightarrow> Fin 0
     | Some state \<Rightarrow>
        (let cfg = getTenantConfig q tenantID in
         if TokenBudget cfg \<le> 0 then Fin 0
         else
          (let active = float_of_int (wrap64 (QueuedTokens state + ActiveTokens state));
               budget = fmul (float_of_int (TokenBudget cfg)) (fmax (tc_Weight cfg) (round64 (1 / 10)))
           in if fle active budget then Fin 0
              else (let ratio = fdiv (fsub active budget) budget
                    in fmul (fmul ratio (FairnessWeight (q_cfg q))) (Fin 10)))))"

definition calculatePriority :: "TokenQueue \<Rightarrow> QueuedRequest \<Rightarrow> gotime \<Rightarrow> float64" where
  "calculatePriority q r now =
     (let baseScore = fmul (float_of_int (qr_Priority r)) (PriorityWeight (q_cfg q));
          urgencyScore = calculateUrgency q r now;
          localityScore = fmul (LocalityScore r) (LocalityWeight (q_cfg q));
          cost = float_of_int (EffectiveCost r);
          costScore = fdiv (CostWeight (q_cfg q)) (fadd (Fin 1) (fdiv cost (Fin 1000)));
          fairnessPenalty = calculateFairnessPenalty q (qr_TenantID r)
      in fsub (fadd (fadd (fadd baseScore urgencyScore) localityScore) costScore) fairnessPenalty)"

definition tenant_of :: "TokenQueue \<Rightarrow> string \<Rightarrow> TenantState" where
  "tenant_of q tenantID = (case q_tenants q tenantID of
       Some state \<Rightarrow> state
     | None \<Rightarrow> \<lparr>ts_TenantID = tenantID, QueuedRequests = 0, QueuedTokens = 0, ActiveTokens = 0, ServedTokens = 0\<rparr>)"

definition set_tenant :: "TokenQueue \<Rightarrow> string \<Rightarrow> TenantState \<Rightarrow> TokenQueue" where
  "set_tenant q tenantID state = q\<lparr>q_tenants := (q_tenants q)(tenantID \<mapsto> state)\<rparr>"

definition getOrCreateTenantState :: "TokenQueue \<Rightarrow> string \<Rightarrow> TokenQueue \<times> TenantState" where
  "getOrCreateTenantState q tenantID = (set_tenant q tenantID (tenant_of q tenantID), tenant_of q tenantID)"

definition past_deadline :: "QueuedRequest \<Rightarrow> gotime \<Rightarrow> bool" where
  "past_deadline r now \<longleftrightarrow> \<not> IsZero (qr_Deadline r) \<and> now > qr_Deadline r"

definition evaluateAdmission :: "TokenQueue \<Rightarrow> QueuedRequest \<Rightarrow> TenantConfig \<Rightarrow> TenantState \<Rightarrow> int \<Rightarrow> gotime
    \<Rightarrow> QueueDisposition \<times> string \<times> duration" where
  "evaluateAdmission q req tCfg tState cost now =
     (if past_deadline req now then (DispositionReject, ''request-deadline-expired'', 0)
      else if int (length (q_heap q)) + 1 > MaxQueueDepth (q_cfg q)
      then (DispositionReject, ''queue-depth-capacity-exhausted'', 0)
      else if wrap64 (totalTokens q + cost) > MaxQueueTokens (q_cfg q)
      then (DispositionReject, ''queue-token-capacity-exhausted'', 0)
      else if MaxQueuedRequests tCfg > 0 \<and> wrap64 (QueuedRequests tState + 1) > MaxQueuedRequests tCfg
      then (DispositionReject, ''tenant-queue-depth-exhausted'', 0)
      else if MaxQueuedTokens tCfg > 0 \<and> wrap64 (QueuedTokens tState + cost) > MaxQueuedTokens tCfg
      then (DispositionReject, ''tenant-token-capacity-exhausted'', 0)
      else
       (let saturationRatio = fdiv (float_of_int (totalTokens q)) (float_of_int (MaxQueueTokens (q_cfg q)));
            depthRatio = fdiv (float_of_int (int (length (q_heap q)))) (float_of_int (MaxQueueDepth (q_cfg q)));
            isSaturated = (fle (SaturationThreshold (q_cfg q)) saturationRatio \<or>
                           fle (SaturationThreshold (q_cfg q)) depthRatio)
        in if isSaturated \<and> qr_Priority req \<ge> HighPriorityFloor (q_cfg q)
           then (DispositionAdmit, ''admitted-high-priority'', 0)
           else if isSaturated \<and> TokenBudget tCfg > 0 \<and>
                   wrap64 (QueuedTokens tState + ActiveTokens tState) \<ge> TokenBudget tCfg
           then (DispositionBackpressure, ''queue-saturated-tenant-over-budget'',
                 (100 + (go_rem cost 500 + 100)) * 10 ^ 6)
           else if isSaturated \<and> fle (round64 (95 / 100)) saturationRatio
           then (DispositionBackpressure, ''queue-saturated-backpressure'', 250 * 10 ^ 6)
           else (DispositionAdmit, ''admitted'', 0)))"

text \<open>Booking a queued request in and out of the lookup map and the token counters.\<close>

definition track :: "TokenQueue \<Rightarrow> nat \<Rightarrow> QueuedRequest \<Rightarrow> TokenQueue" where
  "track q x r =
     (let cost = EffectiveCost r; (q, ts) = getOrCreateTenantState q (qr_TenantID r)
      in set_tenant (q\<lparr>q_lookup := (q_lookup q)(qr_ID r \<mapsto> x), totalTokens := wrap64 (totalTokens q + cost)\<rparr>)
           (qr_TenantID r)
           (ts\<lparr>QueuedRequests := wrap64 (QueuedRequests ts + 1), QueuedTokens := wrap64 (QueuedTokens ts + cost)\<rparr>))"

definition untrack :: "TokenQueue \<Rightarrow> string \<Rightarrow> QueuedRequest \<Rightarrow> TokenQueue" where
  "untrack q i r =
     (let cost = EffectiveCost r; (q, ts) = getOrCreateTenantState q (qr_TenantID r)
      in set_tenant (q\<lparr>q_lookup := (q_lookup q)(i := None), totalTokens := wrap64 (totalTokens q - cost)\<rparr>)
           (qr_TenantID r)
           (ts\<lparr>QueuedRequests := wrap64 (QueuedRequests ts - 1), QueuedTokens := wrap64 (QueuedTokens ts - cost)\<rparr>))"

definition Enqueue :: "request_store \<Rightarrow> TokenQueue \<Rightarrow> nat \<Rightarrow> gotime \<Rightarrow> request_store \<times> TokenQueue \<times> EnqueueResult" where
  "Enqueue st q x now =
     (let req = st x;
          cost = EffectiveCost req;
          tenantCfg = getTenantConfig q (qr_TenantID req);
          (q, tenantState) = getOrCreateTenantState q (qr_TenantID req);
          (disposition, reason, retryAfter) = evaluateAdmission q req tenantCfg tenantState cost now
      in if disposition \<noteq> DispositionAdmit then
           (let q = (if disposition = DispositionBackpressure
                     then q\<lparr>backpressuredCount := wrap64 (backpressuredCount q + 1)\<rparr>
                     else q\<lparr>rejectedCount := wrap64 (rejectedCount q + 1)\<rparr>)
            in (st, q, \<lparr>er_Disposition = disposition, er_Reason = reason, Admitted = False, PriorityScore = Fin 0,
                        QueueDepth = int (length (q_heap q)), QueueTokens = totalTokens q, RetryAfter = retryAfter\<rparr>))
         else
           (let score = calculatePriority q req now;
                req = req\<lparr>calculatedScore := score, qr_Arrival := if IsZero (qr_Arrival req) then now else qr_Arrival req\<rparr>;
                (st, q) = push_request (st(x := req)) q x;
                q = track q x req;
                q = q\<lparr>admittedCount := wrap64 (admittedCount q + 1)\<rparr>
            in (st, q, \<lparr>er_Disposition = DispositionAdmit, er_Reason = ''admitted'', Admitted = True,
                        PriorityScore = score, QueueDepth = int (length (q_heap q)),
                        QueueTokens = totalTokens q, RetryAfter = 0\<rparr>)))"

text \<open>The heap operations keep the number of elements, so the loops that pop end.\<close>

lemma rq_Swap_length [simp]: "length (snd (rq_Swap s i j)) = length (snd s)"
  by (simp add: rq_Swap_def Let_def)

lemma heap_down_length [simp]: "length (snd (fst (heap_down rq_Less rq_Swap s i n))) = length (snd s)"
proof (induction "n - i" arbitrary: s i rule: less_induct)
  case less
  have "n - best_child rq_Less s i n < n - i" if "2 * i + 1 < n"
    using that by (auto simp: best_child_def)
  with less.hyps show ?case by (subst heap_down.simps) (simp add: Let_def not_le)
qed

lemma pop_request_length:
  "pop_request st q = (st', q', x) \<Longrightarrow> length (q_heap q') = length (q_heap q) - 1"
  by (auto simp: pop_request_def heap_Pop_def rq_Pop_def Let_def split: prod.splits)

function dequeue_loop :: "request_store \<Rightarrow> TokenQueue \<Rightarrow> gotime \<Rightarrow> request_store \<times> TokenQueue \<times> nat option" where
  "dequeue_loop st q now =
     (if q_heap q = [] then (st, q, None)
      else
       (let (st, q, x) = pop_request st q;
            req = st x;
            q = untrack q (qr_ID req) req
        in if past_deadline req now
           then dequeue_loop st (q\<lparr>expiredEvictedCount := wrap64 (expiredEvictedCount q + 1)\<rparr>) now
           else
            (let ts = tenant_of q (qr_TenantID req)
             in (st, set_tenant q (qr_TenantID req)
                       (ts\<lparr>ActiveTokens := wrap64 (ActiveTokens ts + EffectiveCost req)\<rparr>), Some x))))"
  by pat_completeness auto
termination
proof (relation "measure (\<lambda>(st, q, now). length (q_heap q))", goal_cases)
  case (2 st q now p st' qx q' x req q'')
  then have "length (q_heap q') < length (q_heap q)"
    using pop_request_length [of st q st' q' x] by (cases "q_heap q") auto
  with 2 show ?case by (simp add: untrack_def getOrCreateTenantState_def set_tenant_def Let_def)
qed simp

definition Dequeue :: "request_store \<Rightarrow> TokenQueue \<Rightarrow> gotime \<Rightarrow> request_store \<times> TokenQueue \<times> nat option" where
  "Dequeue st q now = dequeue_loop st q now"

definition Peek :: "TokenQueue \<Rightarrow> nat option" where
  "Peek q = (if length (q_heap q) = 0 then None else Some (q_heap q ! 0))"

definition Remove :: "request_store \<Rightarrow> TokenQueue \<Rightarrow> string \<Rightarrow> request_store \<times> TokenQueue \<times> bool" where
  "Remove st q i = (case q_lookup q i of
       None \<Rightarrow> (st, q, False)
     | Some x \<Rightarrow>
        (let (st, q) = remove_request st q (nat (heapIndex (st x)))
         in (st, untrack q i (st x), True)))"

definition Finish :: "TokenQueue \<Rightarrow> string \<Rightarrow> int \<Rightarrow> int \<Rightarrow> TokenQueue" where
  "Finish q tenantID allocatedCost actualTokens =
     (let (q, ts) = getOrCreateTenantState q tenantID;
          active = wrap64 (ActiveTokens ts - allocatedCost);
          active = (if active < 0 then 0 else active)
      in set_tenant q tenantID (ts\<lparr>ActiveTokens := active, ServedTokens := wrap64 (ServedTokens ts + actualTokens)\<rparr>))"

text \<open>The first loop of \<open>EvictExpired\<close> drains the heap, the second one queues the survivors again.\<close>

function drain :: "request_store \<Rightarrow> TokenQueue \<Rightarrow> gotime \<Rightarrow> nat list \<Rightarrow> int
    \<Rightarrow> request_store \<times> TokenQueue \<times> nat list \<times> int" where
  "drain st q now valid evicted =
     (if q_heap q = [] then (st, q, valid, evicted)
      else
       (let (st, q, x) = pop_request st q;
            req = st x;
            q = untrack q (qr_ID req) req
        in if past_deadline req now
           then drain st (q\<lparr>expiredEvictedCount := wrap64 (expiredEvictedCount q + 1)\<rparr>) now valid (evicted + 1)
           else drain st q now (valid @ [x]) evicted))"
  by pat_completeness auto
termination
proof (relation "measure (\<lambda>(st, q, now, v, e). length (q_heap q))", goal_cases)
  case (2 st q now v e p st' qx q' x req q'')
  then have "length (q_heap q') < length (q_heap q)"
    using pop_request_length [of st q st' q' x] by (cases "q_heap q") auto
  with 2 show ?case by (simp add: untrack_def getOrCreateTenantState_def set_tenant_def Let_def)
next
  case (3 st q now v e p st' qx q' x req q'')
  then have "length (q_heap q') < length (q_heap q)"
    using pop_request_length [of st q st' q' x] by (cases "q_heap q") auto
  with 3 show ?case by (simp add: untrack_def getOrCreateTenantState_def set_tenant_def Let_def)
qed simp

fun requeue :: "request_store \<Rightarrow> TokenQueue \<Rightarrow> gotime \<Rightarrow> nat list \<Rightarrow> request_store \<times> TokenQueue" where
  "requeue st q now [] = (st, q)"
| "requeue st q now (x # valid) =
     (let req = (st x)\<lparr>calculatedScore := calculatePriority q (st x) now\<rparr>;
          (st, q) = push_request (st(x := req)) q x
      in requeue st (track q x req) now valid)"

definition EvictExpired_q :: "request_store \<Rightarrow> TokenQueue \<Rightarrow> gotime \<Rightarrow> request_store \<times> TokenQueue \<times> int" where
  "EvictExpired_q st q now =
     (let (st, q, valid, evicted) = drain st q now [] 0;
          (st, q) = requeue st q now valid
      in (st, q, evicted))"

definition Snapshot :: "TokenQueue \<Rightarrow> QueueMetrics" where
  "Snapshot q =
     (let maxTokens = (if MaxQueueTokens (q_cfg q) \<le> 0 then 1 else MaxQueueTokens (q_cfg q))
      in \<lparr>TotalRequestsQueued = int (length (q_heap q)), TotalTokensQueued = totalTokens q,
          qm_MaxQueueDepth = MaxQueueDepth (q_cfg q), qm_MaxQueueTokens = MaxQueueTokens (q_cfg q),
          SaturationRatio = fdiv (float_of_int (totalTokens q)) (float_of_int maxTokens),
          qm_AdmittedCount = admittedCount q, qm_BackpressuredCount = backpressuredCount q,
          qm_RejectedCount = rejectedCount q, qm_ExpiredEvictedCount = expiredEvictedCount q,
          qm_Tenants = q_tenants q\<rparr>)"

declare dequeue_loop.simps [simp del] drain.simps [simp del]

section \<open>The request heap implements the container interface\<close>

text \<open>
  Positions are recorded in \<open>heapIndex\<close>, and only that field differs from a store \<open>st0\<close>. Its requests
  have 64-bit fields and a score that is a number: the field is not exported and starts at zero.
\<close>

definition request_ok :: "QueuedRequest \<Rightarrow> bool" where
  "request_ok r \<longleftrightarrow> calculatedScore r \<noteq> NaN \<and>
     (\<forall>n \<in> {qr_Priority r, CacheHitTokens r, PromptTokens r, PredictedTokens r}. - (2 ^ 63) \<le> n \<and> n < 2 ^ 63)"

definition rq_inv :: "request_store \<Rightarrow> requestHeap \<Rightarrow> bool" where
  "rq_inv st0 s \<longleftrightarrow> distinct (snd s) \<and> (\<forall>i < length (snd s). heapIndex (fst s (snd s ! i)) = int i) \<and>
     (\<forall>x. (fst s x)\<lparr>heapIndex := 0\<rparr> = (st0 x)\<lparr>heapIndex := 0\<rparr>) \<and> (\<forall>x. request_ok (st0 x))"

lemma rq_inv_number:
  assumes "rq_inv st0 s"
  shows "calculatedScore (fst s x) \<noteq> NaN"
proof -
  have "(fst s x)\<lparr>heapIndex := 0\<rparr> = (st0 x)\<lparr>heapIndex := 0\<rparr>" "request_ok (st0 x)"
    using assms by (simp_all add: rq_inv_def)
  from arg_cong [OF this(1), of calculatedScore] this(2) show ?thesis by (simp add: request_ok_def)
qed

definition score :: "requestHeap \<Rightarrow> nat \<Rightarrow> float64" where
  "score s x = calculatedScore (fst s x)"

lemma score_set_index [simp]: "calculatedScore (set_index st y i x) = calculatedScore (st x)"
  by (simp add: set_index_def)

lemma frame_set_index [simp]: "(set_index st y i x)\<lparr>heapIndex := 0\<rparr> = (st x)\<lparr>heapIndex := 0\<rparr>"
  by (simp add: set_index_def)

lemma rq_inv_swap:
  assumes "rq_inv st0 s" "i < length (snd s)" "j < length (snd s)"
  shows "rq_inv st0 (rq_Swap s i j)"
proof -
  let ?h = "(snd s)[i := snd s ! j, j := snd s ! i]"
  have d: "distinct ?h" using assms by (simp add: rq_inv_def)
  have "heapIndex (set_index (set_index (fst s) (?h ! i) (int i)) (?h ! j) (int j) (?h ! k)) = int k"
    if k: "k < length (snd s)" for k
  proof (cases "k = i \<or> k = j")
    case True
    then show ?thesis using nth_eq_iff_index_eq [OF d, of i j] assms(2,3) by (auto simp: set_index_def)
  next
    case False
    then have "?h ! k \<noteq> ?h ! i" "?h ! k \<noteq> ?h ! j"
      using nth_eq_iff_index_eq [OF d, of k i] nth_eq_iff_index_eq [OF d, of k j] k assms(2,3) False by simp_all
    then show ?thesis using assms(1) False k by (simp add: set_index_def rq_inv_def)
  qed
  then show ?thesis using d assms(1) by (simp add: rq_inv_def rq_Swap_def Let_def)
qed

interpretation rq: heap_container rq_Less rq_Swap snd score "rq_inv st0" rq_Len rq_Push rq_Pop for st0
proof
  fix s :: requestHeap and i j x
  show "rq_inv st0 s \<Longrightarrow> i < length (snd s) \<Longrightarrow> j < length (snd s) \<Longrightarrow>
      rq_Less s i j \<longleftrightarrow> score s (snd s ! j) < score s (snd s ! i)"
    by (simp add: rq_Less_def score_def flt_def rq_inv_number)
  show "rq_inv st0 s \<Longrightarrow> i < length (snd s) \<Longrightarrow> j < length (snd s) \<Longrightarrow>
      snd (rq_Swap s i j) = (snd s)[i := snd s ! j, j := snd s ! i]"
    by (simp add: rq_Swap_def Let_def)
  show "rq_inv st0 s \<Longrightarrow> i < length (snd s) \<Longrightarrow> j < length (snd s) \<Longrightarrow> score (rq_Swap s i j) = score s"
    by (simp add: rq_Swap_def Let_def score_def fun_eq_iff)
  show "rq_inv st0 s \<Longrightarrow> i < length (snd s) \<Longrightarrow> j < length (snd s) \<Longrightarrow> rq_inv st0 (rq_Swap s i j)"
    by (rule rq_inv_swap)
  show "rq_Len s = length (snd s)" by (simp add: rq_Len_def)
  show "rq_inv st0 (rq_Push s x) \<and> snd (rq_Push s x) = snd s @ [x] \<and> score (rq_Push s x) = score s"
    if "rq_inv st0 s" "x \<notin> set (snd s)"
  proof -
    have "heapIndex (set_index (fst s) x (int (length (snd s))) ((snd s @ [x]) ! k)) = int k"
      if "k < Suc (length (snd s))" for k
      using \<open>rq_inv st0 s\<close> \<open>x \<notin> set (snd s)\<close> that
      by (cases "k = length (snd s)") (auto simp: rq_inv_def set_index_def nth_append)
    then show ?thesis using that by (simp add: rq_inv_def rq_Push_def score_def fun_eq_iff)
  qed
  show "rq_inv st0 (fst (rq_Pop s)) \<and> snd (fst (rq_Pop s)) = butlast (snd s) \<and>
      score (fst (rq_Pop s)) = score s \<and> snd (rq_Pop s) = last (snd s)"
    if "rq_inv st0 s" "snd s \<noteq> []"
  proof -
    have "last (snd s) \<notin> set (butlast (snd s))"
      using that by (metis append_butlast_last_id distinct_append rq_inv_def not_distinct_conv_prefix)
    then have "heapIndex (set_index (fst s) (last (snd s)) (- 1) (butlast (snd s) ! k)) = int k"
      if "k < length (butlast (snd s))" for k
      using \<open>rq_inv st0 s\<close> that nth_mem [OF that] by (auto simp: rq_inv_def set_index_def nth_butlast)
    then show ?thesis
      using that by (simp add: rq_inv_def rq_Pop_def score_def fun_eq_iff Let_def distinct_butlast)
  qed
qed

end
