(* ===== verification/Token_Queue_Inv.thy ===== *)
theory Token_Queue_Inv
  imports Token_Queue
begin

text \<open>
  The invariant of the token queue: the heap order and the recorded positions, and the books,
  that is the agreement of the lookup map and of all token and tenant counters with the set of
  queued requests. Every operation of \<open>Token_Queue\<close> preserves it, over every reachable queue.
\<close>

section \<open>Scores are numbers\<close>

text \<open>
  A configuration whose weights are finite and of moderate size, the tenants' weights numbers and
  their budgets 64-bit. Then no score overflows and none is NaN, whatever the request.
\<close>

definition weights_ok :: "TokenQueueConfig \<Rightarrow> bool" where
  "weights_ok cfg \<longleftrightarrow> fbound 100 (PriorityWeight cfg) \<and> fbound 100 (UrgencyWeight cfg) \<and>
     fbound 100 (LocalityWeight cfg) \<and> fbound 100 (FairnessWeight cfg) \<and> fbound 100 (CostWeight cfg) \<and>
     (\<forall>tc \<in> insert (DefaultTenant cfg) (ran (Tenants cfg)). tc_Weight tc \<noteq> NaN \<and> TokenBudget tc < 2 ^ 63)"

lemma EffectiveCost_pos: "1 \<le> EffectiveCost r"
  by (simp add: EffectiveCost_def Let_def)

lemma EffectiveCost_range: "request_ok r \<Longrightarrow> EffectiveCost r < 2 ^ 63"
  using wrap64_range by (simp add: EffectiveCost_def request_ok_def Let_def)

lemma float_ge:
  assumes "m \<le> n" "\<bar>m\<bar> \<le> 1" "0 \<le> n" "n < 2 ^ 63"
  shows "\<exists>y. float_of_int n = Fin y \<and> of_int m \<le> y \<and> \<bar>y\<bar> \<le> 2 ^ 63"
proof -
  have "(of_int n :: rat) \<le> of_int (2 ^ 63)" "(of_int m :: rat) \<le> of_int n" "(0 :: rat) \<le> of_int n"
    using assms unfolding of_int_le_iff of_int_0_le_iff by simp_all
  then show ?thesis
    using round_ge_Fin [of "of_int m" "of_int n" 63] assms(2) round64_int [of m] by (simp add: float_of_int_def)
qed

lemma seconds_ge:
  assumes "0 < d" "d < 2 ^ 63"
  shows "\<exists>y. fadd (Fin 1) (duration_Seconds d) = Fin y \<and> 1 \<le> y"
proof -
  have d: "go_div d (10 ^ 9) = d div 10 ^ 9" "go_rem d (10 ^ 9) = d mod 10 ^ 9"
    using assms(1) by (simp_all add: go_div_def go_rem_def)
  have le: "d div 10 ^ 9 \<le> d" "d mod 10 ^ 9 \<le> d" using assms(1) by (simp_all add: zmod_le_nonneg_dividend int_div_less_self [THEN less_imp_le])
  obtain a where a: "float_of_int (d div 10 ^ 9) = Fin a" "0 \<le> a" "\<bar>a\<bar> \<le> 2 ^ 63"
    using float_ge [of 0 "d div 10 ^ 9"] le assms by (auto simp: pos_imp_zdiv_nonneg_iff)
  obtain b where b: "float_of_int (d mod 10 ^ 9) = Fin b" "0 \<le> b" "\<bar>b\<bar> \<le> 2 ^ 63"
    using float_ge [of 0 "d mod 10 ^ 9"] le assms by auto
  obtain c where c: "round64 (b / 10 ^ 9) = Fin c" "0 \<le> c" "\<bar>c\<bar> \<le> 2 ^ 63"
    using round_ge_Fin [of 0 "b / 10 ^ 9" 63] b by auto
  obtain e where e: "round64 (a + c) = Fin e" "0 \<le> e" "\<bar>e\<bar> \<le> 2 ^ 64"
    using round_ge_Fin [of 0 "a + c" 64] a c by auto
  obtain y where "round64 (1 + e) = Fin y" "1 \<le> y" using round_ge_Fin [of 1 "1 + e" 65] e by auto
  moreover have "duration_Seconds d = Fin e" unfolding duration_Seconds_def d a(1) b(1) using c e by simp
  ultimately show ?thesis by simp
qed

lemma calculateUrgency_bound:
  assumes "weights_ok (q_cfg q)"
  shows "fbound 104 (calculateUrgency q r now)"
proof -
  have w: "fbound 100 (UrgencyWeight (q_cfg q))" using assms by (simp add: weights_ok_def)
  define s where "s = wrap64 (time_sub (qr_Deadline r) now - (if EstimatedLatency r \<le> 0 then DefaultEstimatedLatency (q_cfg q) else EstimatedLatency r))"
  have u: "calculateUrgency q r now = (if IsZero (qr_Deadline r) then Fin 0 else if s \<le> 0 then fmul (UrgencyWeight (q_cfg q)) (Fin 10)
      else fdiv (UrgencyWeight (q_cfg q)) (fadd (Fin 1) (duration_Seconds s)))"
    by (simp add: calculateUrgency_def s_def Let_def)
  have "s < 2 ^ 63" using wrap64_range by (simp add: s_def)
  then have d: "fbound 100 (fdiv (UrgencyWeight (q_cfg q)) (fadd (Fin 1) (duration_Seconds s)))" if "0 < s"
    using seconds_ge [OF that] fbound_div [OF w, of 0] by auto
  have "fbound (100 + 4) (fmul (UrgencyWeight (q_cfg q)) (Fin 10))" by (rule fbound_mul [OF w]) simp_all
  then show ?thesis using fbound_mono [OF d, of 104] by (simp add: u)
qed

lemma LocalityScore_bound:
  assumes "request_ok r"
  shows "fbound 63 (LocalityScore r)"
proof -
  have cap: "fbound 63 (fmin a (Fin 1))" if "fbound 63 a \<or> flt (Fin 0) a" for a
    using that by (cases a) (auto simp: fmin_def fbound_def min_def flt_def less_float64_def)
  have "fbound 63 (fdiv (float_of_int (CacheHitTokens r)) (float_of_int (PromptTokens r)))" if "0 < PromptTokens r"
  proof -
    have "1 \<le> PromptTokens r" "PromptTokens r < 2 ^ 63" using that assms by (simp_all add: request_ok_def)
    then obtain y where "float_of_int (PromptTokens r) = Fin y" "1 \<le> y"
      using float_ge [of 1 "PromptTokens r"] by auto
    moreover have "fbound 63 (float_of_int (CacheHitTokens r))"
      using assms by (intro fbound_of_int) (auto simp: request_ok_def)
    ultimately show ?thesis using fbound_div [of 63 _ 0 y] by simp
  qed
  then show ?thesis using cap by (simp add: LocalityScore_def Let_def)
qed

lemma tenant_config_ok:
  assumes "weights_ok (q_cfg q)"
  shows "tc_Weight (getTenantConfig q t) \<noteq> NaN" "TokenBudget (getTenantConfig q t) < 2 ^ 63"
  using assms ranI [of "Tenants (q_cfg q)" t]
  by (auto simp: getTenantConfig_def weights_ok_def split: option.splits)

lemma budget_ge:
  assumes "w \<noteq> NaN" "0 < n" "n < 2 ^ 63"
  shows "fmul (float_of_int n) (fmax w (round64 (1 / 10))) = PosInf \<or>
    (\<exists>z. fmul (float_of_int n) (fmax w (round64 (1 / 10))) = Fin z \<and> 1 / 2 ^ 4 \<le> z)"
proof -
  have x: "round64 (1 / 16) = Fin (1 / 16)" using round64_exact [of "1 / 16" 1 "- 4"] by simp
  obtain t where t: "round64 (1 / 10) = Fin t" "1 / 16 \<le> t" using round_ge_Fin [OF _ x, of "1 / 10" 1] by auto
  obtain b where b: "float_of_int n = Fin b" "1 \<le> b" using float_ge [of 1 n] assms by auto
  consider "fmax w (round64 (1 / 10)) = PosInf" | y where "fmax w (round64 (1 / 10)) = Fin y" "1 / 16 \<le> y"
  proof (cases w)
    case (Fin x)
    then show ?thesis using that t by (cases "x \<le> t") (auto simp: fmax_def max_def)
  qed (use assms(1) t that in \<open>auto simp: fmax_def max_def\<close>)
  then show ?thesis
  proof cases
    case 1
    then show ?thesis using b by (simp add: fmul_def finf_def)
  next
    case 2
    have "1 / 16 * 1 \<le> y * b" by (rule mult_mono) (use 2 b in auto)
    then have "Fin (1 / 16) \<le> round64 (b * y)" by (intro round_ge x) (simp add: mult.commute)
    then show ?thesis using le_Fin_cases [of "round64 (b * y)"] by (auto simp: 2 b)
  qed
qed

lemma calculateFairnessPenalty_bound:
  assumes "weights_ok (q_cfg q)"
  shows "fbound 171 (calculateFairnessPenalty q t)"
proof (cases "q_tenants q t")
  case None
  then show ?thesis by (simp add: calculateFairnessPenalty_def)
next
  case (Some ts)
  define n where "n = TokenBudget (getTenantConfig q t)"
  define active where "active = float_of_int (wrap64 (QueuedTokens ts + ActiveTokens ts))"
  define budget where "budget = fmul (float_of_int n) (fmax (tc_Weight (getTenantConfig q t)) (round64 (1 / 10)))"
  have e: "calculateFairnessPenalty q t = (if n \<le> 0 \<or> fle active budget then Fin 0
      else fmul (fmul (fdiv (fsub active budget) budget) (FairnessWeight (q_cfg q))) (Fin 10))"
    by (simp add: calculateFairnessPenalty_def Some Let_def n_def active_def budget_def)
  have "fbound 63 active" unfolding active_def
    using wrap64_range [of "QueuedTokens ts + ActiveTokens ts"] by (intro fbound_of_int) auto
  then obtain a where a: "active = Fin a" "\<bar>a\<bar> \<le> 2 ^ 63" using fbound_cases by blast
  have w: "fbound 100 (FairnessWeight (q_cfg q))" using assms by (simp add: weights_ok_def)
  show ?thesis
  proof (cases "n \<le> 0 \<or> fle active budget")
    case True
    then show ?thesis by (simp add: e)
  next
    case False
    then obtain z where z: "budget = Fin z" "1 / 2 ^ 4 \<le> z" "z < a"
      using budget_ge [of "tc_Weight (getTenantConfig q t)" n] tenant_config_ok [OF assms, of t] a
      by (auto simp: budget_def n_def fle_def)
    have "0 < z" by (rule less_le_trans [OF _ z(2)]) simp
    then have "fbound 63 (fsub active budget)" using z a by (simp add: fbound_round)
    from fbound_mul [OF fbound_mul [OF fbound_div [OF this z(2)] w], of 4 "Fin 10"]
    have "fbound 171 (fmul (fmul (fdiv (fsub active budget) (Fin z)) (FairnessWeight (q_cfg q))) (Fin 10))" by simp
    then show ?thesis using False by (simp add: e z(1))
  qed
qed

lemma calculatePriority_number:
  assumes "weights_ok (q_cfg q)" "request_ok r"
  shows "calculatePriority q r now \<noteq> NaN"
proof -
  have w: "fbound 100 (PriorityWeight (q_cfg q))" "fbound 100 (LocalityWeight (q_cfg q))" "fbound 100 (CostWeight (q_cfg q))"
    using assms(1) by (simp_all add: weights_ok_def)
  have "\<bar>qr_Priority r\<bar> \<le> 2 ^ 63" using assms(2) by (auto simp: request_ok_def)
  then have p: "fbound 63 (float_of_int (qr_Priority r))" by (rule fbound_of_int) simp
  have base: "fbound 171 (fmul (float_of_int (qr_Priority r)) (PriorityWeight (q_cfg q)))"
    by (rule fbound_mono [OF fbound_mul [OF p w(1)]]) simp_all
  have loc: "fbound 172 (fmul (LocalityScore r) (LocalityWeight (q_cfg q)))"
    by (rule fbound_mono [OF fbound_mul [OF LocalityScore_bound [OF assms(2)] w(2)]]) simp_all
  obtain c where c: "float_of_int (EffectiveCost r) = Fin c" "1 \<le> c" "\<bar>c\<bar> \<le> 2 ^ 63"
    using float_ge [of 1 "EffectiveCost r"] EffectiveCost_pos [of r] EffectiveCost_range [OF assms(2)] by auto
  obtain d where d: "round64 (c / 1000) = Fin d" "0 \<le> d" "\<bar>d\<bar> \<le> 2 ^ 63"
    using round_ge_Fin [of 0 "c / 1000" 63] c by auto
  obtain y where y: "round64 (1 + d) = Fin y" "1 \<le> y"
    using round_ge_Fin [of 1 "1 + d" 64] d by auto
  have cost: "fbound 173 (fdiv (CostWeight (q_cfg q)) (fadd (Fin 1) (fdiv (float_of_int (EffectiveCost r)) (Fin 1000))))"
    using fbound_mono [OF fbound_div [OF w(3), of 0 y], of 173] y by (simp add: c(1) d(1))
  have u: "fbound 171 (calculateUrgency q r now)" by (rule fbound_mono [OF calculateUrgency_bound [OF assms(1)]]) simp
  have f: "fbound 174 (calculateFairnessPenalty q (qr_TenantID r))"
    by (rule fbound_mono [OF calculateFairnessPenalty_bound [OF assms(1)]]) simp
  from fbound_add(1) [OF base u] have "fbound 172 (fadd (fmul (float_of_int (qr_Priority r)) (PriorityWeight (q_cfg q))) (calculateUrgency q r now))" by simp
  from fbound_add(1) [OF this loc] have "fbound 173 (fadd (fadd (fmul (float_of_int (qr_Priority r)) (PriorityWeight (q_cfg q)))
      (calculateUrgency q r now)) (fmul (LocalityScore r) (LocalityWeight (q_cfg q))))" by simp
  from fbound_add(1) [OF this cost] have "fbound 174 (fadd (fadd (fadd (fmul (float_of_int (qr_Priority r)) (PriorityWeight (q_cfg q)))
      (calculateUrgency q r now)) (fmul (LocalityScore r) (LocalityWeight (q_cfg q))))
      (fdiv (CostWeight (q_cfg q)) (fadd (Fin 1) (fdiv (float_of_int (EffectiveCost r)) (Fin 1000)))))" by simp
  from fbound_add(2) [OF this f] have "fbound (174 + 1) (calculatePriority q r now)"
    unfolding calculatePriority_def Let_def by simp
  then show ?thesis by (rule fbound_number)
qed

section \<open>The books\<close>

definition req_terms :: "QueuedRequest \<Rightarrow> string \<times> string \<times> int" where
  "req_terms r = (qr_ID r, qr_TenantID r, EffectiveCost r)"

definition of_tenant :: "request_store \<Rightarrow> nat set \<Rightarrow> string \<Rightarrow> nat set" where
  "of_tenant st S t = {x \<in> S. qr_TenantID (st x) = t}"

definition cost_of :: "request_store \<Rightarrow> nat set \<Rightarrow> int" where
  "cost_of st S = (\<Sum>x\<in>S. EffectiveCost (st x))"

text \<open>The lookup map and the counters describe exactly the requests in \<open>S\<close>.\<close>

definition books :: "request_store \<Rightarrow> TokenQueue \<Rightarrow> nat set \<Rightarrow> bool" where
  "books st q S \<longleftrightarrow> finite S \<and> (\<forall>i x. q_lookup q i = Some x \<longleftrightarrow> x \<in> S \<and> qr_ID (st x) = i) \<and>
     totalTokens q = cost_of st S \<and>
     (\<forall>t. QueuedTokens (tenant_of q t) = cost_of st (of_tenant st S t) \<and>
          QueuedRequests (tenant_of q t) = int (card (of_tenant st S t)))"

definition heap_ok :: "request_store \<Rightarrow> TokenQueue \<Rightarrow> bool" where
  "heap_ok st q \<longleftrightarrow> rq_inv st (st, q_heap q) \<and> is_heap (\<lambda>x. calculatedScore (st x)) (q_heap q)"

definition limits_ok :: "TokenQueue \<Rightarrow> bool" where
  "limits_ok q \<longleftrightarrow> 0 < MaxQueueTokens (q_cfg q) \<and> MaxQueueTokens (q_cfg q) < 2 ^ 63 \<and>
     0 < MaxQueueDepth (q_cfg q) \<and> totalTokens q \<le> MaxQueueTokens (q_cfg q) \<and>
     int (length (q_heap q)) \<le> MaxQueueDepth (q_cfg q) \<and> weights_ok (q_cfg q)"

text \<open>No tenant has more queued requests or tokens than its limits allow; a limit of zero means none.\<close>

definition tenant_within :: "TenantConfig \<Rightarrow> TenantState \<Rightarrow> bool" where
  "tenant_within tc ts \<longleftrightarrow> (MaxQueuedRequests tc > 0 \<longrightarrow> QueuedRequests ts \<le> MaxQueuedRequests tc) \<and>
     (MaxQueuedTokens tc > 0 \<longrightarrow> QueuedTokens ts \<le> MaxQueuedTokens tc)"

definition tenants_ok :: "TokenQueue \<Rightarrow> bool" where
  "tenants_ok q \<longleftrightarrow> (\<forall>t. tenant_within (getTenantConfig q t) (tenant_of q t))"

definition queue_inv :: "request_store \<Rightarrow> TokenQueue \<Rightarrow> bool" where
  "queue_inv st q \<longleftrightarrow> heap_ok st q \<and> books st q (set (q_heap q)) \<and> limits_ok q \<and> tenants_ok q"

lemma cost_of_mono: "finite S \<Longrightarrow> T \<subseteq> S \<Longrightarrow> cost_of st T \<le> cost_of st S"
  unfolding cost_of_def by (rule sum_mono2) (auto intro: order_trans [OF _ EffectiveCost_pos])

lemma card_le_cost: "int (card S) \<le> cost_of st S"
  using sum_bounded_below [of S 1 "\<lambda>x. EffectiveCost (st x)"] EffectiveCost_pos by (simp add: cost_of_def)

lemma cost_of_insert: "finite S \<Longrightarrow> x \<notin> S \<Longrightarrow> cost_of st (insert x S) = EffectiveCost (st x) + cost_of st S"
  by (simp add: cost_of_def)

lemma of_tenant_insert:
  "of_tenant st (insert x S) t = (if qr_TenantID (st x) = t then insert x (of_tenant st S t) else of_tenant st S t)"
  by (auto simp: of_tenant_def)

lemma of_tenant_sub: "of_tenant st S t \<subseteq> S" "x \<notin> S \<Longrightarrow> x \<notin> of_tenant st S t"
  by (auto simp: of_tenant_def)

lemma of_tenant_finite: "finite S \<Longrightarrow> finite (of_tenant st S t)"
  by (simp add: of_tenant_def)

lemma tenant_of_set: "tenant_of (set_tenant q t ts) u = (if u = t then ts else tenant_of q u)"
  by (simp add: tenant_of_def set_tenant_def)

lemma books_cong:
  assumes "\<And>x. x \<in> S \<Longrightarrow> req_terms (st' x) = req_terms (st x)"
  shows "books st' q S \<longleftrightarrow> books st q S"
proof -
  have e: "qr_ID (st' x) = qr_ID (st x)" "qr_TenantID (st' x) = qr_TenantID (st x)"
      "EffectiveCost (st' x) = EffectiveCost (st x)" if "x \<in> S" for x
    using assms [OF that] by (simp_all add: req_terms_def)
  have t: "of_tenant st' S t = of_tenant st S t" for t by (auto simp: of_tenant_def e)
  have c: "cost_of st' T = cost_of st T" if "T \<subseteq> S" for T
    unfolding cost_of_def using that by (intro sum.cong) (auto simp: e)
  show ?thesis
    unfolding books_def t c [OF subset_refl] c [OF of_tenant_sub(1)] by (auto simp: e)
qed

lemma books_fields:
  assumes "q_lookup q' = q_lookup q" "totalTokens q' = totalTokens q"
    "\<And>t. QueuedTokens (tenant_of q' t) = QueuedTokens (tenant_of q t) \<and>
          QueuedRequests (tenant_of q' t) = QueuedRequests (tenant_of q t)"
  shows "books st q' S \<longleftrightarrow> books st q S"
  using assms by (simp add: books_def)

lemma untrack_fields:
  "q_heap (untrack q i r) = q_heap q" "q_cfg (untrack q i r) = q_cfg q"
  "q_lookup (untrack q i r) = (q_lookup q)(i := None)"
  "totalTokens (untrack q i r) = wrap64 (totalTokens q - EffectiveCost r)"
  "QueuedTokens (tenant_of (untrack q i r) t) =
     (if t = qr_TenantID r then wrap64 (QueuedTokens (tenant_of q t) - EffectiveCost r) else QueuedTokens (tenant_of q t))"
  "QueuedRequests (tenant_of (untrack q i r) t) =
     (if t = qr_TenantID r then wrap64 (QueuedRequests (tenant_of q t) - 1) else QueuedRequests (tenant_of q t))"
  by (simp_all add: untrack_def getOrCreateTenantState_def Let_def) (simp_all add: set_tenant_def tenant_of_def)

lemma track_fields:
  "q_heap (track q x r) = q_heap q" "q_cfg (track q x r) = q_cfg q"
  "q_lookup (track q x r) = (q_lookup q)(qr_ID r \<mapsto> x)"
  "totalTokens (track q x r) = wrap64 (totalTokens q + EffectiveCost r)"
  "QueuedTokens (tenant_of (track q x r) t) =
     (if t = qr_TenantID r then wrap64 (QueuedTokens (tenant_of q t) + EffectiveCost r) else QueuedTokens (tenant_of q t))"
  "QueuedRequests (tenant_of (track q x r) t) =
     (if t = qr_TenantID r then wrap64 (QueuedRequests (tenant_of q t) + 1) else QueuedRequests (tenant_of q t))"
  by (simp_all add: track_def getOrCreateTenantState_def Let_def) (simp_all add: set_tenant_def tenant_of_def)

lemma books_bounds:
  assumes "books st q S" "cost_of st S < 2 ^ 63"
  shows "0 \<le> totalTokens q" "cost_of st (of_tenant st S t) \<le> cost_of st S" "0 \<le> cost_of st (of_tenant st S t)"
    "int (card (of_tenant st S t)) < 2 ^ 63"
proof -
  have f: "finite S" "totalTokens q = cost_of st S" using assms(1) by (simp_all add: books_def)
  show "cost_of st (of_tenant st S t) \<le> cost_of st S" by (rule cost_of_mono [OF f(1) of_tenant_sub(1)])
  then show "int (card (of_tenant st S t)) < 2 ^ 63"
    using card_le_cost [of "of_tenant st S t" st] assms(2) by linarith
  show "0 \<le> totalTokens q" "0 \<le> cost_of st (of_tenant st S t)"
    using card_le_cost [of S st] card_le_cost [of "of_tenant st S t" st] f(2) by linarith+
qed

lemma books_untrack:
  assumes "books st q (insert x S)" "x \<notin> S" "cost_of st (insert x S) < 2 ^ 63"
  shows "books st (untrack q (qr_ID (st x)) (st x)) S"
proof -
  note b = assms(1) [unfolded books_def]
  have fin: "finite S" using b by simp
  note bb = books_bounds [OF assms(1,3)]
  have c: "cost_of st (insert x S) = EffectiveCost (st x) + cost_of st S" using fin assms(2) by (rule cost_of_insert)
  have tot: "cost_of st T = EffectiveCost (st x) + cost_of st T' \<Longrightarrow> 0 \<le> cost_of st T' \<Longrightarrow> cost_of st T < 2 ^ 63 \<Longrightarrow>
      wrap64 (cost_of st T - EffectiveCost (st x)) = cost_of st T'" for T T'
    using EffectiveCost_pos [of "st x"] by simp
  have pos: "0 \<le> cost_of st T" for T using card_le_cost [of T st] by linarith
  have lk: "((q_lookup q)(qr_ID (st x) := None)) i = Some y \<longleftrightarrow> y \<in> S \<and> qr_ID (st y) = i" for i y
    using conjunct1 [OF conjunct2 [OF b]] assms(2)
    by (metis fun_upd_apply insert_iff option.distinct(1) option.inject)
  have tk: "wrap64 (cost_of st (of_tenant st (insert x S) (qr_TenantID (st x))) - EffectiveCost (st x)) =
      cost_of st (of_tenant st S (qr_TenantID (st x)))"
    by (rule tot) (use bb(2) [of "qr_TenantID (st x)"] assms(2,3) fin pos in
        \<open>simp_all add: of_tenant_insert cost_of_insert of_tenant_finite of_tenant_sub\<close>)
  have tc: "wrap64 (int (card (of_tenant st (insert x S) (qr_TenantID (st x)))) - 1) =
      int (card (of_tenant st S (qr_TenantID (st x))))"
    using bb(4) [of "qr_TenantID (st x)"] assms(2) fin
    by (simp add: of_tenant_insert of_tenant_finite of_tenant_sub)
  show ?thesis
    unfolding books_def untrack_fields
    using b fin lk tk tc tot [OF c] pos assms(3) by (auto simp: of_tenant_insert)
qed

lemma books_track:
  assumes "books st q S" "x \<notin> S" "q_lookup q (qr_ID (st x)) = None" "cost_of st S + EffectiveCost (st x) < 2 ^ 63"
  shows "books st (track q x (st x)) (insert x S)"
proof -
  note b = assms(1) [unfolded books_def]
  have fin: "finite S" using b by simp
  have lt: "cost_of st S < 2 ^ 63" using assms(4) EffectiveCost_pos [of "st x"] by linarith
  note bb = books_bounds [OF assms(1) lt]
  have c: "cost_of st (insert x S) = EffectiveCost (st x) + cost_of st S" using fin assms(2) by (rule cost_of_insert)
  have lk: "((q_lookup q)(qr_ID (st x) \<mapsto> x)) i = Some y \<longleftrightarrow> y \<in> insert x S \<and> qr_ID (st y) = i" for i y
    using conjunct1 [OF conjunct2 [OF b]] assms(2,3)
    by (metis fun_upd_apply insert_iff option.distinct(1) option.inject)
  have tk: "wrap64 (cost_of st (of_tenant st S t) + EffectiveCost (st x)) = EffectiveCost (st x) + cost_of st (of_tenant st S t)" for t
    using bb(2,3) [of t] EffectiveCost_pos [of "st x"] assms(4) by simp
  have tc: "wrap64 (int (card (of_tenant st S t)) + 1) = int (card (of_tenant st S t)) + 1" for t
    using bb(2) [of t] card_le_cost [of "of_tenant st S t" st] EffectiveCost_pos [of "st x"] assms(4) by simp
  have tot: "wrap64 (cost_of st S + EffectiveCost (st x)) = EffectiveCost (st x) + cost_of st S"
    using bb(1) b EffectiveCost_pos [of "st x"] assms(4) by simp
  show ?thesis
    unfolding books_def track_fields
    using b fin lk tk tc tot c assms(2) by (auto simp: of_tenant_insert cost_of_insert of_tenant_finite of_tenant_sub)
qed

section \<open>The heap operations on the queue\<close>

definition frame :: "request_store \<Rightarrow> request_store \<Rightarrow> bool" where
  "frame st st' \<longleftrightarrow> (\<forall>x. (st' x)\<lparr>heapIndex := 0\<rparr> = (st x)\<lparr>heapIndex := 0\<rparr>)"

definition same_books :: "TokenQueue \<Rightarrow> TokenQueue \<Rightarrow> bool" where
  "same_books q q' \<longleftrightarrow> q_lookup q' = q_lookup q \<and> totalTokens q' = totalTokens q \<and> q_tenants q' = q_tenants q \<and>
     q_cfg q' = q_cfg q"

lemma frame_refl [simp]: "frame st st"
  by (simp add: frame_def)

lemma frame_trans: "frame a b \<Longrightarrow> frame b c \<Longrightarrow> frame a c"
  by (simp add: frame_def)

lemma frame_fields:
  assumes "frame st st'"
  shows "req_terms (st' x) = req_terms (st x)" "calculatedScore (st' x) = calculatedScore (st x)"
    "past_deadline (st' x) now = past_deadline (st x) now" "EffectiveCost (st' x) = EffectiveCost (st x)"
    "qr_ID (st' x) = qr_ID (st x)" "qr_TenantID (st' x) = qr_TenantID (st x)"
proof -
  have e: "(st' x)\<lparr>heapIndex := 0\<rparr> = (st x)\<lparr>heapIndex := 0\<rparr>" using assms by (simp add: frame_def)
  have c: "EffectiveCost (r\<lparr>heapIndex := 0\<rparr>) = EffectiveCost r" for r by (simp add: EffectiveCost_def)
  show "qr_ID (st' x) = qr_ID (st x)" "qr_TenantID (st' x) = qr_TenantID (st x)"
    "calculatedScore (st' x) = calculatedScore (st x)" "EffectiveCost (st' x) = EffectiveCost (st x)"
    using arg_cong [OF e, of qr_ID] arg_cong [OF e, of qr_TenantID] arg_cong [OF e, of calculatedScore]
      arg_cong [OF e, of EffectiveCost] c by simp_all
  then show "req_terms (st' x) = req_terms (st x)" by (simp add: req_terms_def)
  show "past_deadline (st' x) now = past_deadline (st x) now"
    using arg_cong [OF e, of qr_Deadline] by (simp add: past_deadline_def)
qed

lemma request_ok_frame:
  assumes "frame st st'"
  shows "request_ok (st' x) = request_ok (st x)"
proof -
  have "(st' x)\<lparr>heapIndex := 0\<rparr> = (st x)\<lparr>heapIndex := 0\<rparr>" using assms by (simp add: frame_def)
  from arg_cong [OF this, of request_ok] show ?thesis by (simp add: request_ok_def)
qed

lemma books_frame: "frame st st' \<Longrightarrow> books st' q S = books st q S"
  by (intro books_cong) (simp add: frame_fields)

lemma cost_of_frame: "frame st st' \<Longrightarrow> cost_of st' S = cost_of st S"
  by (simp add: cost_of_def frame_fields)

lemma heap_ok_frame: "rq_inv st (st', q_heap q) \<Longrightarrow> is_heap (score (st, h)) (q_heap q) \<Longrightarrow> heap_ok st' q \<and> frame st st'"
proof -
  assume a: "rq_inv st (st', q_heap q)" "is_heap (score (st, h)) (q_heap q)"
  then have f: "frame st st'" by (simp add: rq_inv_def frame_def)
  then have "(\<lambda>x. calculatedScore (st' x)) = score (st, h)" by (simp add: score_def fun_eq_iff frame_fields)
  with a f show ?thesis by (simp add: heap_ok_def rq_inv_def request_ok_frame)
qed

lemma heap_ok_score: "heap_ok st q \<Longrightarrow> rq_inv st (st, q_heap q) \<and> is_heap (score (st, q_heap q)) (q_heap q)"
  by (simp add: heap_ok_def score_def [abs_def])

lemma taken_out:
  assumes "distinct h" "mset h = add_mset x (mset h')"
  shows "x \<notin> set h'" "set h = insert x (set h')" "length h = Suc (length h')"
proof -
  have m: "mset h = mset (x # h')" using assms(2) by simp
  then have "distinct (x # h')" using mset_eq_imp_distinct_iff [OF m] assms(1) by blast
  then show "x \<notin> set h'" by simp
  show "set h = insert x (set h')" "length h = Suc (length h')"
    using mset_eq_setD [OF m] mset_eq_length [OF m] by simp_all
qed

lemma pop_request_spec:
  assumes "heap_ok st q" "q_heap q \<noteq> []" "pop_request st q = (st', q', x)"
  shows "heap_ok st' q' \<and> frame st st' \<and> x \<notin> set (q_heap q') \<and> set (q_heap q) = insert x (set (q_heap q')) \<and>
    same_books q q' \<and> length (q_heap q) = Suc (length (q_heap q')) \<and>
    (\<forall>y \<in> set (q_heap q). calculatedScore (st y) \<le> calculatedScore (st x))"
proof -
  note ok = heap_ok_score [OF assms(1)]
  obtain h' where p: "heap_Pop rq_Less rq_Swap rq_Len rq_Pop (st, q_heap q) = ((st', h'), x)" "q' = q\<lparr>q_heap := h'\<rparr>"
    using assms(3) by (auto simp: pop_request_def split: prod.splits)
  have P: "rq_inv st (st', h')" "is_heap (score (st, q_heap q)) h'" "x = q_heap q ! 0"
      "mset (q_heap q) = add_mset x (mset h')"
    using rq.Pop_spec [of st "(st, q_heap q)" "(st', h')" x] ok assms(2) p(1) by simp_all
  have "calculatedScore (st y) \<le> calculatedScore (st x)" if "y \<in> set (q_heap q)" for y
    using that heap_root_max [of "score (st, q_heap q)" "q_heap q"] ok P(3)
    by (auto simp: in_set_conv_nth score_def)
  moreover have "distinct (q_heap q)" using ok by (simp add: rq_inv_def)
  ultimately show ?thesis
    using heap_ok_frame [of st st' q' "q_heap q"] P p(2) taken_out [OF _ P(4)] by (simp add: same_books_def)
qed

lemma remove_request_spec:
  assumes "heap_ok st q" "i < length (q_heap q)" "remove_request st q i = (st', q')"
  shows "heap_ok st' q' \<and> frame st st' \<and> q_heap q ! i \<notin> set (q_heap q') \<and>
    set (q_heap q) = insert (q_heap q ! i) (set (q_heap q')) \<and>
    same_books q q' \<and> length (q_heap q) = Suc (length (q_heap q'))"
proof -
  note ok = heap_ok_score [OF assms(1)]
  obtain h' x where p: "heap_Remove rq_Less rq_Swap rq_Len rq_Pop (st, q_heap q) i = ((st', h'), x)" "q' = q\<lparr>q_heap := h'\<rparr>"
    using assms(3) by (auto simp: remove_request_def split: prod.splits)
  have P: "rq_inv st (st', h')" "is_heap (score (st, q_heap q)) h'" "x = q_heap q ! i"
      "mset (q_heap q) = add_mset x (mset h')"
    using rq.Remove_spec [of st "(st, q_heap q)" i "(st', h')" x] ok assms(2) p(1) by simp_all
  have "distinct (q_heap q)" using ok by (simp add: rq_inv_def)
  then show ?thesis
    using heap_ok_frame [of st st' q' "q_heap q"] P p(2) taken_out [OF _ P(4)] by (simp add: same_books_def)
qed

lemma heap_ok_upd:
  assumes "x \<notin> set (q_heap q)" "heap_ok st q" "request_ok r"
  shows "heap_ok (st(x := r)) q"
proof -
  have "(st(x := r)) (q_heap q ! k) = st (q_heap q ! k)" if "k < length (q_heap q)" for k
    using assms nth_mem [OF that] by auto
  then have "rq_inv (st(x := r)) (st(x := r), q_heap q)"
    using assms(2,3) by (simp add: heap_ok_def rq_inv_def)
  moreover have "is_heap (\<lambda>y. calculatedScore ((st(x := r)) y)) (q_heap q) = is_heap (\<lambda>y. calculatedScore (st y)) (q_heap q)"
    by (rule is_heap_cong) (use assms(1) in auto)
  ultimately show ?thesis using assms(2) by (simp add: heap_ok_def)
qed

lemma push_request_spec:
  assumes "heap_ok st q" "x \<notin> set (q_heap q)" "push_request (st(x := r)) q x = (st', q')" "request_ok r"
  shows "heap_ok st' q' \<and> frame (st(x := r)) st' \<and> set (q_heap q') = insert x (set (q_heap q)) \<and>
    same_books q q' \<and> length (q_heap q') = Suc (length (q_heap q))"
proof -
  let ?st = "st(x := r)"
  have ok: "heap_ok ?st q" by (rule heap_ok_upd [OF assms(2,1,4)])
  then have inv: "rq_inv ?st (?st, q_heap q)" and hp: "is_heap (score (?st, q_heap q)) (q_heap q)"
    using heap_ok_score by blast+
  obtain h' where p: "heap_Push rq_Less rq_Swap rq_Len rq_Push (?st, q_heap q) x = (st', h')" "q' = q\<lparr>q_heap := h'\<rparr>"
    using assms(3) by (auto simp: push_request_def split: prod.splits)
  have P: "rq_inv ?st (st', h')" "is_heap (score (?st, q_heap q)) h'" "mset h' = add_mset x (mset (q_heap q))"
    using rq.Push_spec [of ?st "(?st, q_heap q)" x "(st', h')"] inv hp assms(2) p(1) by simp_all
  have "mset h' = mset (x # q_heap q)" using P(3) by simp
  then have "set h' = insert x (set (q_heap q))" "length h' = Suc (length (q_heap q))"
    using mset_eq_setD [of h' "x # q_heap q"] mset_eq_length [of h' "x # q_heap q"] by simp_all
  then show ?thesis using heap_ok_frame [of ?st st' q' "q_heap q"] P p(2) by (simp add: same_books_def)
qed

section \<open>The loops\<close>

lemma books_same: "same_books q q' \<Longrightarrow> books st q' S = books st q S"
  by (intro books_fields) (simp_all add: same_books_def tenant_of_def)

lemma untrack_total:
  assumes "books st q (insert x S)" "x \<notin> S" "cost_of st (insert x S) < 2 ^ 63"
  shows "totalTokens (untrack q (qr_ID (st x)) (st x)) = cost_of st S"
  using books_untrack [OF assms] by (simp add: books_def)

lemma pop_untrack:
  assumes "heap_ok st q" "books st q (set (q_heap q))" "cost_of st (set (q_heap q)) < 2 ^ 63" "q_heap q \<noteq> []"
    and "pop_request st q = (st', q', x)"
  shows "books st' (untrack q' (qr_ID (st' x)) (st' x)) (set (q_heap q'))"
proof (rule books_untrack)
  note P = pop_request_spec [OF assms(1,4,5)]
  then have "books st' q' (set (q_heap q)) = books st q (set (q_heap q))"
    using books_same [of q q' st'] books_frame [of st st' q] by simp
  then show "books st' q' (insert x (set (q_heap q')))" using assms(2) P by simp
  show "x \<notin> set (q_heap q')" using P by simp
  show "cost_of st' (insert x (set (q_heap q'))) < 2 ^ 63" using P assms(3) cost_of_frame [of st st'] by simp
qed

lemma heap_ok_cong: "q_heap q' = q_heap q \<Longrightarrow> heap_ok st q' = heap_ok st q"
  by (simp add: heap_ok_def)

lemma books_count [simp]:
  "books st (q\<lparr>expiredEvictedCount := n\<rparr>) S = books st q S" "heap_ok st (q\<lparr>expiredEvictedCount := n\<rparr>) = heap_ok st q"
  "books st (q\<lparr>admittedCount := n\<rparr>) S = books st q S" "heap_ok st (q\<lparr>admittedCount := n\<rparr>) = heap_ok st q"
  "books st (q\<lparr>rejectedCount := n\<rparr>) S = books st q S" "heap_ok st (q\<lparr>rejectedCount := n\<rparr>) = heap_ok st q"
  "books st (q\<lparr>backpressuredCount := n\<rparr>) S = books st q S" "heap_ok st (q\<lparr>backpressuredCount := n\<rparr>) = heap_ok st q"
  by (simp_all add: books_def tenant_of_def heap_ok_def)

lemma books_active:
  assumes "ts = tenant_of q t"
  shows "books st (set_tenant q t (ts\<lparr>ActiveTokens := a\<rparr>)) S = books st q S"
    "books st (set_tenant q t (ts\<lparr>ActiveTokens := a, ServedTokens := b\<rparr>)) S = books st q S"
    "books st (set_tenant q t ts) S = books st q S"
  using assms by (intro books_fields; simp add: tenant_of_set; simp add: set_tenant_def)+

lemma set_tenant_fields [simp]:
  "q_heap (set_tenant q t ts) = q_heap q" "q_cfg (set_tenant q t ts) = q_cfg q"
  "totalTokens (set_tenant q t ts) = totalTokens q" "q_lookup (set_tenant q t ts) = q_lookup q"
  by (simp_all add: set_tenant_def)

text \<open>One round of the loops that pop: the popped request leaves the heap and the books.\<close>

lemma pop_round:
  assumes "heap_ok st q" "books st q (set (q_heap q))" "cost_of st (set (q_heap q)) < 2 ^ 63" "q_heap q \<noteq> []"
    and "pop_request st q = (st1, q1, x)"
  defines "q2 \<equiv> untrack q1 (qr_ID (st1 x)) (st1 x)"
  shows "heap_ok st1 q2 \<and> books st1 q2 (set (q_heap q2)) \<and> frame st st1 \<and> q_cfg q2 = q_cfg q \<and>
    x \<notin> set (q_heap q2) \<and> set (q_heap q) = insert x (set (q_heap q2)) \<and>
    length (q_heap q) = Suc (length (q_heap q2)) \<and> cost_of st1 (set (q_heap q2)) < 2 ^ 63 \<and>
    (\<forall>y \<in> set (q_heap q). calculatedScore (st y) \<le> calculatedScore (st x))"
proof -
  note P = pop_request_spec [OF assms(1,4,5)]
  have h: "q_heap q2 = q_heap q1" by (simp add: q2_def untrack_fields)
  have "cost_of st (set (q_heap q1)) \<le> cost_of st (set (q_heap q))"
    by (rule cost_of_mono) (use P in auto)
  then show ?thesis
    using P pop_untrack [OF assms(1-5)] heap_ok_cong [OF h] h cost_of_frame [of st st1] assms(3)
    by (simp add: q2_def untrack_fields same_books_def)
qed

lemma dequeue_loop_spec:
  assumes "heap_ok st q" "books st q (set (q_heap q))" "cost_of st (set (q_heap q)) < 2 ^ 63"
    and "dequeue_loop st q now = (st', q', r)"
  shows "heap_ok st' q' \<and> books st' q' (set (q_heap q')) \<and> frame st st' \<and> q_cfg q' = q_cfg q \<and>
    set (q_heap q') \<subseteq> set (q_heap q) \<and> length (q_heap q') \<le> length (q_heap q) \<and>
    (case r of None \<Rightarrow> q_heap q' = [] \<and> (\<forall>y \<in> set (q_heap q). past_deadline (st y) now)
     | Some x \<Rightarrow> x \<in> set (q_heap q) \<and> x \<notin> set (q_heap q') \<and> \<not> past_deadline (st x) now \<and>
         (\<forall>y \<in> set (q_heap q'). calculatedScore (st y) \<le> calculatedScore (st x)) \<and>
         (\<forall>y \<in> set (q_heap q). y = x \<or> y \<in> set (q_heap q') \<or> past_deadline (st y) now))"
  using assms
proof (induction "length (q_heap q)" arbitrary: st q rule: less_induct)
  case less
  show ?case
  proof (cases "q_heap q = []")
    case True
    then show ?thesis using less.prems by (simp add: dequeue_loop.simps [of st q])
  next
    case False
    obtain st1 q1 x where p: "pop_request st q = (st1, q1, x)" by (metis prod_cases3)
    let ?q2 = "untrack q1 (qr_ID (st1 x)) (st1 x)"
    note R = pop_round [OF less.prems(1-3) False p]
    have late: "past_deadline (st1 y) now = past_deadline (st y) now" "calculatedScore (st1 y) = calculatedScore (st y)" for y
      using R by (simp_all add: frame_fields)
    show ?thesis
    proof (cases "past_deadline (st1 x) now")
      case True
      let ?q3 = "?q2\<lparr>expiredEvictedCount := wrap64 (expiredEvictedCount ?q2 + 1)\<rparr>"
      have "dequeue_loop st1 ?q3 now = (st', q', r)"
        using less.prems(4) False True by (simp add: dequeue_loop.simps [of st q] p Let_def)
      with less.hyps [of ?q3 st1] R
      have IH: "heap_ok st' q' \<and> books st' q' (set (q_heap q')) \<and> frame st1 st' \<and> q_cfg q' = q_cfg ?q2 \<and>
          set (q_heap q') \<subseteq> set (q_heap ?q2) \<and> length (q_heap q') \<le> length (q_heap ?q2) \<and>
          (case r of None \<Rightarrow> q_heap q' = [] \<and> (\<forall>y \<in> set (q_heap ?q2). past_deadline (st1 y) now)
           | Some x \<Rightarrow> x \<in> set (q_heap ?q2) \<and> x \<notin> set (q_heap q') \<and> \<not> past_deadline (st1 x) now \<and>
              (\<forall>y \<in> set (q_heap q'). calculatedScore (st1 y) \<le> calculatedScore (st1 x)) \<and>
              (\<forall>y \<in> set (q_heap ?q2). y = x \<or> y \<in> set (q_heap q') \<or> past_deadline (st1 y) now))"
        by (cases r) auto
      have "frame st st'" using R IH frame_trans by blast
      then show ?thesis
        using IH R True by (cases r) (auto simp: late)
    next
      case no: False
      let ?ts = "tenant_of ?q2 (qr_TenantID (st1 x))"
      have e: "st' = st1" "q' = set_tenant ?q2 (qr_TenantID (st1 x))
          (?ts\<lparr>ActiveTokens := wrap64 (ActiveTokens ?ts + EffectiveCost (st1 x))\<rparr>)" "r = Some x"
        using less.prems(4) False no by (auto simp: dequeue_loop.simps [of st q] p Let_def)
      have "heap_ok st1 q' = heap_ok st1 ?q2" by (rule heap_ok_cong) (simp add: e(2))
      then show ?thesis
        using R no by (auto simp: e books_active(1) [OF refl] late)
    qed
  qed
qed

lemma drain_spec:
  assumes "heap_ok st q" "books st q (set (q_heap q))" "cost_of st (set (q_heap q)) < 2 ^ 63"
    and "drain st q now v e = (st', q', v', e')"
  shows "heap_ok st' q' \<and> books st' q' {} \<and> frame st st' \<and> q_cfg q' = q_cfg q \<and> q_heap q' = [] \<and>
    (\<exists>w. v' = v @ w \<and> distinct w \<and> set w = {x \<in> set (q_heap q). \<not> past_deadline (st x) now} \<and>
         int (length w) = int (length (q_heap q)) - (e' - e))"
  using assms
proof (induction "length (q_heap q)" arbitrary: st q v e rule: less_induct)
  case less
  show ?case
  proof (cases "q_heap q = []")
    case True
    then show ?thesis using less.prems by (simp add: drain.simps [of st q])
  next
    case False
    obtain st1 q1 x where p: "pop_request st q = (st1, q1, x)" by (metis prod_cases3)
    let ?q2 = "untrack q1 (qr_ID (st1 x)) (st1 x)"
    note R = pop_round [OF less.prems(1-3) False p]
    have late: "past_deadline (st1 y) now = past_deadline (st y) now" for y
      using R by (simp add: frame_fields)
    show ?thesis
    proof (cases "past_deadline (st1 x) now")
      case True
      let ?q3 = "?q2\<lparr>expiredEvictedCount := wrap64 (expiredEvictedCount ?q2 + 1)\<rparr>"
      have "drain st1 ?q3 now v (e + 1) = (st', q', v', e')"
        using less.prems(4) False True by (simp add: drain.simps [of st q] p Let_def)
      with less.hyps [of ?q3 st1 v "e + 1"] R obtain w where
        IH: "heap_ok st' q'" "books st' q' {}" "frame st1 st'" "q_cfg q' = q_cfg ?q2" "q_heap q' = []"
          "v' = v @ w" "distinct w" "set w = {x \<in> set (q_heap ?q2). \<not> past_deadline (st1 x) now}"
          "int (length w) = int (length (q_heap ?q2)) - (e' - (e + 1))"
        by auto
      then show ?thesis using R True frame_trans [of st st1 st'] by (auto simp: late)
    next
      case no: False
      have "drain st1 ?q2 now (v @ [x]) e = (st', q', v', e')"
        using less.prems(4) False no by (simp add: drain.simps [of st q] p Let_def)
      with less.hyps [of ?q2 st1 "v @ [x]" e] R obtain w where
        IH: "heap_ok st' q'" "books st' q' {}" "frame st1 st'" "q_cfg q' = q_cfg ?q2" "q_heap q' = []"
          "v' = (v @ [x]) @ w" "distinct w" "set w = {x \<in> set (q_heap ?q2). \<not> past_deadline (st1 x) now}"
          "int (length w) = int (length (q_heap ?q2)) - (e' - e)"
        by auto
      have "v' = v @ (x # w) \<and> distinct (x # w) \<and> set (x # w) = {x \<in> set (q_heap q). \<not> past_deadline (st x) now} \<and>
         int (length (x # w)) = int (length (q_heap q)) - (e' - e)"
        using IH R no by (auto simp: late)
      then show ?thesis using IH R frame_trans [of st st1 st'] by metis
    qed
  qed
qed

lemma track_cong: "req_terms r = req_terms r' \<Longrightarrow> track q x r = track q x r'"
  by (simp add: track_def req_terms_def)

lemma untrack_cong: "req_terms r = req_terms r' \<Longrightarrow> untrack q i r = untrack q i r'"
  by (simp add: untrack_def req_terms_def)

lemma req_terms_score [simp]: "req_terms (r\<lparr>calculatedScore := c\<rparr>) = req_terms r"
    "req_terms (r\<lparr>calculatedScore := c, qr_Arrival := a\<rparr>) = req_terms r"
  by (simp_all add: req_terms_def EffectiveCost_def)

text \<open>Pushing a fresh request and booking it.\<close>

lemma push_track:
  assumes "heap_ok st q" "books st q (set (q_heap q))" "x \<notin> set (q_heap q)"
    and r: "req_terms r = req_terms (st x)" and "q_lookup q (qr_ID (st x)) = None"
    and "cost_of st (insert x (set (q_heap q))) < 2 ^ 63"
    and "push_request (st(x := r)) q x = (st1, q1)" and "request_ok r"
  shows "heap_ok st1 (track q1 x r) \<and> books st1 (track q1 x r) (insert x (set (q_heap q))) \<and>
    set (q_heap (track q1 x r)) = insert x (set (q_heap q)) \<and>
    length (q_heap (track q1 x r)) = Suc (length (q_heap q)) \<and> q_cfg (track q1 x r) = q_cfg q \<and>
    (\<forall>y. req_terms (st1 y) = req_terms (st y)) \<and> frame (st(x := r)) st1"
proof -
  note P = push_request_spec [OF assms(1,3,7,8)]
  have terms: "req_terms (st1 y) = req_terms (st y)" for y
    using frame_fields(1) [of "st(x := r)" st1 y] P r by (cases "y = x") simp_all
  have t: "track q1 x r = track q1 x (st1 x)" by (rule track_cong) (simp add: terms r)
  have fields: "qr_ID (st1 y) = qr_ID (st y)" "EffectiveCost (st1 y) = EffectiveCost (st y)" for y
    using terms [of y] by (simp_all add: req_terms_def)
  have "books st1 (track q1 x (st1 x)) (insert x (set (q_heap q)))"
  proof (rule books_track)
    have "books st1 q (set (q_heap q))" using assms(2) books_cong [of "set (q_heap q)" st1 st q] terms by simp
    then show "books st1 q1 (set (q_heap q))" using books_same [of q q1] P by simp
    show "q_lookup q1 (qr_ID (st1 x)) = None" using assms(5) P by (simp add: fields same_books_def)
    show "cost_of st1 (set (q_heap q)) + EffectiveCost (st1 x) < 2 ^ 63"
      using assms(3,6) by (simp add: fields cost_of_insert) (simp add: cost_of_def fields)
  qed (rule assms(3))
  moreover have "heap_ok st1 (track q1 x r) = heap_ok st1 q1" by (rule heap_ok_cong) (simp add: track_fields)
  ultimately show ?thesis using P terms t by (simp add: track_fields same_books_def)
qed

lemma books_lookup: "books st q S \<Longrightarrow> x \<in> S \<Longrightarrow> q_lookup q (qr_ID (st x)) = Some x"
  by (simp add: books_def)

lemma lookup_fresh:
  assumes "books st q S" "\<And>y. y \<in> S \<Longrightarrow> qr_ID (st y) \<noteq> i"
  shows "q_lookup q i = None"
  using assms by (cases "q_lookup q i") (auto simp: books_def)

lemma requeue_spec:
  assumes "heap_ok st q" "books st q (set (q_heap q))" "distinct v" "set v \<inter> set (q_heap q) = {}"
    and "inj_on (\<lambda>x. qr_ID (st x)) (set v \<union> set (q_heap q))" "cost_of st (set v \<union> set (q_heap q)) < 2 ^ 63"
    and "requeue st q now v = (st', q')" and "weights_ok (q_cfg q)"
  shows "heap_ok st' q' \<and> books st' q' (set v \<union> set (q_heap q)) \<and> set (q_heap q') = set v \<union> set (q_heap q) \<and>
    length (q_heap q') = length v + length (q_heap q) \<and> q_cfg q' = q_cfg q \<and>
    (\<forall>x. req_terms (st' x) = req_terms (st x) \<and> past_deadline (st' x) t = past_deadline (st x) t)"
  using assms
proof (induction v arbitrary: st q)
  case (Cons x v)
  define r where "r = (st x)\<lparr>calculatedScore := calculatePriority q (st x) now\<rparr>"
  obtain st1 q1 where p: "push_request (st(x := r)) q x = (st1, q1)" by fastforce
  have fresh: "q_lookup q (qr_ID (st x)) = None"
    using Cons.prems(4,5) by (intro lookup_fresh [OF Cons.prems(2)]) (auto simp: inj_on_def)
  have cost: "cost_of st (insert x (set (q_heap q))) < 2 ^ 63"
    by (rule le_less_trans [OF cost_of_mono Cons.prems(6)]) auto
  have x: "x \<notin> set (q_heap q)" using Cons.prems(4) by auto
  have rt: "req_terms r = req_terms (st x)" by (simp add: r_def)
  have "request_ok (st x)" using Cons.prems(1) by (simp add: heap_ok_def rq_inv_def)
  then have rok: "request_ok r"
    using calculatePriority_number [OF Cons.prems(8)] by (simp add: r_def request_ok_def)
  note P = push_track [OF Cons.prems(1,2) x rt fresh cost p rok]
  let ?q2 = "track q1 x r"
  have terms: "req_terms (st1 y) = req_terms (st y)" for y using P by blast
  then have f: "qr_ID (st1 y) = qr_ID (st y)" "EffectiveCost (st1 y) = EffectiveCost (st y)" for y
    by (simp_all add: req_terms_def)
  have c: "cost_of st1 S = cost_of st S" for S by (simp add: cost_of_def f)
  have u: "set v \<union> set (q_heap ?q2) = set (x # v) \<union> set (q_heap q)" using P by auto
  have late: "past_deadline (st1 y) t = past_deadline (st y) t" for y
    using frame_fields(3) [of "st(x := r)" st1 y t] P by (cases "y = x") (simp_all add: past_deadline_def r_def)
  have "requeue st1 ?q2 now v = (st', q')" using Cons.prems(7) p by (simp add: r_def Let_def)
  moreover have "set v \<inter> set (q_heap ?q2) = {}" "distinct v" using Cons.prems(3,4) P by auto
  ultimately have IH: "heap_ok st' q' \<and> books st' q' (set v \<union> set (q_heap ?q2)) \<and> set (q_heap q') = set v \<union> set (q_heap ?q2) \<and>
      length (q_heap q') = length v + length (q_heap ?q2) \<and> q_cfg q' = q_cfg ?q2 \<and>
      (\<forall>x. req_terms (st' x) = req_terms (st1 x) \<and> past_deadline (st' x) t = past_deadline (st1 x) t)"
    using Cons.IH [of st1 ?q2] P Cons.prems(5,6,8) by (simp only: u c f) simp
  then show ?case using P u late terms by simp
qed simp

section \<open>The invariant of the queue\<close>

text \<open>
  The queues a client can reach. A request is enqueued at an address that is not queued, under
  an identifier that is not queued, its integers are 64-bit and its cost leaves room below the
  integer range. \<open>Enqueue\<close> checks none of this: it is what the client has to keep to.
\<close>

inductive queue_reach :: "TokenQueueConfig \<Rightarrow> request_store \<Rightarrow> TokenQueue \<Rightarrow> bool" for cfg where
  new: "(\<forall>x. request_ok (st x)) \<Longrightarrow> queue_reach cfg st (NewTokenQueue cfg)"
| enqueue: "queue_reach cfg st q \<Longrightarrow> request_ok r \<Longrightarrow> x \<notin> set (q_heap q) \<Longrightarrow> q_lookup q (qr_ID r) = None \<Longrightarrow>
    EffectiveCost r + MaxQueueTokens (q_cfg q) < 2 ^ 63 \<Longrightarrow>
    Enqueue (st(x := r)) q x now = (st', q', res) \<Longrightarrow> queue_reach cfg st' q'"
| dequeue: "queue_reach cfg st q \<Longrightarrow> Dequeue st q now = (st', q', out) \<Longrightarrow> queue_reach cfg st' q'"
| remove: "queue_reach cfg st q \<Longrightarrow> Remove st q i = (st', q', found) \<Longrightarrow> queue_reach cfg st' q'"
| finish: "queue_reach cfg st q \<Longrightarrow> queue_reach cfg st (Finish q t alloc act)"
| evict: "queue_reach cfg st q \<Longrightarrow> EvictExpired_q st q now = (st', q', n) \<Longrightarrow> queue_reach cfg st' q'"

lemma limits_sub:
  "limits_ok q \<Longrightarrow> q_cfg q' = q_cfg q \<Longrightarrow> totalTokens q' \<le> totalTokens q \<Longrightarrow>
   length (q_heap q') \<le> length (q_heap q) \<Longrightarrow> limits_ok q'"
  by (auto simp: limits_ok_def)

text \<open>Fewer queued requests keep the tenants within their limits.\<close>

lemma getTenantConfig_cong: "q_cfg q' = q_cfg q \<Longrightarrow> getTenantConfig q' t = getTenantConfig q t"
  unfolding getTenantConfig_def by (simp only:)

lemma tenants_ok_cong:
  assumes "q_cfg q' = q_cfg q"
    and "\<And>t. QueuedTokens (tenant_of q' t) = QueuedTokens (tenant_of q t) \<and> QueuedRequests (tenant_of q' t) = QueuedRequests (tenant_of q t)"
  shows "tenants_ok q' = tenants_ok q"
  by (simp add: tenants_ok_def tenant_within_def getTenantConfig_cong [OF assms(1)] assms(2))

lemma tenants_sub:
  assumes "tenants_ok q" "books st q S" "books st' q' S'" "S' \<subseteq> S" "q_cfg q' = q_cfg q"
    and "\<And>x. req_terms (st' x) = req_terms (st x)"
  shows "tenants_ok q'"
  unfolding tenants_ok_def
proof
  fix t
  have f: "qr_TenantID (st' x) = qr_TenantID (st x)" "EffectiveCost (st' x) = EffectiveCost (st x)" for x
    using assms(6) [of x] by (simp_all add: req_terms_def)
  have fin: "finite (of_tenant st S t)" using assms(2) by (simp add: books_def of_tenant_finite)
  have sub: "of_tenant st' S' t \<subseteq> of_tenant st S t" using assms(4) by (auto simp: of_tenant_def f)
  have "cost_of st' (of_tenant st' S' t) = cost_of st (of_tenant st' S' t)" by (simp add: cost_of_def f)
  then have "QueuedTokens (tenant_of q' t) \<le> QueuedTokens (tenant_of q t)"
    using cost_of_mono [OF fin sub, of st] assms(2,3) by (simp add: books_def)
  moreover have "QueuedRequests (tenant_of q' t) \<le> QueuedRequests (tenant_of q t)"
    using card_mono [OF fin sub] assms(2,3) by (simp add: books_def)
  moreover have "getTenantConfig q' t = getTenantConfig q t" by (rule getTenantConfig_cong [OF assms(5)])
  ultimately show "tenant_within (getTenantConfig q' t) (tenant_of q' t)"
    using assms(1) unfolding tenants_ok_def tenant_within_def by (metis order.trans)
qed

lemma queue_inv_cost:
  assumes "queue_inv st q"
  shows "heap_ok st q" "books st q (set (q_heap q))" "cost_of st (set (q_heap q)) < 2 ^ 63" "limits_ok q"
    "totalTokens q = cost_of st (set (q_heap q))" "weights_ok (q_cfg q)" "tenants_ok q"
  using assms by (auto simp: queue_inv_def books_def limits_ok_def)

lemma queue_inv_new:
  "MaxQueueTokens cfg < 2 ^ 63 \<Longrightarrow> weights_ok cfg \<Longrightarrow> (\<forall>x. request_ok (st x)) \<Longrightarrow> queue_inv st (NewTokenQueue cfg)"
  by (simp add: queue_inv_def NewTokenQueue_def Let_def heap_ok_def rq_inv_def is_heap_def books_def
      tenant_of_def cost_of_def of_tenant_def limits_ok_def weights_ok_def tenants_ok_def tenant_within_def)

lemma evaluateAdmission_admit:
  assumes "evaluateAdmission q r tc ts cost now = (DispositionAdmit, reason, retry)"
  shows "int (length (q_heap q)) + 1 \<le> MaxQueueDepth (q_cfg q)"
    "wrap64 (totalTokens q + cost) \<le> MaxQueueTokens (q_cfg q)" "\<not> past_deadline r now"
    "MaxQueuedRequests tc > 0 \<Longrightarrow> wrap64 (QueuedRequests ts + 1) \<le> MaxQueuedRequests tc"
    "MaxQueuedTokens tc > 0 \<Longrightarrow> wrap64 (QueuedTokens ts + cost) \<le> MaxQueuedTokens tc"
  using assms by (auto simp: evaluateAdmission_def Let_def split: if_splits)

lemma Enqueue_admit:
  assumes inv: "queue_inv st q" and x: "x \<notin> set (q_heap q)" and i: "q_lookup q (qr_ID (st x)) = None"
    and c: "EffectiveCost (st x) + MaxQueueTokens (q_cfg q) < 2 ^ 63"
    and ev: "int (length (q_heap q)) + 1 \<le> MaxQueueDepth (q_cfg q)"
      "wrap64 (totalTokens q + EffectiveCost (st x)) \<le> MaxQueueTokens (q_cfg q)"
    and tl: "tenant_within (getTenantConfig q (qr_TenantID (st x))) (tenant_of q (qr_TenantID (st x))
      \<lparr>QueuedRequests := wrap64 (QueuedRequests (tenant_of q (qr_TenantID (st x))) + 1),
       QueuedTokens := wrap64 (QueuedTokens (tenant_of q (qr_TenantID (st x))) + EffectiveCost (st x))\<rparr>)"
    and r: "req_terms r = req_terms (st x)" and p: "push_request (st(x := r)) q x = (st1, q1)" and rok: "request_ok r"
  shows "queue_inv st1 (track q1 x r)"
proof -
  note Q = queue_inv_cost [OF inv]
  have t: "totalTokens q \<le> MaxQueueTokens (q_cfg q)" "0 \<le> totalTokens q"
    using Q(4) books_bounds(1) [OF Q(2,3)] by (simp_all add: limits_ok_def)
  then have fit: "totalTokens q + EffectiveCost (st x) \<le> MaxQueueTokens (q_cfg q)"
    using ev(2) c EffectiveCost_pos [of "st x"] by simp
  have total: "cost_of st (insert x (set (q_heap q))) = EffectiveCost (st x) + totalTokens q"
    using x Q(5) by (simp add: cost_of_insert)
  then have "cost_of st (insert x (set (q_heap q))) < 2 ^ 63"
    using fit Q(4) by (simp add: limits_ok_def)
  note P = push_track [OF Q(1,2) x r i this p rok]
  have "cost_of st1 S = cost_of st S" for S
    unfolding cost_of_def using P by (simp add: req_terms_def)
  then have "totalTokens (track q1 x r) = EffectiveCost (st x) + totalTokens q"
    using P total by (simp add: books_def)
  then have "limits_ok (track q1 x r)" using P ev(1) fit Q(4) by (simp add: limits_ok_def)
  moreover have "tenants_ok (track q1 x r)"
  proof -
    have b: "same_books q q1" using push_request_spec [OF Q(1) x p rok] by simp
    have "qr_TenantID r = qr_TenantID (st x)" "EffectiveCost r = EffectiveCost (st x)" using r by (simp_all add: req_terms_def)
    moreover have "getTenantConfig (track q1 x r) t = getTenantConfig q t" for t
      by (rule getTenantConfig_cong) (use b in \<open>simp add: track_fields same_books_def\<close>)
    moreover have "tenant_of q1 t = tenant_of q t" for t using b by (simp add: tenant_of_def same_books_def)
    moreover have "tenant_within (getTenantConfig q t) (tenant_of q t)" for t using Q(7) by (simp add: tenants_ok_def)
    ultimately show ?thesis
      using tl by (simp add: tenants_ok_def tenant_within_def track_fields)
  qed
  ultimately show ?thesis using P by (simp add: queue_inv_def)
qed

lemma queue_inv_set_tenant: "queue_inv st (set_tenant q t (tenant_of q t)) = queue_inv st q"
proof -
  have "tenants_ok (set_tenant q t (tenant_of q t)) = tenants_ok q" by (rule tenants_ok_cong) (simp_all add: tenant_of_set)
  then show ?thesis by (simp add: queue_inv_def books_active(3) limits_ok_def heap_ok_def)
qed

lemma queue_inv_Enqueue:
  assumes "queue_inv st q" "x \<notin> set (q_heap q)" "q_lookup q (qr_ID (st x)) = None"
    and "EffectiveCost (st x) + MaxQueueTokens (q_cfg q) < 2 ^ 63" and "Enqueue st q x now = (st', q', res)"
  shows "queue_inv st' q'"
proof -
  let ?q = "set_tenant q (qr_TenantID (st x)) (tenant_of q (qr_TenantID (st x)))"
  have inv: "queue_inv st ?q" using assms(1) by (simp add: queue_inv_set_tenant)
  obtain d reason retry where ev: "evaluateAdmission ?q (st x) (getTenantConfig q (qr_TenantID (st x)))
      (tenant_of q (qr_TenantID (st x))) (EffectiveCost (st x)) now = (d, reason, retry)" by (metis prod_cases3)
  show ?thesis
  proof (cases "d = DispositionAdmit")
    case False
    then have "st' = st \<and> (\<exists>n. q' = ?q\<lparr>backpressuredCount := n\<rparr> \<or> q' = ?q\<lparr>rejectedCount := n\<rparr>)"
      using assms(5) ev by (auto simp: Enqueue_def getOrCreateTenantState_def Let_def)
    moreover have "tenants_ok (?q\<lparr>backpressuredCount := n\<rparr>) = tenants_ok ?q" "tenants_ok (?q\<lparr>rejectedCount := n\<rparr>) = tenants_ok ?q" for n
      by (rule tenants_ok_cong; simp add: tenant_of_def)+
    ultimately show ?thesis using inv by (auto simp: queue_inv_def limits_ok_def)
  next
    case True
    let ?r = "(st x)\<lparr>calculatedScore := calculatePriority ?q (st x) now,
       qr_Arrival := if IsZero (qr_Arrival (st x)) then now else qr_Arrival (st x)\<rparr>"
    obtain q1 where p: "push_request (st(x := ?r)) ?q x = (st', q1)"
        and q': "q' = (track q1 x ?r)\<lparr>admittedCount := wrap64 (admittedCount (track q1 x ?r) + 1)\<rparr>"
      using assms(5) ev True by (auto simp: Enqueue_def getOrCreateTenantState_def Let_def split: prod.splits)
    have "request_ok (st x)" using queue_inv_cost(1) [OF inv] by (simp add: heap_ok_def rq_inv_def)
    then have rok: "request_ok ?r" using calculatePriority_number [OF queue_inv_cost(6) [OF inv]] by (simp add: request_ok_def)
    note A = evaluateAdmission_admit [OF ev [unfolded True]]
    have g: "getTenantConfig ?q t = getTenantConfig q t" "tenant_of ?q t = tenant_of q t" for t
      by (rule getTenantConfig_cong, simp) (simp add: tenant_of_set)
    have "queue_inv st' (track q1 x ?r)"
      by (rule Enqueue_admit [OF inv _ _ _ _ _ _ _ p rok]) (use assms(2-4) A in \<open>simp_all add: tenant_within_def g\<close>)
    moreover have "tenants_ok (u\<lparr>admittedCount := n\<rparr>) = tenants_ok u" for u n
      by (rule tenants_ok_cong; simp add: tenant_of_def)
    ultimately show ?thesis by (simp add: q' queue_inv_def limits_ok_def)
  qed
qed

lemma queue_inv_Dequeue:
  assumes "queue_inv st q" "Dequeue st q now = (st', q', out)"
  shows "queue_inv st' q'"
proof -
  note Q = queue_inv_cost [OF assms(1)]
  note D = dequeue_loop_spec [OF Q(1-3) assms(2) [unfolded Dequeue_def]]
  have "totalTokens q' = cost_of st (set (q_heap q'))"
    using D cost_of_frame [of st st'] by (simp add: books_def)
  also have "\<dots> \<le> totalTokens q" unfolding Q(5) using D by (intro cost_of_mono) auto
  finally have "limits_ok q'" using D limits_sub [OF Q(4)] by simp
  moreover have "tenants_ok q'"
    by (rule tenants_sub [OF Q(7,2), of st' q' "set (q_heap q')"]) (use D frame_fields(1) [of st st'] in simp_all)
  ultimately show ?thesis using D by (simp add: queue_inv_def)
qed

lemma Remove_spec_q:
  assumes "queue_inv st q" "Remove st q i = (st', q', found)"
  shows "queue_inv st' q' \<and> frame st st' \<and> (found \<longleftrightarrow> (\<exists>x \<in> set (q_heap q). qr_ID (st x) = i)) \<and>
    set (q_heap q') = {x \<in> set (q_heap q). qr_ID (st x) \<noteq> i}"
proof (cases "q_lookup q i")
  case None
  then have "qr_ID (st x) \<noteq> i" if "x \<in> set (q_heap q)" for x
    using books_lookup [OF queue_inv_cost(2) [OF assms(1)] that] by auto
  then show ?thesis using None assms by (auto simp: Remove_def)
next
  case (Some x)
  note Q = queue_inv_cost [OF assms(1)]
  have x: "x \<in> set (q_heap q)" "qr_ID (st x) = i" using Some Q(2) by (simp_all add: books_def)
  have uniq: "y = x" if "y \<in> set (q_heap q)" "qr_ID (st y) = i" for y
    using books_lookup [OF Q(2) that(1)] that(2) Some by simp
  from x(1) obtain k where k: "k < length (q_heap q)" "q_heap q ! k = x" by (auto simp: in_set_conv_nth)
  then have idx: "nat (heapIndex (st x)) = k" using Q(1) by (auto simp: heap_ok_def rq_inv_def)
  obtain q1 where rm: "remove_request st q k = (st', q1)" "q' = untrack q1 i (st' x)" "found"
    using assms(2) Some idx by (auto simp: Remove_def split: prod.splits)
  note P = remove_request_spec [OF Q(1) k(1) rm(1), unfolded k(2)]
  have ID: "qr_ID (st' x) = i" using P x(2) frame_fields(5) [of st st' x] by simp
  have "books st' (untrack q1 (qr_ID (st' x)) (st' x)) (set (q_heap q1))"
  proof (rule books_untrack)
    show "books st' q1 (insert x (set (q_heap q1)))"
      using Q(2) P books_same [of q q1] books_frame [of st st'] by simp
    show "cost_of st' (insert x (set (q_heap q1))) < 2 ^ 63" using Q(3) P cost_of_frame [of st st'] by simp
  qed (use P in simp)
  then have b: "books st' q' (set (q_heap q'))" by (simp add: rm(2) ID untrack_fields)
  have "totalTokens q' = cost_of st (set (q_heap q'))" using b P cost_of_frame [of st st'] by (simp add: books_def)
  also have "\<dots> \<le> totalTokens q" unfolding Q(5) using P by (intro cost_of_mono) (auto simp: rm(2) untrack_fields)
  finally have "limits_ok q'"
    using P by (intro limits_sub [OF Q(4)]) (simp_all add: rm(2) untrack_fields same_books_def)
  moreover have "heap_ok st' q'" using P heap_ok_cong [of q' q1] by (simp add: rm(2) untrack_fields)
  moreover have "set (q_heap q') = {x \<in> set (q_heap q). qr_ID (st x) \<noteq> i}"
    using P uniq x(2) by (auto simp: rm(2) untrack_fields)
  moreover have "tenants_ok q'"
    by (rule tenants_sub [OF Q(7,2) b]) (use P frame_fields(1) [of st st'] in \<open>auto simp: rm(2) untrack_fields same_books_def\<close>)
  ultimately show ?thesis using b P rm(3) x by (auto simp: queue_inv_def)
qed

lemma EvictExpired_spec_q:
  assumes "queue_inv st q" "EvictExpired_q st q now = (st', q', n)"
  shows "queue_inv st' q' \<and> set (q_heap q') = {x \<in> set (q_heap q). \<not> past_deadline (st x) now} \<and>
    n = int (length (q_heap q)) - int (length (q_heap q')) \<and> (\<forall>x. req_terms (st' x) = req_terms (st x))"
proof -
  note Q = queue_inv_cost [OF assms(1)]
  obtain st1 q1 v where d: "drain st q now [] 0 = (st1, q1, v, n)" and rq: "requeue st1 q1 now v = (st', q')"
    using assms(2) by (auto simp: EvictExpired_q_def split: prod.splits)
  have D: "heap_ok st1 q1" "books st1 q1 {}" "frame st st1" "q_cfg q1 = q_cfg q" "q_heap q1 = []" "distinct v"
      "set v = {x \<in> set (q_heap q). \<not> past_deadline (st x) now}" "int (length v) = int (length (q_heap q)) - n"
    using drain_spec [OF Q(1-3) d] by simp_all
  have inj: "inj_on (\<lambda>x. qr_ID (st1 x)) (set v \<union> set (q_heap q1))"
  proof (rule inj_onI)
    fix x y assume "x \<in> set v \<union> set (q_heap q1)" "y \<in> set v \<union> set (q_heap q1)" and e: "qr_ID (st1 x) = qr_ID (st1 y)"
    then have xy: "x \<in> set (q_heap q)" "y \<in> set (q_heap q)" using D(5,7) by auto
    have "qr_ID (st x) = qr_ID (st y)"
      using e unfolding frame_fields(5) [OF D(3)] .
    then have "Some x = Some y"
      using books_lookup [OF Q(2) xy(1)] books_lookup [OF Q(2) xy(2)] by (simp only:)
    then show "x = y" by simp
  qed
  have le: "cost_of st (set v) \<le> cost_of st (set (q_heap q))" unfolding D(7) by (rule cost_of_mono) auto
  have b1: "books st1 q1 (set (q_heap q1))" "set v \<inter> set (q_heap q1) = {}"
      "cost_of st1 (set v \<union> set (q_heap q1)) < 2 ^ 63"
    using D(2,5) le Q(3) cost_of_frame [OF D(3)] by simp_all
  have "weights_ok (q_cfg q1)" using Q(6) D(4) by simp
  note R = requeue_spec [OF D(1) b1(1) D(6) b1(2) inj b1(3) rq this]
  have terms: "req_terms (st' x) = req_terms (st x)" for x using R frame_fields(1) [OF D(3), of x] by simp
  then have t: "cost_of st' S = cost_of st S" for S by (simp add: cost_of_def req_terms_def)
  have "totalTokens q' \<le> totalTokens q" using R D(5) le Q(5) t by (simp add: books_def)
  moreover have "length v \<le> length (q_heap q)"
  proof -
    have "card (set v) \<le> card (set (q_heap q))" unfolding D(7) by (rule card_mono) auto
    then show ?thesis using distinct_card [OF D(6)] card_length [of "q_heap q"] by simp
  qed
  ultimately have "limits_ok q'" using R D(4,5) by (intro limits_sub [OF Q(4)]) simp_all
  moreover have "tenants_ok q'"
    by (rule tenants_sub [OF Q(7,2), of st' q' "set (q_heap q')"]) (use R D(4,5,7) terms in auto)
  ultimately show ?thesis
    using R D(5,7,8) terms by (simp add: queue_inv_def)
qed

lemma queue_reach_inv:
  "queue_reach cfg st q \<Longrightarrow> MaxQueueTokens cfg < 2 ^ 63 \<Longrightarrow> weights_ok cfg \<Longrightarrow> queue_inv st q"
proof (induction rule: queue_reach.induct)
  case (enqueue st q r x now st' q' res)
  have "books (st(x := r)) q (set (q_heap q)) = books st q (set (q_heap q))"
    by (rule books_cong) (use enqueue.hyps(3) in auto)
  then have "queue_inv (st(x := r)) q" using enqueue by (simp add: queue_inv_def heap_ok_upd)
  then show ?case using enqueue queue_inv_Enqueue [of "st(x := r)" q x now st' q' res] by simp
next
  case (finish st q t alloc act)
  have "tenants_ok (Finish q t alloc act) = tenants_ok q"
    by (rule tenants_ok_cong) (simp_all add: Finish_def getOrCreateTenantState_def Let_def tenant_of_set)
  with finish show ?case
    by (simp add: Finish_def getOrCreateTenantState_def Let_def queue_inv_def limits_ok_def heap_ok_def
        books_active(2,3) tenant_of_set)
qed (auto dest: queue_inv_Dequeue Remove_spec_q EvictExpired_spec_q intro: queue_inv_new)

section \<open>Properties\<close>

definition sample_req :: QueuedRequest where
  "sample_req = \<lparr>qr_ID = ''a'', qr_TenantID = ''t'', qr_Priority = 50, PromptTokens = 100, MaxOutputTokens = 50,
     PredictedTokens = 0, CacheHitTokens = 20, CacheLocality = Fin 0, qr_Arrival = 0, qr_Deadline = 0,
     EstimatedLatency = 0, calculatedScore = Fin 0, heapIndex = 0\<rparr>"

lemma sample_req_facts: "EffectiveCost sample_req = 130" "qr_ID sample_req = ''a''" "\<not> past_deadline sample_req now"
    "qr_TenantID sample_req = ''t''" "qr_Deadline sample_req = 0" "request_ok sample_req"
  by (simp_all add: sample_req_def EffectiveCost_def past_deadline_def request_ok_def Let_def)

lemma default_config_ok: "MaxQueueTokens DefaultTokenQueueConfig < 2 ^ 63" "weights_ok DefaultTokenQueueConfig"
  by (simp_all add: DefaultTokenQueueConfig_def weights_ok_def)

lemma NewTokenQueue_empty: "q_heap (NewTokenQueue cfg) = []" "q_lookup (NewTokenQueue cfg) = Map.empty"
  by (simp_all add: NewTokenQueue_def Let_def)

lemma threshold_80: "round64 (4 / 5) = Fin (3602879701896397 / 2 ^ 52)"
  using round64_fraction [of 1 "4 / 5"] by simp

lemma sample_enqueued:
  obtains st q res where "Enqueue (st0(0 := sample_req)) (NewTokenQueue DefaultTokenQueueConfig) 0 7 = (st, q, res)"
    and "Admitted res" "q_heap q = [0]" "qr_Deadline (st 0) = 0" "qr_ID (st 0) = ''a''"
proof -
  let ?st = "st0(0 := sample_req)" and ?q = "NewTokenQueue DefaultTokenQueueConfig"
  let ?q1 = "set_tenant ?q ''t'' (tenant_of ?q ''t'')"
  have ev: "evaluateAdmission ?q1 sample_req tc (tenant_of ?q ''t'') 130 7 = (DispositionAdmit, ''admitted'', 0)"
    if "tc = getTenantConfig ?q ''t''" for tc
    by (simp add: that evaluateAdmission_def NewTokenQueue_def DefaultTokenQueueConfig_def set_tenant_def
        tenant_of_def getTenantConfig_def sample_req_facts float_of_int_def threshold_80 round64_numeral Let_def)
  obtain st q res where e: "Enqueue ?st ?q 0 7 = (st, q, res)" by (metis prod_cases3)
  then have "Admitted res \<and> q_heap q = [0] \<and> qr_Deadline (st 0) = 0 \<and> qr_ID (st 0) = ''a''"
    using ev [OF refl] NewTokenQueue_empty
    by (auto simp: Enqueue_def getOrCreateTenantState_def sample_req_facts push_request_def heap_Push_def
        rq_Push_def rq_Len_def track_fields set_index_def heap_up.simps Let_def split: prod.splits)
  with e that show ?thesis by blast
qed

lemma sample_reach:
  obtains st q where "queue_reach DefaultTokenQueueConfig st q" "q_heap q = [0]" "qr_Deadline (st 0) = 0" "qr_ID (st 0) = ''a''"
proof -
  obtain st q res where e: "Enqueue ((\<lambda>_. sample_req)(0 := sample_req)) (NewTokenQueue DefaultTokenQueueConfig) 0 7 = (st, q, res)"
    "q_heap q = [0]" "qr_Deadline (st 0) = 0" "qr_ID (st 0) = ''a''"
    by (rule sample_enqueued [of "\<lambda>_. sample_req"])
  have "EffectiveCost sample_req + MaxQueueTokens (q_cfg (NewTokenQueue DefaultTokenQueueConfig)) < 2 ^ 63"
    by (simp add: sample_req_facts NewTokenQueue_def DefaultTokenQueueConfig_def Let_def)
  then have "queue_reach DefaultTokenQueueConfig st q"
    using queue_reach.enqueue [OF queue_reach.new _ _ _ _ e(1)] by (simp add: NewTokenQueue_empty sample_req_facts)
  with e that show ?thesis by blast
qed



text \<open>
  C18. In every such queue, \<open>Dequeue\<close> returns the best viable request: the result was queued, is not past its
  deadline, and no queued request that is not past its deadline has a higher score. What it
  drops on the way is past its deadline, everything else stays queued, and it returns nil
  exactly when every queued request is past its deadline.
\<close>

theorem Dequeue_best:
  assumes "queue_reach cfg st q" and "MaxQueueTokens cfg < 2 ^ 63" and "weights_ok cfg" and "Dequeue st q now = (st', q', r)"
  shows "(r = None \<longleftrightarrow> (\<forall>y \<in> set (q_heap q). past_deadline (st y) now)) \<and>
    (\<forall>x. r = Some x \<longrightarrow> x \<in> set (q_heap q) \<and> x \<notin> set (q_heap q') \<and> \<not> past_deadline (st x) now \<and>
       (\<forall>y \<in> set (q_heap q). past_deadline (st y) now \<or> calculatedScore (st y) \<le> calculatedScore (st x)) \<and>
       (\<forall>y \<in> set (q_heap q). y = x \<or> y \<in> set (q_heap q') \<or> past_deadline (st y) now)) \<and>
    set (q_heap q') \<subseteq> set (q_heap q)"
proof -
  note Q = queue_inv_cost [OF queue_reach_inv [OF assms(1-3)]]
  note D = dequeue_loop_spec [OF Q(1-3) assms(4) [unfolded Dequeue_def]]
  show ?thesis
  proof (cases r)
    case None
    then show ?thesis using D by auto
  next
    case (Some x)
    then have "x \<in> set (q_heap q) \<and> x \<notin> set (q_heap q') \<and> \<not> past_deadline (st x) now"
      "\<forall>y \<in> set (q_heap q'). calculatedScore (st y) \<le> calculatedScore (st x)"
      "\<forall>y \<in> set (q_heap q). y = x \<or> y \<in> set (q_heap q') \<or> past_deadline (st y) now"
      using D by simp_all
    then show ?thesis using Some D by auto
  qed
qed

theorem Dequeue_best_witness:
  "\<exists>st q. q_heap q = [0] \<and> queue_reach DefaultTokenQueueConfig st q \<and> snd (snd (Dequeue st q 9)) = Some 0"
proof -
  obtain st q where r: "queue_reach DefaultTokenQueueConfig st q" "q_heap q = [0]" "qr_Deadline (st 0) = 0"
    by (rule sample_reach)
  obtain st' q' out where d: "Dequeue st q 9 = (st', q', out)" by (metis prod_cases3)
  have "out = Some 0"
    using Dequeue_best [OF r(1) default_config_ok d] r(2,3) by (cases out) (auto simp: past_deadline_def)
  then show ?thesis using r d by (intro exI [of _ st] exI [of _ q]) simp
qed

text \<open>
  C19. The admission decision, completely: a request is rejected exactly when its deadline is
  past or one of the four capacity limits would be exceeded; otherwise it is told to back off
  exactly when the queue is saturated, its priority is below the exempt floor, and either its
  tenant is over its token budget or the queue is at least 95 percent full; otherwise it is
  admitted. The ratios are the rounded quotients, compared as floating-point numbers. Only a back-off carries a delay, between 200 and 699 milliseconds.
\<close>

theorem evaluateAdmission_bounds:
  fixes q :: TokenQueue and req :: QueuedRequest and tc :: TenantConfig and ts :: TenantState and now :: gotime
  shows "let cost = EffectiveCost req; cfg = q_cfg q;
      (d, reason, retry) = evaluateAdmission q req tc ts cost now;
      full = (past_deadline req now \<or> int (length (q_heap q)) + 1 > MaxQueueDepth cfg \<or>
        wrap64 (totalTokens q + cost) > MaxQueueTokens cfg \<or>
        (MaxQueuedRequests tc > 0 \<and> wrap64 (QueuedRequests ts + 1) > MaxQueuedRequests tc) \<or>
        (MaxQueuedTokens tc > 0 \<and> wrap64 (QueuedTokens ts + cost) > MaxQueuedTokens tc));
      ratio = fdiv (float_of_int (totalTokens q)) (float_of_int (MaxQueueTokens cfg));
      saturated = (fle (SaturationThreshold cfg) ratio \<or>
        fle (SaturationThreshold cfg) (fdiv (float_of_int (int (length (q_heap q)))) (float_of_int (MaxQueueDepth cfg))));
      press = (saturated \<and> qr_Priority req < HighPriorityFloor cfg \<and>
        ((TokenBudget tc > 0 \<and> wrap64 (QueuedTokens ts + ActiveTokens ts) \<ge> TokenBudget tc) \<or> fle (round64 (95 / 100)) ratio))
    in (d = DispositionReject \<longleftrightarrow> full) \<and> (d = DispositionBackpressure \<longleftrightarrow> \<not> full \<and> press) \<and>
       (d = DispositionAdmit \<longleftrightarrow> \<not> full \<and> \<not> press) \<and>
       (if d = DispositionBackpressure then 200 * 10 ^ 6 \<le> retry \<and> retry \<le> 699 * 10 ^ 6 else retry = 0)"
proof -
  have r: "0 \<le> go_rem (EffectiveCost req) 500 \<and> go_rem (EffectiveCost req) 500 \<le> 499"
    using EffectiveCost_pos [of req] pos_mod_bound [of 500 "EffectiveCost req"] by (simp add: go_rem_def sgn_if)
  show ?thesis
    unfolding evaluateAdmission_def Let_def using r by (simp split: prod.splits)
qed

text \<open>
  C20. In every such queue, \<open>Remove\<close> answers whether a request with the identifier is queued and takes out exactly
  that request; \<open>EvictExpired\<close> takes out exactly the requests past their deadline and returns
  their number. Both leave the other requests queued with their identity, tenant and cost, and
  the queue in order: whatever is dequeued next is again the best of what is left.
\<close>

theorem remove_and_evict_exact:
  assumes "queue_reach cfg st q" and "MaxQueueTokens cfg < 2 ^ 63" and "weights_ok cfg"
    and "Remove st q i = (st1, q1, found)" and "EvictExpired_q st q now = (st2, q2, n)"
  shows "(found \<longleftrightarrow> (\<exists>x \<in> set (q_heap q). qr_ID (st x) = i)) \<and>
    set (q_heap q1) = {x \<in> set (q_heap q). qr_ID (st x) \<noteq> i} \<and> queue_inv st1 q1 \<and>
    set (q_heap q2) = {x \<in> set (q_heap q). \<not> past_deadline (st x) now} \<and> queue_inv st2 q2 \<and>
    n = int (card {x \<in> set (q_heap q). past_deadline (st x) now}) \<and>
    (\<forall>x. req_terms (st1 x) = req_terms (st x) \<and> req_terms (st2 x) = req_terms (st x))"
proof -
  have inv: "queue_inv st q" by (rule queue_reach_inv [OF assms(1-3)])
  note R = Remove_spec_q [OF inv assms(4)]
  note E = EvictExpired_spec_q [OF inv assms(5)]
  have d: "distinct (q_heap q)" "distinct (q_heap q2)"
    using inv E by (simp_all add: queue_inv_def heap_ok_def rq_inv_def)
  have "set (q_heap q) = {x \<in> set (q_heap q). past_deadline (st x) now} \<union> set (q_heap q2)"
      "{x \<in> set (q_heap q). past_deadline (st x) now} \<inter> set (q_heap q2) = {}" using E by auto
  then have "card (set (q_heap q)) = card {x \<in> set (q_heap q). past_deadline (st x) now} + card (set (q_heap q2))"
    by (metis (no_types, lifting) card_Un_disjoint finite_set finite_Un)
  then have "n = int (card {x \<in> set (q_heap q). past_deadline (st x) now})"
    using E distinct_card [OF d(1)] distinct_card [OF d(2)] by linarith
  then show ?thesis using R E frame_fields(1) [of st st1] by blast
qed

theorem remove_and_evict_exact_witness:
  "\<exists>st q. q_heap q = [0] \<and> queue_reach DefaultTokenQueueConfig st q \<and> snd (snd (Remove st q ''a'')) \<and>
     snd (snd (EvictExpired_q st q 9)) = 0"
proof -
  obtain st q where r: "queue_reach DefaultTokenQueueConfig st q" "q_heap q = [0]" "qr_Deadline (st 0) = 0"
      "qr_ID (st 0) = ''a''"
    by (rule sample_reach)
  obtain st1 q1 found where rm: "Remove st q ''a'' = (st1, q1, found)" by (metis prod_cases3)
  obtain st2 q2 n where ev: "EvictExpired_q st q 9 = (st2, q2, n)" by (metis prod_cases3)
  have none: "{x \<in> set (q_heap q). past_deadline (st x) 9} = {}" using r(2,3) by (auto simp: past_deadline_def)
  show ?thesis
    using remove_and_evict_exact [OF r(1) default_config_ok rm ev, unfolded none] r rm ev
    by (intro exI [of _ st] exI [of _ q]) simp
qed

end
