(* ===== verification/Residency.thy ===== *)
theory Residency
  imports Prelude
begin

text \<open>
  The model-residency state machine, \<open>src/internal/residency/state.go\<close>, \<open>machine.go\<close> and
  \<open>project.go\<close>. \<open>Advance\<close> is a pure function of the clock, the persisted snapshot, the plan and
  one observation; it returns a decision and an error. The error text is not modelled, only the
  sentinel it wraps.
\<close>

section \<open>Data\<close>

datatype State_r = StateCold | StateCached | StateLoading | StateWarming | StateReady
  | StateDraining | StateEvicting | StateOther_r string

datatype Action = ActionCacheArtifact | ActionLoadRuntime | ActionWarmRuntime | ActionAttachRoute
  | ActionDetachRoute | ActionWaitForDrain | ActionStopRuntime | ActionEvictArtifact

datatype residency_error = ErrInvalidPlan | ErrInvariantViolated | ErrTransitionFailed | ErrTransitionTimeout

record Plan_r =
  Target :: State_r
  RequirePrefill :: bool
  Timeout :: duration

record Snapshot_r =
  sn_State :: State_r
  RollbackTarget :: State_r
  StartedAt :: gotime
  sn_Deadline :: gotime

record Observation_r =
  ArtifactCached :: bool
  RuntimeLoaded :: bool
  RuntimeReady :: bool
  PrefillReady :: bool
  RouteAttached :: bool
  AcceptingRequests :: bool
  ActiveRequests :: int
  Failure :: string

record Policy_r =
  AllowRoute :: bool
  AcceptNewRequests :: bool
  RetainRuntime :: bool
  RetainArtifact :: bool

record Status_r =
  st_State :: State_r
  Ready :: bool
  Progressing :: bool
  st_Reason :: string

record Decision_r =
  d_Snapshot :: Snapshot_r
  d_Actions :: "Action list"
  d_Policy :: Policy_r
  d_Status :: Status_r

type_synonym advanced = "Decision_r \<times> residency_error option"

section \<open>Projection\<close>

definition isTransitional :: "State_r \<Rightarrow> bool" where
  "isTransitional s \<longleftrightarrow> s = StateLoading \<or> s = StateWarming \<or> s = StateDraining \<or> s = StateEvicting"

definition stateReason :: "State_r \<Rightarrow> string" where
  "stateReason s = (case s of
       StateCold \<Rightarrow> ''ArtifactAbsent''
     | StateCached \<Rightarrow> ''ArtifactCached''
     | StateLoading \<Rightarrow> ''RuntimeLoading''
     | StateWarming \<Rightarrow> ''RuntimeWarming''
     | StateDraining \<Rightarrow> ''RequestsDraining''
     | StateEvicting \<Rightarrow> ''ResidencyEvicting''
     | _ \<Rightarrow> ''StateUnknown'')"

definition statusFor :: "State_r \<Rightarrow> Observation_r \<Rightarrow> bool \<Rightarrow> Status_r" where
  "statusFor s obs requirePrefill =
     (let status = \<lparr>st_State = s, Ready = False, Progressing = isTransitional s, st_Reason = stateReason s\<rparr>
      in if s \<noteq> StateReady then status
         else if \<not> RuntimeReady obs then status\<lparr>st_Reason := ''RuntimeUnavailable''\<rparr>
         else if requirePrefill \<and> \<not> PrefillReady obs then status\<lparr>st_Reason := ''PrefillUnavailable''\<rparr>
         else status\<lparr>Ready := True, st_Reason := ''ResidentReady''\<rparr>)"

definition policyFor :: "State_r \<Rightarrow> Observation_r \<Rightarrow> bool \<Rightarrow> Policy_r" where
  "policyFor s obs requirePrefill =
     (let ready = (s = StateReady \<and> RuntimeReady obs \<and> (\<not> requirePrefill \<or> PrefillReady obs))
      in \<lparr>AllowRoute = ready, AcceptNewRequests = ready,
          RetainRuntime = (s = StateLoading \<or> s = StateWarming \<or> s = StateReady \<or> s = StateDraining),
          RetainArtifact = (s \<noteq> StateCold \<and> s \<noteq> StateEvicting)\<rparr>)"

definition validateObservation :: "State_r \<Rightarrow> Observation_r \<Rightarrow> bool \<Rightarrow> residency_error option" where
  "validateObservation s obs requirePrefill =
     (if ActiveRequests obs < 0 then Some ErrInvariantViolated
      else if AcceptingRequests obs \<and> \<not> RouteAttached obs then Some ErrInvariantViolated
      else if RouteAttached obs \<and> \<not> RuntimeReady obs then Some ErrInvariantViolated
      else if RouteAttached obs \<and> requirePrefill \<and> \<not> PrefillReady obs then Some ErrInvariantViolated
      else if AcceptingRequests obs \<and> s \<noteq> StateReady then Some ErrInvariantViolated
      else if ActiveRequests obs > 0 \<and> s \<noteq> StateReady \<and> s \<noteq> StateDraining then Some ErrInvariantViolated
      else None)"

definition Project :: "State_r \<Rightarrow> Observation_r \<Rightarrow> bool \<Rightarrow> Status_r \<times> Policy_r \<times> residency_error option" where
  "Project s obs requirePrefill =
     (let policy = policyFor s obs requirePrefill
      in case validateObservation s obs requirePrefill of
           Some e \<Rightarrow> (\<lparr>st_State = s, Ready = False, Progressing = False, st_Reason = ''InvariantViolation''\<rparr>,
                     policy\<lparr>AllowRoute := False, AcceptNewRequests := False\<rparr>, Some e)
         | None \<Rightarrow> (statusFor s obs requirePrefill, policy, None))"

section \<open>The machine\<close>

definition defaultTransitionTimeout :: duration where
  "defaultTransitionTimeout = 5 * 60 * 10 ^ 9"

definition isKnownState :: "State_r \<Rightarrow> bool" where
  "isKnownState s \<longleftrightarrow> s \<in> {StateCold, StateCached, StateLoading, StateWarming, StateReady, StateDraining, StateEvicting}"

definition settle :: "Snapshot_r \<Rightarrow> State_r \<Rightarrow> Snapshot_r" where
  "settle current s = \<lparr>sn_State = s, RollbackTarget = s, StartedAt = 0, sn_Deadline = 0\<rparr>"

definition move :: "Snapshot_r \<Rightarrow> State_r \<Rightarrow> Snapshot_r" where
  "move current s = current\<lparr>sn_State := s\<rparr>"

definition begin_r :: "gotime \<Rightarrow> Snapshot_r \<Rightarrow> State_r \<Rightarrow> duration \<Rightarrow> Snapshot_r" where
  "begin_r now current s timeout =
     (let timeout = (if timeout \<le> 0 then defaultTransitionTimeout else timeout);
          rollbackTarget = sn_State current;
          rollbackTarget = (if isTransitional rollbackTarget then RollbackTarget current else rollbackTarget)
      in \<lparr>sn_State = s, RollbackTarget = rollbackTarget, StartedAt = now, sn_Deadline = time_add now timeout\<rparr>)"

definition decision :: "Snapshot_r \<Rightarrow> Action list \<Rightarrow> Observation_r \<Rightarrow> bool \<Rightarrow> Decision_r" where
  "decision snapshot actions obs requirePrefill =
     \<lparr>d_Snapshot = snapshot, d_Actions = actions, d_Policy = policyFor (sn_State snapshot) obs requirePrefill,
      d_Status = statusFor (sn_State snapshot) obs requirePrefill\<rparr>"

definition invariantDecision :: "Snapshot_r \<Rightarrow> Action list \<Rightarrow> Observation_r \<Rightarrow> bool \<Rightarrow> Decision_r" where
  "invariantDecision snapshot actions obs requirePrefill =
     (let d = decision snapshot actions obs requirePrefill
      in d\<lparr>d_Status := (d_Status d)\<lparr>Ready := False, st_Reason := ''InvariantViolation''\<rparr>,
           d_Policy := (d_Policy d)\<lparr>AllowRoute := False, AcceptNewRequests := False\<rparr>\<rparr>)"

definition failClosedActions :: "Observation_r \<Rightarrow> Action list" where
  "failClosedActions obs = (if RouteAttached obs \<or> AcceptingRequests obs then [ActionDetachRoute] else [])"

definition rollback :: "Snapshot_r \<Rightarrow> Observation_r \<Rightarrow> Plan_r \<Rightarrow> residency_error \<Rightarrow> advanced" where
  "rollback current obs plan cause =
     (let actions = failClosedActions obs; dec = (\<lambda>sn acts. (decision sn acts obs (RequirePrefill plan), Some cause))
      in if ActiveRequests obs > 0 then dec (move current StateDraining) (actions @ [ActionWaitForDrain])
         else if RuntimeLoaded obs then dec (move current StateEvicting) (actions @ [ActionStopRuntime])
         else if RollbackTarget current = StateCached \<and> ArtifactCached obs then dec (settle current StateCached) actions
         else if ArtifactCached obs then dec (move current StateEvicting) (actions @ [ActionEvictArtifact])
         else dec (settle current StateCold) actions)"

definition runtime_ok :: "Plan_r \<Rightarrow> Observation_r \<Rightarrow> bool" where
  "runtime_ok plan obs \<longleftrightarrow> RuntimeReady obs \<and> (\<not> RequirePrefill plan \<or> PrefillReady obs)"

definition recoverReady :: "Snapshot_r \<Rightarrow> Plan_r \<Rightarrow> Observation_r \<Rightarrow> Decision_r" where
  "recoverReady current plan obs =
     (if runtime_ok plan obs
      then decision (settle current StateReady) (if RouteAttached obs then [] else [ActionAttachRoute]) obs (RequirePrefill plan)
      else decision (move current StateWarming) [ActionWarmRuntime] obs (RequirePrefill plan))"

definition resumeReady :: "gotime \<Rightarrow> Snapshot_r \<Rightarrow> Plan_r \<Rightarrow> Observation_r \<Rightarrow> Decision_r" where
  "resumeReady now current plan obs =
     (if runtime_ok plan obs
      then decision (settle current StateReady) [ActionAttachRoute] obs (RequirePrefill plan)
      else decision (begin_r now current StateWarming (Timeout plan)) [ActionWarmRuntime] obs (RequirePrefill plan))"

definition advanceDrain :: "Snapshot_r \<Rightarrow> Plan_r \<Rightarrow> Observation_r \<Rightarrow> Decision_r" where
  "advanceDrain current plan obs =
     (if RouteAttached obs then decision current [ActionDetachRoute] obs (RequirePrefill plan)
      else if ActiveRequests obs > 0 then decision current [ActionWaitForDrain] obs (RequirePrefill plan)
      else decision (move current StateEvicting) [ActionStopRuntime] obs (RequirePrefill plan))"

definition advanceEviction :: "Snapshot_r \<Rightarrow> Plan_r \<Rightarrow> Observation_r \<Rightarrow> Decision_r" where
  "advanceEviction current plan obs =
     (if RuntimeLoaded obs then decision current [ActionStopRuntime] obs (RequirePrefill plan)
      else if Target plan = StateCached \<and> ArtifactCached obs
      then decision (settle current StateCached) [] obs (RequirePrefill plan)
      else if ArtifactCached obs then decision current [ActionEvictArtifact] obs (RequirePrefill plan)
      else decision (settle current StateCold) [] obs (RequirePrefill plan))"

definition advanceToReady :: "gotime \<Rightarrow> Snapshot_r \<Rightarrow> Plan_r \<Rightarrow> Observation_r \<Rightarrow> advanced" where
  "advanceToReady now current plan obs =
     (let dec = (\<lambda>sn acts. decision sn acts obs (RequirePrefill plan))
      in case sn_State current of
           StateCold \<Rightarrow> (if ArtifactCached obs then (dec (settle current StateCached) [], None)
                        else (dec current [ActionCacheArtifact], None))
         | StateCached \<Rightarrow> (if \<not> ArtifactCached obs then (dec (settle current StateCold) [ActionCacheArtifact], None)
                          else (dec (begin_r now current StateLoading (Timeout plan)) [ActionLoadRuntime], None))
         | StateLoading \<Rightarrow> (if RuntimeLoaded obs then (dec (move current StateWarming) [ActionWarmRuntime], None)
                           else (dec current [ActionLoadRuntime], None))
         | StateWarming \<Rightarrow> (if runtime_ok plan obs then (dec (settle current StateReady) [ActionAttachRoute], None)
                           else (dec current [ActionWarmRuntime], None))
         | StateReady \<Rightarrow> (recoverReady current plan obs, None)
         | StateDraining \<Rightarrow> (resumeReady now current plan obs, None)
         | StateEvicting \<Rightarrow> (resumeReady now current plan obs, None)
         | StateOther_r _ \<Rightarrow> (dec current [], Some ErrInvalidPlan))"

definition advanceToLowerState :: "gotime \<Rightarrow> Snapshot_r \<Rightarrow> Plan_r \<Rightarrow> Observation_r \<Rightarrow> advanced" where
  "advanceToLowerState now current plan obs =
     (let dec = (\<lambda>sn acts. decision sn acts obs (RequirePrefill plan))
      in if sn_State current = Target plan then (dec (settle current (sn_State current)) [], None)
         else case sn_State current of
           StateReady \<Rightarrow> (dec (begin_r now current StateDraining (Timeout plan)) [ActionDetachRoute], None)
         | StateLoading \<Rightarrow> (dec (begin_r now current StateEvicting (Timeout plan))
             (failClosedActions obs @ [ActionStopRuntime]), None)
         | StateWarming \<Rightarrow> (dec (begin_r now current StateEvicting (Timeout plan))
             (failClosedActions obs @ [ActionStopRuntime]), None)
         | StateDraining \<Rightarrow> (advanceDrain current plan obs, None)
         | StateEvicting \<Rightarrow> (advanceEviction current plan obs, None)
         | StateCached \<Rightarrow> (dec (begin_r now current StateEvicting (Timeout plan)) [ActionEvictArtifact], None)
         | StateCold \<Rightarrow> (dec current [ActionCacheArtifact], None)
         | StateOther_r _ \<Rightarrow> (dec current [], Some ErrInvalidPlan))"

definition validatePlan :: "Snapshot_r \<Rightarrow> Plan_r \<Rightarrow> residency_error option" where
  "validatePlan current plan =
     (if \<not> isKnownState (sn_State current) then Some ErrInvalidPlan
      else if Target plan \<noteq> StateReady \<and> Target plan \<noteq> StateCached \<and> Target plan \<noteq> StateCold
      then Some ErrInvalidPlan
      else None)"

definition timed_out :: "gotime \<Rightarrow> Snapshot_r \<Rightarrow> bool" where
  "timed_out now current \<longleftrightarrow>
     isTransitional (sn_State current) \<and> \<not> IsZero (sn_Deadline current) \<and> \<not> now < sn_Deadline current"

definition Advance_r :: "gotime \<Rightarrow> Snapshot_r \<Rightarrow> Plan_r \<Rightarrow> Observation_r \<Rightarrow> advanced" where
  "Advance_r now current plan obs =
     (case validatePlan current plan of
        Some e \<Rightarrow> (decision current [] obs (RequirePrefill plan), Some e)
      | None \<Rightarrow>
         if Failure obs \<noteq> '''' then rollback current obs plan ErrTransitionFailed
         else if timed_out now current then rollback current obs plan ErrTransitionTimeout
         else
          (case Project (sn_State current) obs (RequirePrefill plan) of
             (_, _, Some e) \<Rightarrow> (invariantDecision current (failClosedActions obs) obs (RequirePrefill plan), Some e)
           | (_, _, None) \<Rightarrow>
              if Target plan = StateReady then advanceToReady now current plan obs
              else if Target plan = StateCached \<or> Target plan = StateCold
              then advanceToLowerState now current plan obs
              else (decision current [] obs (RequirePrefill plan), Some ErrInvalidPlan)))"

section \<open>Runs and the abstract phases\<close>

text \<open>A reconciler feeds clock readings, plans and observations one after the other.\<close>

type_synonym reconcile_input = "gotime \<times> Plan_r \<times> Observation_r"

fun residency_step :: "Snapshot_r \<Rightarrow> reconcile_input \<Rightarrow> Snapshot_r" where
  "residency_step sn (now, plan, obs) = d_Snapshot (fst (Advance_r now sn plan obs))"

fun residency_trace :: "Snapshot_r \<Rightarrow> reconcile_input list \<Rightarrow> Snapshot_r list" where
  "residency_trace sn [] = [sn]"
| "residency_trace sn (i # is) = sn # residency_trace (residency_step sn i) is"

datatype phase = Down | GoingUp | Serving | GoingDown | Unknown

definition phase_of :: "State_r \<Rightarrow> phase" where
  "phase_of s = (case s of StateCold \<Rightarrow> Down | StateCached \<Rightarrow> Down | StateLoading \<Rightarrow> GoingUp
     | StateWarming \<Rightarrow> GoingUp | StateReady \<Rightarrow> Serving | StateDraining \<Rightarrow> GoingDown
     | StateEvicting \<Rightarrow> GoingDown | StateOther_r _ \<Rightarrow> Unknown)"

text \<open>The abstract machine: serving is entered only on the way up or by interrupting the way down.\<close>

inductive phase_step :: "phase \<Rightarrow> phase \<Rightarrow> bool" where
  stay: "phase_step p p"
| load: "phase_step Down GoingUp"
| serve: "phase_step GoingUp Serving"
| degrade: "phase_step Serving GoingUp"
| retire: "p \<noteq> Unknown \<Longrightarrow> phase_step p GoingDown"
| reset: "p \<noteq> Unknown \<Longrightarrow> phase_step p Down"
| resume_up: "phase_step GoingDown GoingUp"
| resume_serve: "phase_step GoingDown Serving"

inductive_simps phase_step_Down [simp]: "phase_step Down q"
inductive_simps phase_step_Unknown [simp]: "phase_step Unknown q"
inductive_simps phase_step_Serving [simp]: "phase_step q Serving"

definition stable :: "State_r \<Rightarrow> bool" where
  "stable s \<longleftrightarrow> s \<in> {StateCold, StateCached, StateReady}"

definition snapshot_ok :: "Snapshot_r \<Rightarrow> bool" where
  "snapshot_ok sn \<longleftrightarrow> isKnownState (sn_State sn) \<and> stable (RollbackTarget sn)"




text \<open>Policy and status are those of the decided state.\<close>

definition plain :: "Decision_r \<Rightarrow> Observation_r \<Rightarrow> bool \<Rightarrow> bool" where
  "plain d obs p \<longleftrightarrow> d_Policy d = policyFor (sn_State (d_Snapshot d)) obs p \<and>
     d_Status d = statusFor (sn_State (d_Snapshot d)) obs p"

section \<open>Lemmas\<close>

lemmas residency_ops = recoverReady_def resumeReady_def advanceDrain_def advanceEviction_def

lemmas snapshot_defs = settle_def move_def begin_r_def

lemma decision_simps [simp]:
  "d_Snapshot (decision sn acts obs p) = sn" "d_Actions (decision sn acts obs p) = acts"
  "d_Policy (decision sn acts obs p) = policyFor (sn_State sn) obs p"
  "d_Status (decision sn acts obs p) = statusFor (sn_State sn) obs p"
  by (simp_all add: decision_def)

lemma plain_decision [simp]: "plain (decision sn acts obs p) obs p"
  by (simp add: plain_def)

lemma snapshot_simps [simp]:
  "sn_State (settle sn s) = s" "sn_State (move sn s) = s" "sn_State (begin_r now sn s t) = s"
  by (simp_all add: snapshot_defs Let_def)

text \<open>The outcomes of \<open>Advance\<close>: a bad plan, a rollback, a violated invariant, or an ordinary step.\<close>

lemma Advance_cases:
  obtains (bad_plan) e where "validatePlan cur plan = Some e"
      "Advance_r now cur plan obs = (decision cur [] obs (RequirePrefill plan), Some e)"
  | (rollback) cause where "cause \<in> {ErrTransitionFailed, ErrTransitionTimeout}" "validatePlan cur plan = None"
      "Advance_r now cur plan obs = rollback cur obs plan cause"
  | (invariant) e where "validatePlan cur plan = None" "validateObservation (sn_State cur) obs (RequirePrefill plan) = Some e"
      "Advance_r now cur plan obs = (invariantDecision cur (failClosedActions obs) obs (RequirePrefill plan), Some e)"
  | (up) "validatePlan cur plan = None" "validateObservation (sn_State cur) obs (RequirePrefill plan) = None"
      "Target plan = StateReady" "Advance_r now cur plan obs = advanceToReady now cur plan obs"
  | (down) "validatePlan cur plan = None" "validateObservation (sn_State cur) obs (RequirePrefill plan) = None"
      "Target plan \<in> {StateCached, StateCold}" "Advance_r now cur plan obs = advanceToLowerState now cur plan obs"
proof (cases "validatePlan cur plan")
  case (Some e)
  then show ?thesis by (intro bad_plan) (simp_all add: Advance_r_def)
next
  case None
  then have t: "Target plan = StateReady \<or> Target plan \<in> {StateCached, StateCold}"
    by (auto simp: validatePlan_def split: if_splits)
  show ?thesis
  proof (cases "Failure obs \<noteq> '''' \<or> timed_out now cur")
    case True
    then have "Advance_r now cur plan obs = rollback cur obs plan
        (if Failure obs \<noteq> '''' then ErrTransitionFailed else ErrTransitionTimeout)"
      using None by (simp add: Advance_r_def)
    with None show ?thesis by (intro rollback) auto
  next
    case False
    then have run: "Advance_r now cur plan obs = (case validateObservation (sn_State cur) obs (RequirePrefill plan) of
        Some e \<Rightarrow> (invariantDecision cur (failClosedActions obs) obs (RequirePrefill plan), Some e)
      | None \<Rightarrow> if Target plan = StateReady then advanceToReady now cur plan obs
                else advanceToLowerState now cur plan obs)"
      using None t by (auto simp: Advance_r_def Project_def Let_def split: option.splits)
    show ?thesis
    proof (cases "validateObservation (sn_State cur) obs (RequirePrefill plan)")
      case (Some e)
      then show ?thesis using None run by (intro invariant) simp_all
    next
      case ok: None
      then show ?thesis using None run t by (cases "Target plan = StateReady") (auto intro: up down)
    qed
  qed
qed

lemma validateObservation_None:
  "validateObservation s obs p = None \<longleftrightarrow> 0 \<le> ActiveRequests obs \<and>
     (AcceptingRequests obs \<longrightarrow> RouteAttached obs \<and> s = StateReady) \<and>
     (RouteAttached obs \<longrightarrow> RuntimeReady obs \<and> (p \<longrightarrow> PrefillReady obs)) \<and>
     (0 < ActiveRequests obs \<longrightarrow> s = StateReady \<or> s = StateDraining)"
  by (auto simp: validateObservation_def)

lemma validateObservation_Some: "validateObservation s obs p = Some e \<Longrightarrow> e = ErrInvariantViolated"
  by (auto simp: validateObservation_def split: if_splits)

lemma validatePlan_Some: "validatePlan cur plan = Some e \<Longrightarrow> e = ErrInvalidPlan"
  by (auto simp: validatePlan_def split: if_splits)

lemma policyFor_route:
  "AllowRoute (policyFor s obs p) \<longleftrightarrow> s = StateReady \<and> RuntimeReady obs \<and> (p \<longrightarrow> PrefillReady obs)"
  "AcceptNewRequests (policyFor s obs p) = AllowRoute (policyFor s obs p)"
  by (auto simp: policyFor_def Let_def)

lemma statusFor_ready: "Ready (statusFor s obs p) = AllowRoute (policyFor s obs p)"
  by (auto simp: policyFor_def statusFor_def Let_def)

lemma advanceToReady_cases:
  "advanceToReady now cur plan obs = (d, err) \<Longrightarrow> isKnownState (sn_State cur) \<Longrightarrow> err = None \<and>
     plain d obs (RequirePrefill plan) \<and>
     set (d_Actions d) \<subseteq> {ActionCacheArtifact, ActionLoadRuntime, ActionWarmRuntime, ActionAttachRoute} \<and>
     (ActionAttachRoute \<in> set (d_Actions d) \<longrightarrow> runtime_ok plan obs \<and> sn_State (d_Snapshot d) = StateReady)"
  by (cases "sn_State cur") (auto simp: advanceToReady_def residency_ops isKnownState_def Let_def split: if_splits)

lemma advanceToLowerState_cases:
  "advanceToLowerState now cur plan obs = (d, err) \<Longrightarrow> isKnownState (sn_State cur) \<Longrightarrow> err = None \<and>
     plain d obs (RequirePrefill plan) \<and> ActionAttachRoute \<notin> set (d_Actions d) \<and>
     (set (d_Actions d) \<inter> {ActionStopRuntime, ActionEvictArtifact} \<noteq> {} \<longrightarrow>
        sn_State cur \<in> {StateLoading, StateWarming, StateEvicting, StateCached} \<or> ActiveRequests obs \<le> 0)"
  by (cases "sn_State cur")
    (auto simp: advanceToLowerState_def residency_ops failClosedActions_def isKnownState_def Let_def split: if_splits)

lemma rollback_cases:
  "rollback cur obs plan cause = (d, err) \<Longrightarrow> err = Some cause \<and>
     plain d obs (RequirePrefill plan) \<and>
     sn_State (d_Snapshot d) \<in> {StateCold, StateCached, StateDraining, StateEvicting} \<and>
     ActionAttachRoute \<notin> set (d_Actions d) \<and> set (failClosedActions obs) \<subseteq> set (d_Actions d) \<and>
     (set (d_Actions d) \<inter> {ActionStopRuntime, ActionEvictArtifact} \<noteq> {} \<longrightarrow> ActiveRequests obs \<le> 0)"
  by (auto simp: rollback_def failClosedActions_def Let_def split: if_splits)

section \<open>Properties\<close>

text \<open>
  C21. Routing is fail-closed. Whatever \<open>Advance\<close> is given, its decision allows a route and new
  requests only in the state ready with a ready runtime (and prefill workers where required),
  reports ready only then, and asks to attach a route only then. It asks to stop the runtime or
  to evict the artifact only when no request is active. After a failed or timed-out transition
  or a violated invariant the decision allows no route, and asks to detach one that is attached.
\<close>

theorem residency_fail_closed:
  assumes "Advance_r now cur plan obs = (d, err)"
  shows "(AllowRoute (d_Policy d) \<longrightarrow> sn_State (d_Snapshot d) = StateReady \<and> runtime_ok plan obs) \<and>
    (AcceptNewRequests (d_Policy d) \<longleftrightarrow> AllowRoute (d_Policy d)) \<and>
    (Ready (d_Status d) \<longrightarrow> AllowRoute (d_Policy d)) \<and>
    (ActionAttachRoute \<in> set (d_Actions d) \<longrightarrow> AllowRoute (d_Policy d) \<and> err = None) \<and>
    (ActionStopRuntime \<in> set (d_Actions d) \<or> ActionEvictArtifact \<in> set (d_Actions d) \<longrightarrow> ActiveRequests obs \<le> 0) \<and>
    (err \<in> {Some ErrTransitionFailed, Some ErrTransitionTimeout, Some ErrInvariantViolated} \<longrightarrow>
       \<not> AllowRoute (d_Policy d) \<and>
       (RouteAttached obs \<or> AcceptingRequests obs \<longrightarrow> ActionDetachRoute \<in> set (d_Actions d)))"
proof (cases rule: Advance_cases [of cur plan now obs])
  case (bad_plan e)
  then have "d = decision cur [] obs (RequirePrefill plan)" "err = Some ErrInvalidPlan"
    using assms validatePlan_Some [OF bad_plan(1)] by simp_all
  then show ?thesis by (simp add: policyFor_route statusFor_ready runtime_ok_def)
next
  case (rollback cause)
  then have "rollback cur obs plan cause = (d, err)" using assms by simp
  note c = rollback_cases [OF this]
  then have "\<not> AllowRoute (d_Policy d)" "\<not> AcceptNewRequests (d_Policy d)" "\<not> Ready (d_Status d)"
    by (auto simp: plain_def policyFor_route statusFor_ready)
  with c rollback(1) show ?thesis by (auto simp: failClosedActions_def)
next
  case (invariant e)
  then have "d = invariantDecision cur (failClosedActions obs) obs (RequirePrefill plan)" using assms by simp
  then show ?thesis by (simp add: invariantDecision_def failClosedActions_def Let_def)
next
  case up
  then have k: "isKnownState (sn_State cur)" and r: "advanceToReady now cur plan obs = (d, err)"
    using assms by (auto simp: validatePlan_def split: if_splits)
  note c = advanceToReady_cases [OF r k]
  then have p: "AllowRoute (d_Policy d) \<longleftrightarrow> sn_State (d_Snapshot d) = StateReady \<and> runtime_ok plan obs"
      "AcceptNewRequests (d_Policy d) = AllowRoute (d_Policy d)" "Ready (d_Status d) = AllowRoute (d_Policy d)"
    by (auto simp: plain_def policyFor_route statusFor_ready runtime_ok_def)
  have "ActionStopRuntime \<notin> set (d_Actions d)" "ActionEvictArtifact \<notin> set (d_Actions d)" using c by auto
  with c p show ?thesis by simp
next
  case down
  then have k: "isKnownState (sn_State cur)" and r: "advanceToLowerState now cur plan obs = (d, err)"
    using assms by (auto simp: validatePlan_def split: if_splits)
  note c = advanceToLowerState_cases [OF r k]
  then have p: "AllowRoute (d_Policy d) \<longleftrightarrow> sn_State (d_Snapshot d) = StateReady \<and> runtime_ok plan obs"
      "AcceptNewRequests (d_Policy d) = AllowRoute (d_Policy d)" "Ready (d_Status d) = AllowRoute (d_Policy d)"
    by (auto simp: plain_def policyFor_route statusFor_ready runtime_ok_def)
  have "ActiveRequests obs \<le> 0" if "ActionStopRuntime \<in> set (d_Actions d) \<or> ActionEvictArtifact \<in> set (d_Actions d)"
    using c that down(2) by (auto simp: validateObservation_None)
  with c p show ?thesis by simp
qed

theorem residency_fail_closed_witness:
  "let sn = \<lparr>sn_State = StateReady, RollbackTarget = StateReady, StartedAt = 0, sn_Deadline = 0\<rparr>;
       plan = \<lparr>Target = StateReady, RequirePrefill = False, Timeout = 0\<rparr>;
       obs = \<lparr>ArtifactCached = True, RuntimeLoaded = True, RuntimeReady = True, PrefillReady = False,
              RouteAttached = True, AcceptingRequests = True, ActiveRequests = 2, Failure = ''oom''\<rparr>;
       (d, err) = Advance_r 9 sn plan obs
   in err = Some ErrTransitionFailed \<and> \<not> AllowRoute (d_Policy d) \<and> ActionDetachRoute \<in> set (d_Actions d)"
proof -
  let ?sn = "\<lparr>sn_State = StateReady, RollbackTarget = StateReady, StartedAt = 0, sn_Deadline = 0\<rparr>"
  let ?plan = "\<lparr>Target = StateReady, RequirePrefill = False, Timeout = 0\<rparr>"
  let ?obs = "\<lparr>ArtifactCached = True, RuntimeLoaded = True, RuntimeReady = True, PrefillReady = False,
              RouteAttached = True, AcceptingRequests = True, ActiveRequests = 2, Failure = ''oom''\<rparr>"
  obtain d where a: "Advance_r 9 ?sn ?plan ?obs = (d, Some ErrTransitionFailed)"
    by (simp add: Advance_r_def validatePlan_def isKnownState_def rollback_def Let_def)
  from residency_fail_closed [OF a] show ?thesis by (simp add: a)
qed

lemma rollback_snapshot:
  "rollback cur obs plan cause = (d, err) \<Longrightarrow> stable (RollbackTarget cur) \<Longrightarrow> isKnownState (sn_State cur) \<Longrightarrow>
   snapshot_ok (d_Snapshot d) \<and> phase_step (phase_of (sn_State cur)) (phase_of (sn_State (d_Snapshot d)))"
  by (auto simp: rollback_def snapshot_ok_def stable_def isKnownState_def phase_of_def snapshot_defs Let_def
      intro: phase_step.intros split: if_splits)

lemma up_snapshot:
  "advanceToReady now cur plan obs = (d, err) \<Longrightarrow> snapshot_ok cur \<Longrightarrow>
   snapshot_ok (d_Snapshot d) \<and> phase_step (phase_of (sn_State cur)) (phase_of (sn_State (d_Snapshot d)))"
  by (cases "sn_State cur")
    (auto simp: advanceToReady_def residency_ops snapshot_ok_def stable_def isKnownState_def phase_of_def
      snapshot_defs isTransitional_def Let_def intro: phase_step.intros split: if_splits)

lemma down_snapshot:
  "advanceToLowerState now cur plan obs = (d, err) \<Longrightarrow> snapshot_ok cur \<Longrightarrow> Target plan \<in> {StateCached, StateCold} \<Longrightarrow>
   snapshot_ok (d_Snapshot d) \<and> phase_step (phase_of (sn_State cur)) (phase_of (sn_State (d_Snapshot d)))"
  by (cases "sn_State cur")
    (auto simp: advanceToLowerState_def residency_ops snapshot_ok_def stable_def isKnownState_def phase_of_def
      snapshot_defs isTransitional_def Let_def intro: phase_step.intros split: if_splits)

lemma residency_step_ok:
  assumes "snapshot_ok cur"
  shows "snapshot_ok (residency_step cur i) \<and> phase_step (phase_of (sn_State cur)) (phase_of (sn_State (residency_step cur i)))"
proof -
  obtain now plan obs where i: "i = (now, plan, obs)" by (metis prod_cases3)
  obtain d err where d: "Advance_r now cur plan obs = (d, err)" by fastforce
  have "snapshot_ok (d_Snapshot d) \<and> phase_step (phase_of (sn_State cur)) (phase_of (sn_State (d_Snapshot d)))"
  proof (cases rule: Advance_cases [of cur plan now obs])
    case (rollback cause)
    then show ?thesis using d rollback_snapshot [of cur obs plan cause d err] assms by (simp add: snapshot_ok_def)
  next
    case up
    then show ?thesis using d up_snapshot [of now cur plan obs d err] assms by simp
  next
    case down
    then show ?thesis using d down_snapshot [of now cur plan obs d err] assms by simp
  qed (use d assms in \<open>auto simp: invariantDecision_def Let_def intro: phase_step.stay\<close>)
  then show ?thesis by (simp add: i d)
qed

text \<open>
  C22. The machine refines its abstract phases down, going up, serving and going down: along
  every sequence of reconciliations, with any clock, plans and observations, each step of the
  detailed machine is a step of the abstract one, in which serving is never entered directly
  from down; the states stay among the seven known ones, and a rollback target is always one of
  the stable states cold, cached and ready.
\<close>

theorem residency_refines_phases:
  assumes "snapshot_ok sn"
  shows "successively phase_step (map (\<lambda>s. phase_of (sn_State s)) (residency_trace sn is)) \<and>
    list_all snapshot_ok (residency_trace sn is)"
  using assms
proof (induction "is" arbitrary: sn)
  case (Cons i "is")
  note step = residency_step_ok [OF Cons.prems, of i]
  have hd: "\<exists>rest. residency_trace (residency_step sn i) is = residency_step sn i # rest"
    by (cases "is") auto
  then show ?case using Cons.IH [of "residency_step sn i"] Cons.prems step by auto
qed simp

theorem residency_refines_phases_witness:
  "let sn = \<lparr>sn_State = StateCold, RollbackTarget = StateCold, StartedAt = 0, sn_Deadline = 0\<rparr>; plan = \<lparr>Target = StateReady, RequirePrefill = False, Timeout = 0\<rparr>;
       obs = \<lparr>ArtifactCached = True, RuntimeLoaded = True, RuntimeReady = True, PrefillReady = False,
              RouteAttached = False, AcceptingRequests = False, ActiveRequests = 0, Failure = ''''\<rparr>
   in list_all snapshot_ok (residency_trace sn [(1, plan, obs), (2, plan, obs)])"
  unfolding Let_def
  by (rule conjunct2 [OF residency_refines_phases]) (simp add: snapshot_ok_def isKnownState_def stable_def settle_def)

section \<open>Convergence\<close>













text \<open>
  C24. With the target cached, a cold model stays cold: as long as no failure is reported, no
  sequence of reconciliations leaves the state cold, whatever is observed, even that the
  artifact is cached.
\<close>

theorem cold_never_cached:
  assumes "sn_State sn = StateCold" "list_all (\<lambda>(now, plan, obs). Target plan = StateCached \<and> Failure obs = '''') is"
  shows "list_all (\<lambda>s. sn_State s = StateCold) (residency_trace sn is)"
  using assms
proof (induction "is" arbitrary: sn)
  case (Cons i "is")
  obtain now plan obs where i: "i = (now, plan, obs)" by (metis prod_cases3)
  have "sn_State (residency_step sn i) = StateCold"
    using Cons.prems by (simp add: i Advance_r_def validatePlan_def isKnownState_def timed_out_def isTransitional_def
        Project_def advanceToLowerState_def invariantDecision_def Let_def split: option.splits)
  then show ?case using Cons by simp
qed simp

theorem cold_never_cached_witness:
  "let plan = \<lparr>Target = StateCached, RequirePrefill = False, Timeout = 0\<rparr>;
       obs = \<lparr>ArtifactCached = True, RuntimeLoaded = False, RuntimeReady = False, PrefillReady = False,
              RouteAttached = False, AcceptingRequests = False, ActiveRequests = 0, Failure = ''''\<rparr>
   in list_all (\<lambda>s. sn_State s = StateCold) (residency_trace \<lparr>sn_State = StateCold, RollbackTarget = StateCold, StartedAt = 0, sn_Deadline = 0\<rparr> [(1, plan, obs), (2, plan, obs)])"
  unfolding Let_def by (rule cold_never_cached) simp_all

end
