(* ===== verification/Composition.thy ===== *)
theory Composition
  imports Sha256 "HOL-Library.Multiset"
begin

text \<open>
  The governed composition pipeline of \<open>src/internal/kernel/composition\<close>: components with
  identity, digest, provenance and a state vector (\<open>types.go\<close>), the pipeline with its slots,
  the pre-flight validation, the aggregation of the component vectors, the composite digest and
  the execution with its receipt (\<open>pipeline.go\<close>).

  A violation is the datatype \<open>Violation\<close> with the arguments that the code formats into its
  text. The loops over the maps \<open>scores\<close> and \<open>riskOrder\<close> take the order in which
  the runtime delivers the keys (\<open>tk\<close>, \<open>rk\<close>). A method with a pointer receiver returns the
  pipeline it leaves behind first.
\<close>

section \<open>Types\<close>

datatype composition_error = ErrNilComponent | ErrInvalidKind | ErrMissingIdentity | ErrMissingDigest
  | ErrMissingRequiredComponent | ErrCompatibilityViolation | ErrForbiddenVectorTuple | ErrAdmissionDenied
  | ErrExecutionHalted "composition_error option"

datatype ComponentKind = KindModel | KindTokenizer | KindQuantization | KindAdapter | KindProjection
  | KindFilter | KindGuard | KindPlugin | KindRuntime | KindOther string

datatype ExecutionStage = StageUnspecified | StagePreExecution | StageTokenize | StageInference
  | StagePostExecution | StageOther string

datatype LifecycleState_cp = LifecycleUnspecified | LifecycleProposed | LifecycleActive
  | LifecycleQuarantined | LifecycleDeprecated | LifecycleRetired | LifecycleOther string

datatype TrustState = TrustUnspecified | TrustDenied | TrustUnknown | TrustAsserted | TrustVerified
  | TrustTrusted | TrustOther string

datatype RiskBand = RiskUnspecified | RiskLow | RiskNormal | RiskHigh | RiskCritical | RiskOther string

datatype AdmissionDecision = AdmissionUnspecified | AdmissionAdmitted | AdmissionAudit | AdmissionPending
  | AdmissionDenied | AdmissionOther string

datatype CompatibilityState = CompatibilityUnspecified | CompatibilityCompatible | CompatibilityDegraded
  | CompatibilityIncompatible | CompatibilityOther string

datatype IntegrityState = IntegrityUnspecified | IntegrityVerified | IntegrityUnsigned | IntegrityTampered
  | IntegrityMissing | IntegrityOther string

datatype ExecutionStatus = StatusUnspecified | StatusSuccess | StatusHalted | StatusFailed

fun ComponentKind_string :: "ComponentKind \<Rightarrow> string" where
  "ComponentKind_string KindModel = ''Model''"
| "ComponentKind_string KindTokenizer = ''Tokenizer''"
| "ComponentKind_string KindQuantization = ''Quantization''"
| "ComponentKind_string KindAdapter = ''Adapter''"
| "ComponentKind_string KindProjection = ''Projection''"
| "ComponentKind_string KindFilter = ''Filter''"
| "ComponentKind_string KindGuard = ''Guard''"
| "ComponentKind_string KindPlugin = ''Plugin''"
| "ComponentKind_string KindRuntime = ''Runtime''"
| "ComponentKind_string (KindOther s) = s"

fun TrustState_string :: "TrustState \<Rightarrow> string" where
  "TrustState_string TrustUnspecified = ''Unspecified''"
| "TrustState_string TrustDenied = ''Denied''"
| "TrustState_string TrustUnknown = ''Unknown''"
| "TrustState_string TrustAsserted = ''Asserted''"
| "TrustState_string TrustVerified = ''Verified''"
| "TrustState_string TrustTrusted = ''Trusted''"
| "TrustState_string (TrustOther s) = s"

fun RiskBand_string :: "RiskBand \<Rightarrow> string" where
  "RiskBand_string RiskUnspecified = ''Unspecified''"
| "RiskBand_string RiskLow = ''Low''"
| "RiskBand_string RiskNormal = ''Normal''"
| "RiskBand_string RiskHigh = ''High''"
| "RiskBand_string RiskCritical = ''Critical''"
| "RiskBand_string (RiskOther s) = s"

record StateVector_cp =
  v_Lifecycle :: LifecycleState_cp
  v_Trust :: TrustState
  v_Risk :: RiskBand
  v_Admission :: AdmissionDecision
  v_Compatibility :: CompatibilityState
  v_Integrity :: IntegrityState

record Identity =
  id_ID :: string
  id_Name :: string
  id_Kind :: ComponentKind

record CompatibilitySpec =
  Architecture :: string
  BaseModelDigest :: string
  SupportedRuntimes :: "string list"
  SupportedFormats :: "string list"
  InputDimension :: int
  OutputDimension :: int
  TargetModules :: "string list"
  Stage :: ExecutionStage

record Provenance =
  SourceURI :: string
  Publisher :: string
  SignerIdentity :: string
  SupplyChainLevel :: string

record AdmissionRecord =
  ad_Decision :: AdmissionDecision
  PolicyRef :: string
  ReceiptDigest :: string
  EvaluatedAtUnix :: int

record LifecycleRecord =
  lr_State :: LifecycleState_cp
  lr_Phase :: string
  UpdatedAtUnix :: int

record EvidenceRecord_cp =
  AttestationURI :: string
  SignatureDigest :: string
  SBOMDigest :: string
  ev_Integrity :: IntegrityState

record Component =
  c_Identity :: Identity
  c_Version :: string
  c_Digest :: string
  c_Compatibility :: CompatibilitySpec
  c_Provenance :: Provenance
  c_Admission :: AdmissionRecord
  c_Lifecycle :: LifecycleRecord
  c_Evidence :: EvidenceRecord_cp
  c_StateVector :: StateVector_cp

datatype Violation = TokenizerArchitecture string string | QuantizationBase string string
  | AdapterBase nat string string | AdapterArchitecture nat string string | ProjectionBase nat
  | ProjectionDimension nat int int | FilterStage nat ExecutionStage | GuardStage nat ExecutionStage

record ValidationReport =
  CompatibilityStatus :: CompatibilityState
  vr_StateVector :: StateVector_cp
  Violations :: "Violation list"
  vr_CompositeDigest :: string

record Payload =
  Data :: string
  pl_Metadata :: "string \<rightharpoonup> string"
  Tokens :: "int list"
  Attributes :: "string \<rightharpoonup> string"

record CompositionReceipt =
  PipelineID :: string
  rc_CompositeDigest :: string
  rc_Status :: ExecutionStatus
  rc_StateVector :: StateVector_cp
  StageTraces :: "string list"
  ExecutedAtUnix :: int

record Pipeline =
  p_ID :: string
  p_Name :: string
  p_Version :: string
  Model :: "Component option"
  Tokenizer :: "Component option"
  Quantization :: "Component option"
  Runtime :: "Component option"
  Adapters :: "Component list"
  Projections :: "Component list"
  Filters :: "Component list"
  Guards :: "Component list"
  Plugins :: "Component list"
  p_CompositeDigest :: string
  p_StateVector :: StateVector_cp

section \<open>Building a pipeline\<close>

definition NewPipeline :: "string \<Rightarrow> string \<Rightarrow> string \<Rightarrow> Pipeline" where
  "NewPipeline ident name version =
     \<lparr>p_ID = ident, p_Name = name, p_Version = version, Model = None, Tokenizer = None,
      Quantization = None, Runtime = None, Adapters = [], Projections = [], Filters = [], Guards = [],
      Plugins = [], p_CompositeDigest = '''',
      p_StateVector = \<lparr>v_Lifecycle = LifecycleProposed, v_Trust = TrustUnknown, v_Risk = RiskNormal,
        v_Admission = AdmissionPending, v_Compatibility = CompatibilityUnspecified,
        v_Integrity = IntegrityUnspecified\<rparr>\<rparr>"

definition SetModel :: "Component \<Rightarrow> Pipeline \<Rightarrow> (Pipeline, composition_error) result" where
  "SetModel c p = (if id_Kind (c_Identity c) \<noteq> KindModel then (p, Some ErrInvalidKind)
     else (p\<lparr>Model := Some c\<rparr>, None))"

definition SetTokenizer :: "Component \<Rightarrow> Pipeline \<Rightarrow> (Pipeline, composition_error) result" where
  "SetTokenizer c p = (if id_Kind (c_Identity c) \<noteq> KindTokenizer then (p, Some ErrInvalidKind)
     else (p\<lparr>Tokenizer := Some c\<rparr>, None))"

definition SetQuantization :: "Component \<Rightarrow> Pipeline \<Rightarrow> (Pipeline, composition_error) result" where
  "SetQuantization c p = (if id_Kind (c_Identity c) \<noteq> KindQuantization then (p, Some ErrInvalidKind)
     else (p\<lparr>Quantization := Some c\<rparr>, None))"

definition SetRuntime :: "Component \<Rightarrow> Pipeline \<Rightarrow> (Pipeline, composition_error) result" where
  "SetRuntime c p = (if id_Kind (c_Identity c) \<noteq> KindRuntime then (p, Some ErrInvalidKind)
     else (p\<lparr>Runtime := Some c\<rparr>, None))"

definition AddAdapter :: "Component \<Rightarrow> Pipeline \<Rightarrow> (Pipeline, composition_error) result" where
  "AddAdapter c p = (if id_Kind (c_Identity c) \<noteq> KindAdapter then (p, Some ErrInvalidKind)
     else (p\<lparr>Adapters := Adapters p @ [c]\<rparr>, None))"

definition AddProjection :: "Component \<Rightarrow> Pipeline \<Rightarrow> (Pipeline, composition_error) result" where
  "AddProjection c p = (if id_Kind (c_Identity c) \<noteq> KindProjection then (p, Some ErrInvalidKind)
     else (p\<lparr>Projections := Projections p @ [c]\<rparr>, None))"

definition AddFilter :: "Component \<Rightarrow> Pipeline \<Rightarrow> (Pipeline, composition_error) result" where
  "AddFilter c p = (if id_Kind (c_Identity c) \<noteq> KindFilter then (p, Some ErrInvalidKind)
     else (p\<lparr>Filters := Filters p @ [c]\<rparr>, None))"

definition AddGuard :: "Component \<Rightarrow> Pipeline \<Rightarrow> (Pipeline, composition_error) result" where
  "AddGuard c p = (if id_Kind (c_Identity c) \<noteq> KindGuard then (p, Some ErrInvalidKind)
     else (p\<lparr>Guards := Guards p @ [c]\<rparr>, None))"

definition AddPlugin :: "Component \<Rightarrow> Pipeline \<Rightarrow> (Pipeline, composition_error) result" where
  "AddPlugin c p = (if id_Kind (c_Identity c) \<noteq> KindPlugin then (p, Some ErrInvalidKind)
     else (p\<lparr>Plugins := Plugins p @ [c]\<rparr>, None))"

definition slot :: "'a option \<Rightarrow> 'a list" where
  "slot x = (case x of None \<Rightarrow> [] | Some c \<Rightarrow> [c])"

definition AllComponents :: "Pipeline \<Rightarrow> Component list" where
  "AllComponents p = slot (Runtime p) @ slot (Model p) @ slot (Tokenizer p) @ slot (Quantization p) @
     Adapters p @ Projections p @ Filters p @ Guards p @ Plugins p"

section \<open>Validation\<close>

definition validateRequired :: "Pipeline \<Rightarrow> composition_error option" where
  "validateRequired p =
     (if Model p = None then Some ErrMissingRequiredComponent
      else if Tokenizer p = None then Some ErrMissingRequiredComponent
      else if Runtime p = None then Some ErrMissingRequiredComponent
      else None)"

definition isValidDigest :: "string \<Rightarrow> bool" where
  "isValidDigest digest =
     (if prefix ''sha256:'' digest \<and> length digest = 71 then hex_decodable (drop 7 digest)
      else case str_index digest ''@sha256:'' of
        Some idx \<Rightarrow> length (drop (idx + 8) digest) = 64 \<and> hex_decodable (drop (idx + 8) digest)
      | None \<Rightarrow> False)"

definition validateComponentIdentityAndDigest :: "Component \<Rightarrow> composition_error option" where
  "validateComponentIdentityAndDigest c =
     (if id_ID (c_Identity c) = '''' \<or> id_Name (c_Identity c) = '''' \<or> c_Version c = '''' then Some ErrMissingIdentity
      else if \<not> isValidDigest (c_Digest c) then Some ErrMissingDigest
      else if SourceURI (c_Provenance c) = '''' \<or> Publisher (c_Provenance c) = '''' then Some ErrMissingIdentity
      else None)"

definition quantization_violations :: "Pipeline \<Rightarrow> Component \<Rightarrow> Violation list" where
  "quantization_violations p m = (case Quantization p of None \<Rightarrow> []
     | Some q \<Rightarrow> (if BaseModelDigest (c_Compatibility q) \<noteq> '''' \<and> BaseModelDigest (c_Compatibility q) \<noteq> c_Digest m
         then [QuantizationBase (BaseModelDigest (c_Compatibility q)) (c_Digest m)] else []))"

definition adapter_violations :: "Component \<Rightarrow> nat \<times> Component \<Rightarrow> Violation list" where
  "adapter_violations m = (\<lambda>(i, a). let ac = c_Compatibility a; mc = c_Compatibility m in
     (if BaseModelDigest ac \<noteq> '''' \<and> BaseModelDigest ac \<noteq> c_Digest m
      then [AdapterBase i (BaseModelDigest ac) (c_Digest m)] else []) @
     (if Architecture ac \<noteq> '''' \<and> Architecture mc \<noteq> '''' \<and> Architecture ac \<noteq> Architecture mc
      then [AdapterArchitecture i (Architecture ac) (Architecture mc)] else []))"

definition checkQuantAndAdapterCompat :: "Pipeline \<Rightarrow> Component \<Rightarrow> Violation list \<Rightarrow> Violation list" where
  "checkQuantAndAdapterCompat p m violations =
     violations @ quantization_violations p m @ concat (map (adapter_violations m) (enumerate 0 (Adapters p)))"

definition projection_violations :: "Component \<Rightarrow> nat \<times> Component \<Rightarrow> Violation list" where
  "projection_violations m = (\<lambda>(i, proj). let pc = c_Compatibility proj; mc = c_Compatibility m in
     (if BaseModelDigest pc \<noteq> '''' \<and> BaseModelDigest pc \<noteq> c_Digest m then [ProjectionBase i] else []) @
     (if InputDimension pc > 0 \<and> OutputDimension mc > 0 \<and> InputDimension pc \<noteq> OutputDimension mc
      then [ProjectionDimension i (InputDimension pc) (OutputDimension mc)] else []))"

definition stage_violations :: "(nat \<Rightarrow> ExecutionStage \<Rightarrow> Violation) \<Rightarrow> nat \<times> Component \<Rightarrow> Violation list" where
  "stage_violations mk = (\<lambda>(i, f). let stage = Stage (c_Compatibility f) in
     if stage \<noteq> StagePreExecution \<and> stage \<noteq> StagePostExecution then [mk i stage] else [])"

definition checkProjectionsAndStages :: "Pipeline \<Rightarrow> Component \<Rightarrow> Violation list \<Rightarrow> Violation list" where
  "checkProjectionsAndStages p m violations =
     violations @ concat (map (projection_violations m) (enumerate 0 (Projections p))) @
     concat (map (stage_violations FilterStage) (enumerate 0 (Filters p))) @
     concat (map (stage_violations GuardStage) (enumerate 0 (Guards p)))"

text \<open>
  The method reads the model and the tokenizer without a nil test; \<open>Validate\<close> calls it only
  after \<open>validateRequired\<close>.
\<close>

definition validateInterComponentCompatibility :: "Pipeline \<Rightarrow> (Violation list, composition_error) result" where
  "validateInterComponentCompatibility p =
     (let m = the (Model p); t = the (Tokenizer p);
          ta = Architecture (c_Compatibility t); ma = Architecture (c_Compatibility m);
          violations = (if ta \<noteq> '''' \<and> ma \<noteq> '''' \<and> ta \<noteq> ma then [TokenizerArchitecture ta ma] else []);
          violations = checkQuantAndAdapterCompat p m violations;
          violations = checkProjectionsAndStages p m violations
      in if violations \<noteq> [] then (violations, Some ErrCompatibilityViolation) else ([], None))"

definition checkForbiddenTuples :: "StateVector_cp \<Rightarrow> composition_error option" where
  "checkForbiddenTuples v =
     (if v_Trust v = TrustDenied \<or> v_Admission v = AdmissionDenied then Some ErrForbiddenVectorTuple
      else if v_Lifecycle v = LifecycleActive \<and> (v_Trust v = TrustDenied \<or> v_Trust v = TrustUnknown)
        then Some ErrForbiddenVectorTuple
      else if (v_Lifecycle v = LifecycleQuarantined \<or> v_Lifecycle v = LifecycleRetired) \<and>
          (v_Admission v = AdmissionAdmitted \<or> v_Trust v = TrustTrusted \<or> v_Trust v = TrustVerified)
        then Some ErrForbiddenVectorTuple
      else if (v_Risk v = RiskHigh \<or> v_Risk v = RiskCritical) \<and> v_Integrity v \<noteq> IntegrityVerified
        then Some ErrForbiddenVectorTuple
      else if v_Compatibility v = CompatibilityIncompatible \<and> v_Admission v = AdmissionAdmitted
        then Some ErrForbiddenVectorTuple
      else None)"

section \<open>Aggregation\<close>

fun trust_scores :: "TrustState \<rightharpoonup> int" where
  "trust_scores TrustDenied = Some (-1)"
| "trust_scores TrustUnknown = Some 0"
| "trust_scores TrustAsserted = Some 1"
| "trust_scores TrustVerified = Some 2"
| "trust_scores TrustTrusted = Some 3"
| "trust_scores _ = None"

fun riskOrder :: "RiskBand \<rightharpoonup> int" where
  "riskOrder RiskLow = Some 1"
| "riskOrder RiskNormal = Some 2"
| "riskOrder RiskHigh = Some 3"
| "riskOrder RiskCritical = Some 4"
| "riskOrder _ = None"

text \<open>Indexing a Go map with a missing key gives the zero value.\<close>

definition trust_score :: "TrustState \<Rightarrow> int" where
  "trust_score t = (case trust_scores t of Some s \<Rightarrow> s | None \<Rightarrow> 0)"

definition risk_rank :: "RiskBand \<Rightarrow> int" where
  "risk_rank r = (case riskOrder r of Some s \<Rightarrow> s | None \<Rightarrow> 0)"

definition aggregateTrust :: "TrustState list \<Rightarrow> Component list \<Rightarrow> TrustState" where
  "aggregateTrust tk comps =
     (let minScore = fold (\<lambda>c m. let s = trust_score (v_Trust (c_StateVector c)) in if s < m then s else m)
            comps (trust_score TrustTrusted)
      in case find (\<lambda>state. trust_scores state = Some minScore) tk of Some state \<Rightarrow> state | None \<Rightarrow> TrustUnknown)"

definition aggregateRisk :: "RiskBand list \<Rightarrow> Component list \<Rightarrow> RiskBand" where
  "aggregateRisk rk comps =
     (let maxRisk = fold (\<lambda>c m. let s = risk_rank (v_Risk (c_StateVector c)) in if s > m then s else m) comps 1
      in case find (\<lambda>r. riskOrder r = Some maxRisk) rk of Some r \<Rightarrow> r | None \<Rightarrow> RiskNormal)"

definition fold_lifecycle :: "LifecycleState_cp \<Rightarrow> LifecycleState_cp \<Rightarrow> LifecycleState_cp" where
  "fold_lifecycle c eff = (if c = LifecycleQuarantined then LifecycleQuarantined
     else if c = LifecycleProposed \<and> eff \<noteq> LifecycleQuarantined then LifecycleProposed else eff)"

definition fold_admission :: "AdmissionDecision \<Rightarrow> AdmissionDecision \<Rightarrow> AdmissionDecision" where
  "fold_admission c eff = (if c = AdmissionDenied then AdmissionDenied
     else if c = AdmissionPending \<and> eff \<noteq> AdmissionDenied then AdmissionPending else eff)"

definition fold_integrity :: "IntegrityState \<Rightarrow> IntegrityState \<Rightarrow> IntegrityState" where
  "fold_integrity c eff = (if c = IntegrityTampered then IntegrityTampered
     else if c \<noteq> IntegrityVerified \<and> eff \<noteq> IntegrityTampered then c else eff)"

definition fold_vector :: "Component \<Rightarrow> StateVector_cp \<Rightarrow> StateVector_cp" where
  "fold_vector c eff = (let v = c_StateVector c in
     eff\<lparr>v_Lifecycle := fold_lifecycle (v_Lifecycle v) (v_Lifecycle eff),
         v_Admission := fold_admission (v_Admission v) (v_Admission eff),
         v_Integrity := fold_integrity (v_Integrity v) (v_Integrity eff)\<rparr>)"

definition aggregateStateVector ::
  "TrustState list \<Rightarrow> RiskBand list \<Rightarrow> Pipeline \<Rightarrow> bool \<Rightarrow> StateVector_cp" where
  "aggregateStateVector tk rk p compatible =
     (let comps = AllComponents p;
          eff = \<lparr>v_Lifecycle = LifecycleActive, v_Trust = aggregateTrust tk comps, v_Risk = aggregateRisk rk comps,
                 v_Admission = AdmissionAdmitted, v_Compatibility = CompatibilityCompatible,
                 v_Integrity = IntegrityVerified\<rparr>;
          eff = (if \<not> compatible then eff\<lparr>v_Compatibility := CompatibilityIncompatible\<rparr> else eff)
      in fold fold_vector comps eff)"

section \<open>Composite digest, validation, execution\<close>

definition digest_entry :: "Component \<Rightarrow> string" where
  "digest_entry c = ComponentKind_string (id_Kind (c_Identity c)) @ '':'' @ id_ID (c_Identity c) @ '':'' @
     c_Version c @ '':'' @ c_Digest c"

definition ComputeCompositeDigest :: "Pipeline \<Rightarrow> Pipeline \<times> string" where
  "ComputeCompositeDigest p =
     (let entries = sort (map digest_entry (AllComponents p));
          payload = p_ID p @ ''|'' @ p_Name p @ ''|'' @ p_Version p @ ''|'' @ str_join '';'' entries;
          digest = ''sha256:'' @ sha256_hex payload
      in (p\<lparr>p_CompositeDigest := digest\<rparr>, digest))"

fun validate_components :: "Component list \<Rightarrow> composition_error option" where
  "validate_components [] = None"
| "validate_components (c # cs) =
     (case validateComponentIdentityAndDigest c of Some e \<Rightarrow> Some e
      | None \<Rightarrow> (case checkForbiddenTuples (c_StateVector c) of Some e \<Rightarrow> Some e
         | None \<Rightarrow> validate_components cs))"

definition Validate_cp :: "TrustState list \<Rightarrow> RiskBand list \<Rightarrow> Pipeline \<Rightarrow>
    Pipeline \<times> (ValidationReport option, composition_error) result" where
  "Validate_cp tk rk p =
     (case validateRequired p of Some e \<Rightarrow> (p, None, Some e)
      | None \<Rightarrow> (case validate_components (AllComponents p) of Some e \<Rightarrow> (p, None, Some e)
      | None \<Rightarrow>
        (let (violations, compatErr) = validateInterComponentCompatibility p;
             vec = aggregateStateVector tk rk p (compatErr = None);
             p1 = p\<lparr>p_StateVector := vec\<rparr>
         in case checkForbiddenTuples vec of
              Some e \<Rightarrow> (p1, Some \<lparr>CompatibilityStatus = v_Compatibility vec, vr_StateVector = vec,
                                 Violations = violations, vr_CompositeDigest = ''''\<rparr>, Some e)
            | None \<Rightarrow>
              (let (p2, digest) = ComputeCompositeDigest p1;
                   report = \<lparr>CompatibilityStatus = v_Compatibility vec, vr_StateVector = vec,
                             Violations = violations, vr_CompositeDigest = digest\<rparr>
               in (p2, Some report, compatErr)))))"

definition guard_blocks :: "Payload \<Rightarrow> Component \<Rightarrow> bool" where
  "guard_blocks input g \<longleftrightarrow> Stage (c_Compatibility g) = StagePreExecution \<and> str_contains (Data input) ''MALICIOUS''"

type_synonym executed = "Payload option \<times> CompositionReceipt option \<times> composition_error option"

definition Execute :: "TrustState list \<Rightarrow> RiskBand list \<Rightarrow> gotime \<Rightarrow> Pipeline \<Rightarrow> Payload option \<Rightarrow> Pipeline \<times> executed" where
  "Execute tk rk now p input =
     (case input of None \<Rightarrow> (p, None, None, Some (ErrExecutionHalted None))
      | Some inp \<Rightarrow>
        (let (p1, report, err) = Validate_cp tk rk p
         in case err of Some e \<Rightarrow> (p1, None, None, Some (ErrExecutionHalted (Some e)))
            | None \<Rightarrow>
              (let adm = v_Admission (vr_StateVector (the report))
               in if adm \<noteq> AdmissionAdmitted \<and> adm \<noteq> AdmissionAudit
                  then (p1, None, None, Some (ErrExecutionHalted None))
                  else (let traces = [''preflight:validation_passed''];
                            receipt = \<lparr>PipelineID = p_ID p1, rc_CompositeDigest = p_CompositeDigest p1,
                              rc_Status = StatusSuccess, rc_StateVector = p_StateVector p1,
                              StageTraces = traces, ExecutedAtUnix = unix_seconds now\<rparr>
                        in case find (guard_blocks inp) (Guards p1) of
                             Some g \<Rightarrow> (p1, None,
                               Some (receipt\<lparr>rc_Status := StatusHalted,
                                 StageTraces := traces @ [''guard:'' @ id_ID (c_Identity g) @ '':blocked'']\<rparr>),
                               Some (ErrExecutionHalted None))
                           | None \<Rightarrow>
                             (let engine = id_Name (c_Identity (the (Runtime p1)));
                                  traces = traces @ [''stage:pre_execution'', ''stage:tokenize'',
                                    ''stage:inference:'' @ engine, ''stage:post_execution'']
                              in (p1,
                                  Some \<lparr>Data = ''processed:'' @ Data inp,
                                    pl_Metadata = [''compositeDigest'' \<mapsto> p_CompositeDigest p1, ''engine'' \<mapsto> engine],
                                    Tokens = [],
                                    Attributes = [''trust'' \<mapsto> TrustState_string (v_Trust (p_StateVector p1)),
                                                  ''risk'' \<mapsto> RiskBand_string (v_Risk (p_StateVector p1))]\<rparr>,
                                  Some (receipt\<lparr>StageTraces := traces\<rparr>), None))))))"

section \<open>Slots hold components of their kind\<close>

definition kinded :: "ComponentKind \<Rightarrow> Component list \<Rightarrow> bool" where
  "kinded k cs \<longleftrightarrow> list_all (\<lambda>c. id_Kind (c_Identity c) = k) cs"

definition well_kinded :: "Pipeline \<Rightarrow> bool" where
  "well_kinded p \<longleftrightarrow> kinded KindModel (slot (Model p)) \<and> kinded KindTokenizer (slot (Tokenizer p)) \<and>
     kinded KindQuantization (slot (Quantization p)) \<and> kinded KindRuntime (slot (Runtime p)) \<and>
     kinded KindAdapter (Adapters p) \<and> kinded KindProjection (Projections p) \<and> kinded KindFilter (Filters p) \<and>
     kinded KindGuard (Guards p) \<and> kinded KindPlugin (Plugins p)"

text \<open>The contract that the nine methods attaching a component share.\<close>

locale slot_writer =
  fixes put :: "Component \<Rightarrow> Pipeline \<Rightarrow> (Pipeline, composition_error) result"
    and k :: ComponentKind
  assumes refuses: "id_Kind (c_Identity c) \<noteq> k \<Longrightarrow> put c p = (p, Some ErrInvalidKind)"
    and accepts: "id_Kind (c_Identity c) = k \<Longrightarrow> snd (put c p) = None"
    and keeps_kinds: "id_Kind (c_Identity c) = k \<Longrightarrow> well_kinded p \<Longrightarrow> well_kinded (fst (put c p))"
    and adds_only: "id_Kind (c_Identity c) = k \<Longrightarrow>
      set (AllComponents (fst (put c p))) \<subseteq> insert c (set (AllComponents p))"
    and keeps_rest: "p_StateVector (fst (put c p)) = p_StateVector p \<and> p_CompositeDigest (fst (put c p)) = p_CompositeDigest p \<and>
      p_ID (fst (put c p)) = p_ID p"
begin

lemma put_kinded: "well_kinded p \<Longrightarrow> well_kinded (fst (put c p))"
  by (cases "id_Kind (c_Identity c) = k") (auto simp: refuses keeps_kinds)

lemma put_result: "snd (put c p) = None \<longleftrightarrow> id_Kind (c_Identity c) = k"
  by (cases "id_Kind (c_Identity c) = k") (simp_all add: refuses accepts)

lemma put_components:
  "set (AllComponents (fst (put c p))) \<subseteq>
     (if id_Kind (c_Identity c) = k then insert c (set (AllComponents p)) else set (AllComponents p))"
  using adds_only refuses by auto

end

lemmas slot_writer_defs = well_kinded_def kinded_def slot_def AllComponents_def

interpretation set_model: slot_writer SetModel KindModel
  by unfold_locales (auto simp: SetModel_def slot_writer_defs split: option.splits)

interpretation set_tokenizer: slot_writer SetTokenizer KindTokenizer
  by unfold_locales (auto simp: SetTokenizer_def slot_writer_defs split: option.splits)

interpretation set_quantization: slot_writer SetQuantization KindQuantization
  by unfold_locales (auto simp: SetQuantization_def slot_writer_defs split: option.splits)

interpretation set_runtime: slot_writer SetRuntime KindRuntime
  by unfold_locales (auto simp: SetRuntime_def slot_writer_defs split: option.splits)

interpretation add_adapter: slot_writer AddAdapter KindAdapter
  by unfold_locales (auto simp: AddAdapter_def slot_writer_defs split: option.splits)

interpretation add_projection: slot_writer AddProjection KindProjection
  by unfold_locales (auto simp: AddProjection_def slot_writer_defs split: option.splits)

interpretation add_filter: slot_writer AddFilter KindFilter
  by unfold_locales (auto simp: AddFilter_def slot_writer_defs split: option.splits)

interpretation add_guard: slot_writer AddGuard KindGuard
  by unfold_locales (auto simp: AddGuard_def slot_writer_defs split: option.splits)

interpretation add_plugin: slot_writer AddPlugin KindPlugin
  by unfold_locales (auto simp: AddPlugin_def slot_writer_defs split: option.splits)

text \<open>A call of one of the nine methods: its slot's kind and its argument.\<close>

datatype attach = Attach (attach_kind: ComponentKind) (attach_component: Component)

fun attach_op :: "ComponentKind \<Rightarrow> Component \<Rightarrow> Pipeline \<Rightarrow> (Pipeline, composition_error) result" where
  "attach_op KindModel = SetModel"
| "attach_op KindTokenizer = SetTokenizer"
| "attach_op KindQuantization = SetQuantization"
| "attach_op KindRuntime = SetRuntime"
| "attach_op KindAdapter = AddAdapter"
| "attach_op KindProjection = AddProjection"
| "attach_op KindFilter = AddFilter"
| "attach_op KindGuard = AddGuard"
| "attach_op KindPlugin = AddPlugin"
| "attach_op (KindOther s) = (\<lambda>c p. (p, Some ErrInvalidKind))"

fun attach_all :: "Pipeline \<Rightarrow> attach list \<Rightarrow> Pipeline" where
  "attach_all p [] = p"
| "attach_all p (a # as) = attach_all (fst (attach_op (attach_kind a) (attach_component a) p)) as"

definition matching :: "attach list \<Rightarrow> Component set" where
  "matching as = {c. \<exists>a \<in> set as. attach_component a = c \<and> attach_kind a = id_Kind (c_Identity c)}"

lemma attach_kinded: "well_kinded p \<Longrightarrow> well_kinded (fst (attach_op k c p))"
  by (cases k) (simp_all add: set_model.put_kinded set_tokenizer.put_kinded set_quantization.put_kinded
      set_runtime.put_kinded add_adapter.put_kinded add_projection.put_kinded add_filter.put_kinded
      add_guard.put_kinded add_plugin.put_kinded)

lemma attach_components:
  "set (AllComponents (fst (attach_op k c p))) \<subseteq>
     (if id_Kind (c_Identity c) = k then insert c (set (AllComponents p)) else set (AllComponents p))"
  by (cases k) (use set_model.put_components [of c p] set_tokenizer.put_components [of c p]
      set_quantization.put_components [of c p] set_runtime.put_components [of c p]
      add_adapter.put_components [of c p] add_projection.put_components [of c p] add_filter.put_components [of c p]
      add_guard.put_components [of c p] add_plugin.put_components [of c p] in \<open>simp_all add: subset_insertI\<close>)

lemma attach_rest: "p_StateVector (fst (attach_op k c p)) = p_StateVector p"
  by (cases k) (simp_all add: set_model.keeps_rest set_tokenizer.keeps_rest set_quantization.keeps_rest
      set_runtime.keeps_rest add_adapter.keeps_rest add_projection.keeps_rest add_filter.keeps_rest
      add_guard.keeps_rest add_plugin.keeps_rest)

lemma attach_result: "snd (attach_op k c p) = None \<longleftrightarrow> id_Kind (c_Identity c) = k \<and> \<not> (\<exists>s. k = KindOther s)"
  by (cases k) (simp_all add: set_model.put_result set_tokenizer.put_result set_quantization.put_result
      set_runtime.put_result add_adapter.put_result add_projection.put_result add_filter.put_result
      add_guard.put_result add_plugin.put_result)

lemma attach_all_kinded: "well_kinded p \<Longrightarrow> well_kinded (attach_all p as)"
  by (induction "as" arbitrary: p) (simp_all add: attach_kinded)

lemma attach_all_rest: "p_StateVector (attach_all p as) = p_StateVector p"
  by (induction "as" arbitrary: p) (simp_all add: attach_rest)

lemma attach_all_components: "set (AllComponents (attach_all p as)) \<subseteq> set (AllComponents p) \<union> matching as"
proof (induction "as" arbitrary: p)
  case (Cons a "as")
  have "matching as \<subseteq> matching (a # as)" by (auto simp: matching_def)
  moreover have "set (AllComponents (fst (attach_op (attach_kind a) (attach_component a) p)))
      \<subseteq> set (AllComponents p) \<union> matching (a # as)"
    using attach_components [of "attach_kind a" "attach_component a" p] by (auto simp: matching_def split: if_splits)
  ultimately show ?case using Cons.IH [of "fst (attach_op (attach_kind a) (attach_component a) p)"] by auto
qed simp

text \<open>
  C25. Slots are typed: a method that attaches a component accepts it exactly when it has the
  kind of the slot, and in every pipeline built from \<open>NewPipeline\<close> by any calls of the nine
  methods that attach a component, every slot holds only components of its kind, every component
  present was passed to the method for its own kind, and the state vector is still the
  proposed, unknown, pending one.
\<close>

theorem pipeline_well_kinded:
  "well_kinded (attach_all (NewPipeline ident name version) as) \<and>
   set (AllComponents (attach_all (NewPipeline ident name version) as)) \<subseteq> matching as \<and>
   p_StateVector (attach_all (NewPipeline ident name version) as) = p_StateVector (NewPipeline ident name version) \<and>
   (snd (attach_op k c p) = None \<longleftrightarrow> id_Kind (c_Identity c) = k \<and> \<not> (\<exists>s. k = KindOther s))"
proof -
  have "well_kinded (NewPipeline ident name version)" "AllComponents (NewPipeline ident name version) = []"
    by (simp_all add: NewPipeline_def well_kinded_def kinded_def slot_def AllComponents_def)
  then show ?thesis
    using attach_all_kinded attach_all_components [of "NewPipeline ident name version" "as"] attach_all_rest attach_result by simp
qed

section \<open>What the aggregation computes\<close>

lemma fold_if_min: "fold (\<lambda>c m. let s = f c in if s < m then s else m) cs (b :: int) = Min (insert b (f ` set cs))"
proof (induction cs arbitrary: b)
  case (Cons c cs)
  have "Min (insert (min b (f c)) (f ` set cs)) = Min (insert b (insert (f c) (f ` set cs)))"
    by (cases "cs = []") (auto simp: min_def)
  moreover have "(let s = f c in if s < b then s else b) = min b (f c)" by (simp add: min_def Let_def)
  ultimately show ?case using Cons by simp
qed simp

lemma fold_if_max: "fold (\<lambda>c m. let s = f c in if s > m then s else m) cs (b :: int) = Max (insert b (f ` set cs))"
proof (induction cs arbitrary: b)
  case (Cons c cs)
  have "Max (insert (max b (f c)) (f ` set cs)) = Max (insert b (insert (f c) (f ` set cs)))"
    by (cases "cs = []") (auto simp: max_def)
  moreover have "(let s = f c in if s > b then s else b) = max b (f c)" by (simp add: max_def Let_def)
  ultimately show ?case using Cons by simp
qed simp

text \<open>A search over the keys of a map whose values are pairwise different does not depend on the order.\<close>

lemma find_key:
  assumes "iteration_order ks m" "m k = Some v" "\<And>k'. m k' = Some v \<Longrightarrow> k' = k"
  shows "find (\<lambda>k. m k = Some v) ks = Some k"
proof -
  have "k \<in> set ks" using assms(1,2) by (auto simp: iteration_order_def)
  then show ?thesis
  proof (induction ks)
    case (Cons a ks)
    show ?case
    proof (cases "m a = Some v")
      case True
      with assms(3) [OF this] show ?thesis by simp
    next
      case False
      with assms(2) have "a \<noteq> k" by auto
      with Cons False show ?thesis by simp
    qed
  qed simp
qed

lemma trust_scores_inj: "trust_scores a = Some v \<Longrightarrow> trust_scores b = Some v \<Longrightarrow> a = b"
  by (cases a; cases b) auto

lemma riskOrder_inj: "riskOrder a = Some v \<Longrightarrow> riskOrder b = Some v \<Longrightarrow> a = b"
  by (cases a; cases b) auto

lemma trust_score_range: "trust_score t \<in> {-1, 0, 1, 2, 3}"
  by (cases t) (simp_all add: trust_score_def)

lemma risk_rank_range: "risk_rank r \<in> {0, 1, 2, 3, 4}"
  by (cases r) (simp_all add: risk_rank_def)

lemma trust_at: "s \<in> {-1, 0, 1, 2, 3} \<Longrightarrow> \<exists>t. trust_scores t = Some s"
  by (rule exI [of _ "if s = -1 then TrustDenied else if s = 0 then TrustUnknown else if s = 1 then TrustAsserted
        else if s = 2 then TrustVerified else TrustTrusted"]) auto

lemma risk_at: "s \<in> {1, 2, 3, 4} \<Longrightarrow> \<exists>r. riskOrder r = Some s"
  by (rule exI [of _ "if s = 1 then RiskLow else if s = 2 then RiskNormal else if s = 3 then RiskHigh
        else RiskCritical"]) auto

abbreviation trusts :: "Component list \<Rightarrow> int set" where
  "trusts cs \<equiv> (\<lambda>c. trust_score (v_Trust (c_StateVector c))) ` set cs"

abbreviation risks :: "Component list \<Rightarrow> int set" where
  "risks cs \<equiv> (\<lambda>c. risk_rank (v_Risk (c_StateVector c))) ` set cs"

lemma aggregateTrust_min:
  assumes "iteration_order tk trust_scores"
  shows "trust_scores (aggregateTrust tk cs) = Some (Min (insert 3 (trusts cs)))"
proof -
  let ?m = "Min (insert 3 (trusts cs))"
  have "trusts cs \<subseteq> {-1, 0, 1, 2, 3}" by (rule image_subsetI) (rule trust_score_range)
  then have "insert 3 (trusts cs) \<subseteq> {-1, 0, 1, 2, 3}" by simp
  from subsetD [OF this Min_in] have "?m \<in> {-1, 0, 1, 2, 3}" by simp
  from trust_at [OF this] obtain t where t: "trust_scores t = Some ?m" ..
  have "find (\<lambda>k. trust_scores k = Some ?m) tk = Some t"
    by (rule find_key [OF assms t]) (rule trust_scores_inj [OF _ t])
  with t show ?thesis by (simp add: aggregateTrust_def fold_if_min trust_score_def [of TrustTrusted])
qed

lemma aggregateRisk_max:
  assumes "iteration_order rk riskOrder"
  shows "riskOrder (aggregateRisk rk cs) = Some (Max (insert 1 (risks cs)))"
proof -
  let ?m = "Max (insert 1 (risks cs))"
  have "risks cs \<subseteq> {0, 1, 2, 3, 4}" by (rule image_subsetI) (rule risk_rank_range)
  then have "insert 1 (risks cs) \<subseteq> {0, 1, 2, 3, 4}" by simp
  from subsetD [OF this Max_in] have "?m \<in> {0, 1, 2, 3, 4}" by simp
  moreover have "1 \<le> ?m" by (rule Max_ge) auto
  ultimately have "?m \<in> {1, 2, 3, 4}" by (simp only: insert_iff) linarith
  from risk_at [OF this] obtain r where r: "riskOrder r = Some ?m" ..
  have "find (\<lambda>k. riskOrder k = Some ?m) rk = Some r"
    by (rule find_key [OF assms r]) (rule riskOrder_inj [OF _ r])
  with r show ?thesis by (simp add: aggregateRisk_def fold_if_max)
qed

lemma fold_vector_fields:
  "v_Lifecycle (fold fold_vector cs eff) = fold (\<lambda>c. fold_lifecycle (v_Lifecycle (c_StateVector c))) cs (v_Lifecycle eff)"
  "v_Admission (fold fold_vector cs eff) = fold (\<lambda>c. fold_admission (v_Admission (c_StateVector c))) cs (v_Admission eff)"
  "v_Integrity (fold fold_vector cs eff) = fold (\<lambda>c. fold_integrity (v_Integrity (c_StateVector c))) cs (v_Integrity eff)"
  "v_Trust (fold fold_vector cs eff) = v_Trust eff"
  "v_Risk (fold fold_vector cs eff) = v_Risk eff"
  "v_Compatibility (fold fold_vector cs eff) = v_Compatibility eff"
  by (induction cs arbitrary: eff) (simp_all add: fold_vector_def Let_def)

lemma fold_lifecycle_spec:
  "fold (\<lambda>c. fold_lifecycle (f c)) cs LifecycleActive =
     (if LifecycleQuarantined \<in> f ` set cs then LifecycleQuarantined
      else if LifecycleProposed \<in> f ` set cs then LifecycleProposed else LifecycleActive)"
proof -
  have "fold (\<lambda>c. fold_lifecycle (f c)) cs eff =
     (if eff = LifecycleQuarantined \<or> LifecycleQuarantined \<in> f ` set cs then LifecycleQuarantined
      else if LifecycleProposed \<in> f ` set cs then LifecycleProposed else eff)" for eff
    by (induction cs arbitrary: eff) (auto simp: fold_lifecycle_def)
  then show ?thesis by simp
qed

lemma fold_admission_spec:
  "fold (\<lambda>c. fold_admission (f c)) cs AdmissionAdmitted =
     (if AdmissionDenied \<in> f ` set cs then AdmissionDenied
      else if AdmissionPending \<in> f ` set cs then AdmissionPending else AdmissionAdmitted)"
proof -
  have "fold (\<lambda>c. fold_admission (f c)) cs eff =
     (if eff = AdmissionDenied \<or> AdmissionDenied \<in> f ` set cs then AdmissionDenied
      else if AdmissionPending \<in> f ` set cs then AdmissionPending else eff)" for eff
    by (induction cs arbitrary: eff) (auto simp: fold_admission_def)
  then show ?thesis by simp
qed

lemma fold_integrity_verified:
  "fold (\<lambda>c. fold_integrity (f c)) cs eff = IntegrityVerified \<longleftrightarrow> eff = IntegrityVerified \<and> f ` set cs \<subseteq> {IntegrityVerified}"
  by (induction cs arbitrary: eff) (auto simp: fold_integrity_def)

lemma fold_integrity_tampered:
  "fold (\<lambda>c. fold_integrity (f c)) cs eff = IntegrityTampered \<longleftrightarrow> eff = IntegrityTampered \<or> IntegrityTampered \<in> f ` set cs"
  by (induction cs arbitrary: eff) (auto simp: fold_integrity_def)

lemma aggregate_fields:
  "v_Trust (aggregateStateVector tk rk p b) = aggregateTrust tk (AllComponents p)"
  "v_Risk (aggregateStateVector tk rk p b) = aggregateRisk rk (AllComponents p)"
  "v_Lifecycle (aggregateStateVector tk rk p b) =
     fold (\<lambda>c. fold_lifecycle (v_Lifecycle (c_StateVector c))) (AllComponents p) LifecycleActive"
  "v_Admission (aggregateStateVector tk rk p b) =
     fold (\<lambda>c. fold_admission (v_Admission (c_StateVector c))) (AllComponents p) AdmissionAdmitted"
  "v_Integrity (aggregateStateVector tk rk p b) =
     fold (\<lambda>c. fold_integrity (v_Integrity (c_StateVector c))) (AllComponents p) IntegrityVerified"
  "v_Compatibility (aggregateStateVector tk rk p b) = (if b then CompatibilityCompatible else CompatibilityIncompatible)"
  by (simp_all add: aggregateStateVector_def fold_vector_fields Let_def)

text \<open>
  C26. The aggregated vector of a pipeline takes the weakest trust and the highest risk of its
  components, whatever order the runtime iterates the maps in. It is quarantined when a component
  is, else proposed when one is, else active; denied when one is denied, else pending when one
  is, else admitted; verified in integrity exactly when all are, and tampered exactly when one
  is; and compatible exactly when told so.
\<close>

theorem aggregateStateVector_spec:
  assumes "iteration_order tk trust_scores" "iteration_order rk riskOrder"
  shows "let v = aggregateStateVector tk rk p compatible; vs = c_StateVector ` set (AllComponents p) in
    trust_scores (v_Trust v) = Some (Min (insert 3 ((trust_score \<circ> v_Trust) ` vs))) \<and>
    riskOrder (v_Risk v) = Some (Max (insert 1 ((risk_rank \<circ> v_Risk) ` vs))) \<and>
    v_Lifecycle v = (if LifecycleQuarantined \<in> v_Lifecycle ` vs then LifecycleQuarantined
       else if LifecycleProposed \<in> v_Lifecycle ` vs then LifecycleProposed else LifecycleActive) \<and>
    v_Admission v = (if AdmissionDenied \<in> v_Admission ` vs then AdmissionDenied
       else if AdmissionPending \<in> v_Admission ` vs then AdmissionPending else AdmissionAdmitted) \<and>
    (v_Integrity v = IntegrityVerified \<longleftrightarrow> v_Integrity ` vs \<subseteq> {IntegrityVerified}) \<and>
    (v_Integrity v = IntegrityTampered \<longleftrightarrow> IntegrityTampered \<in> v_Integrity ` vs) \<and>
    v_Compatibility v = (if compatible then CompatibilityCompatible else CompatibilityIncompatible)"
  unfolding Let_def image_image comp_def aggregate_fields fold_lifecycle_spec fold_admission_spec
    fold_integrity_verified fold_integrity_tampered aggregateTrust_min [OF assms(1)] aggregateRisk_max [OF assms(2)]
  by (intro conjI refl) blast+

theorem aggregateStateVector_spec_witness:
  "v_Compatibility (aggregateStateVector [TrustTrusted, TrustDenied, TrustUnknown, TrustVerified, TrustAsserted]
     [RiskHigh, RiskLow, RiskCritical, RiskNormal] (NewPipeline ''p'' ''n'' ''1'') False) = CompatibilityIncompatible"
proof -
  have "iteration_order [TrustTrusted, TrustDenied, TrustUnknown, TrustVerified, TrustAsserted] trust_scores"
    by (auto simp: iteration_order_def elim: trust_scores.elims)
  moreover have "iteration_order [RiskHigh, RiskLow, RiskCritical, RiskNormal] riskOrder"
    by (auto simp: iteration_order_def elim: riskOrder.elims)
  ultimately show ?thesis
    using aggregateStateVector_spec [of "[TrustTrusted, TrustDenied, TrustUnknown, TrustVerified, TrustAsserted]"
        "[RiskHigh, RiskLow, RiskCritical, RiskNormal]" "NewPipeline ''p'' ''n'' ''1''" False]
    by (simp add: Let_def)
qed

section \<open>What a pipeline must satisfy to execute\<close>

definition component_ok :: "Component \<Rightarrow> bool" where
  "component_ok c \<longleftrightarrow> validateComponentIdentityAndDigest c = None \<and> checkForbiddenTuples (c_StateVector c) = None"

definition based_on :: "Component \<Rightarrow> Component \<Rightarrow> bool" where
  "based_on m c \<longleftrightarrow> BaseModelDigest (c_Compatibility c) \<in> {'''', c_Digest m}"

definition same_architecture :: "Component \<Rightarrow> Component \<Rightarrow> bool" where
  "same_architecture m c \<longleftrightarrow> (let a = Architecture (c_Compatibility c); b = Architecture (c_Compatibility m) in
     a = '''' \<or> b = '''' \<or> a = b)"

definition dimensions_fit :: "Component \<Rightarrow> Component \<Rightarrow> bool" where
  "dimensions_fit m c \<longleftrightarrow> (let i = InputDimension (c_Compatibility c); j = OutputDimension (c_Compatibility m) in
     i \<le> 0 \<or> j \<le> 0 \<or> i = j)"

definition parts_compatible :: "Pipeline \<Rightarrow> bool" where
  "parts_compatible p \<longleftrightarrow> (let m = the (Model p) in
     same_architecture m (the (Tokenizer p)) \<and>
     list_all (based_on m) (slot (Quantization p) @ Adapters p @ Projections p) \<and>
     list_all (same_architecture m) (Adapters p) \<and> list_all (dimensions_fit m) (Projections p) \<and>
     list_all (\<lambda>f. Stage (c_Compatibility f) \<in> {StagePreExecution, StagePostExecution}) (Filters p @ Guards p))"

definition composable :: "Pipeline \<Rightarrow> bool" where
  "composable p \<longleftrightarrow> Model p \<noteq> None \<and> Tokenizer p \<noteq> None \<and> Runtime p \<noteq> None \<and>
     list_all component_ok (AllComponents p) \<and> parts_compatible p"

definition vectors_allow :: "StateVector_cp set \<Rightarrow> bool" where
  "vectors_allow vs \<longleftrightarrow> LifecycleQuarantined \<notin> v_Lifecycle ` vs \<and>
     AdmissionDenied \<notin> v_Admission ` vs \<and> AdmissionPending \<notin> v_Admission ` vs \<and> TrustDenied \<notin> v_Trust ` vs \<and>
     (LifecycleProposed \<in> v_Lifecycle ` vs \<or> v_Trust ` vs \<subseteq> {TrustAsserted, TrustVerified, TrustTrusted}) \<and>
     (RiskHigh \<notin> v_Risk ` vs \<and> RiskCritical \<notin> v_Risk ` vs \<or> v_Integrity ` vs \<subseteq> {IntegrityVerified})"

lemma adapter_violations_Nil: "adapter_violations m (i, a) = [] \<longleftrightarrow> based_on m a \<and> same_architecture m a"
  by (auto simp: adapter_violations_def based_on_def same_architecture_def Let_def)

lemma projection_violations_Nil: "projection_violations m (i, a) = [] \<longleftrightarrow> based_on m a \<and> dimensions_fit m a"
  by (auto simp: projection_violations_def based_on_def dimensions_fit_def Let_def)

lemma stage_violations_Nil:
  "stage_violations mk (i, f) = [] \<longleftrightarrow> Stage (c_Compatibility f) \<in> {StagePreExecution, StagePostExecution}"
  by (auto simp: stage_violations_def Let_def)

lemma enumerated_Nil:
  "concat (map (adapter_violations m) (enumerate n xs)) = [] \<longleftrightarrow> list_all (based_on m) xs \<and> list_all (same_architecture m) xs"
  "concat (map (projection_violations m) (enumerate n xs)) = [] \<longleftrightarrow> list_all (based_on m) xs \<and> list_all (dimensions_fit m) xs"
  "concat (map (stage_violations mk) (enumerate n xs)) = [] \<longleftrightarrow>
     list_all (\<lambda>f. Stage (c_Compatibility f) \<in> {StagePreExecution, StagePostExecution}) xs"
  by (induction xs arbitrary: n)
    (auto simp: adapter_violations_Nil projection_violations_Nil stage_violations_Nil)

lemma quantization_violations_Nil: "quantization_violations p m = [] \<longleftrightarrow> list_all (based_on m) (slot (Quantization p))"
  by (auto simp: quantization_violations_def based_on_def slot_def split: option.splits)

lemma compatibility_iff:
  assumes "validateInterComponentCompatibility p = (vs, err)"
  shows "(err = None \<longleftrightarrow> parts_compatible p) \<and> (vs = [] \<longleftrightarrow> err = None)"
proof -
  have "checkProjectionsAndStages p m (checkQuantAndAdapterCompat p m ws) = [] \<longleftrightarrow>
      ws = [] \<and> list_all (based_on m) (slot (Quantization p) @ Adapters p @ Projections p) \<and>
      list_all (same_architecture m) (Adapters p) \<and> list_all (dimensions_fit m) (Projections p) \<and>
      list_all (\<lambda>f. Stage (c_Compatibility f) \<in> {StagePreExecution, StagePostExecution}) (Filters p @ Guards p)" for m ws
    unfolding checkQuantAndAdapterCompat_def checkProjectionsAndStages_def append_is_Nil_conv enumerated_Nil
      quantization_violations_Nil list_all_append by blast
  note nil = this
  show ?thesis
    using assms unfolding validateInterComponentCompatibility_def parts_compatible_def Let_def nil [symmetric]
    by (auto simp: nil same_architecture_def Let_def split: if_splits)
qed

lemma validate_components_None: "validate_components cs = None \<longleftrightarrow> list_all component_ok cs"
  by (induction cs) (auto simp: component_ok_def split: option.splits)

lemma least_score:
  assumes "S \<subseteq> {-1, 0, 1, 2, 3 :: int}" "\<And>x. x \<in> S \<Longrightarrow> m \<le> x" "m \<in> insert 3 S"
  shows "m = -1 \<longleftrightarrow> -1 \<in> S" "m = 0 \<longleftrightarrow> 0 \<in> S \<and> -1 \<notin> S"
proof -
  have ge: "-1 \<le> m" using assms(1,3) by auto
  show neg: "m = -1 \<longleftrightarrow> -1 \<in> S" using assms(2) [of "-1"] assms(3) ge by auto
  show "m = 0 \<longleftrightarrow> 0 \<in> S \<and> -1 \<notin> S"
  proof
    assume "m = 0"
    then show "0 \<in> S \<and> -1 \<notin> S" using neg assms(3) by auto
  next
    assume "0 \<in> S \<and> -1 \<notin> S"
    then show "m = 0" using assms(2) [of 0] neg ge by linarith
  qed
qed

lemma trust_scores_low: "trust_scores t = Some v \<Longrightarrow> (t = TrustDenied \<longleftrightarrow> v = -1) \<and> (t = TrustUnknown \<longleftrightarrow> v = 0)"
  by (cases t) auto

lemma Min_score_cases:
  assumes "iteration_order tk trust_scores"
  shows "aggregateTrust tk cs = TrustDenied \<longleftrightarrow> -1 \<in> trusts cs"
    "aggregateTrust tk cs = TrustUnknown \<longleftrightarrow> 0 \<in> trusts cs \<and> -1 \<notin> trusts cs"
proof -
  let ?m = "Min (insert 3 (trusts cs))"
  have sub: "trusts cs \<subseteq> {-1, 0, 1, 2, 3}" by (rule image_subsetI) (rule trust_score_range)
  have mem: "?m \<in> insert 3 (trusts cs)" by (rule Min_in) auto
  have m: "?m = -1 \<longleftrightarrow> -1 \<in> trusts cs" "?m = 0 \<longleftrightarrow> 0 \<in> trusts cs \<and> -1 \<notin> trusts cs"
    by (rule least_score [OF sub _ mem], rule Min_le, simp, simp)+
  have at: "trust_scores (aggregateTrust tk cs) = Some ?m" by (rule aggregateTrust_min [OF assms])
  from trust_scores_low [OF at] show "aggregateTrust tk cs = TrustDenied \<longleftrightarrow> -1 \<in> trusts cs"
    "aggregateTrust tk cs = TrustUnknown \<longleftrightarrow> 0 \<in> trusts cs \<and> -1 \<notin> trusts cs" unfolding m by blast+
qed

lemma Max_risk_cases:
  assumes "iteration_order rk riskOrder"
  shows "aggregateRisk rk cs \<in> {RiskHigh, RiskCritical} \<longleftrightarrow> 3 \<in> risks cs \<or> 4 \<in> risks cs"
proof -
  let ?m = "Max (insert 1 (risks cs))"
  have sub: "risks cs \<subseteq> {0, 1, 2, 3, 4}" by (rule image_subsetI) (rule risk_rank_range)
  have le: "\<forall>x \<in> risks cs. x \<le> ?m" by simp
  have mem: "?m \<in> insert 1 (risks cs)" by (rule Max_in) auto
  have at: "riskOrder (aggregateRisk rk cs) = Some ?m" by (rule aggregateRisk_max [OF assms])
  have "aggregateRisk rk cs \<in> {RiskHigh, RiskCritical} \<longleftrightarrow> ?m = 3 \<or> ?m = 4"
    using at by (cases "aggregateRisk rk cs") simp_all
  also have "\<dots> \<longleftrightarrow> 3 \<in> risks cs \<or> 4 \<in> risks cs" using sub le mem by fastforce
  finally show ?thesis .
qed

abbreviation vectors :: "Pipeline \<Rightarrow> StateVector_cp set" where
  "vectors p \<equiv> c_StateVector ` set (AllComponents p)"

lemma trust_score_low: "trust_score t = -1 \<longleftrightarrow> t = TrustDenied" "trust_score t \<in> {-1, 0} \<longleftrightarrow> t \<notin> {TrustAsserted, TrustVerified, TrustTrusted}"
  by (cases t; simp add: trust_score_def)+

lemma risk_rank_high: "risk_rank r = 3 \<longleftrightarrow> r = RiskHigh" "risk_rank r = 4 \<longleftrightarrow> r = RiskCritical"
  by (cases r; simp add: risk_rank_def)+

lemma mem_image: "x \<in> f ` A \<longleftrightarrow> (\<exists>a \<in> A. f a = x)"
  by blast

lemma trusts_low:
  "-1 \<in> trusts cs \<longleftrightarrow> TrustDenied \<in> v_Trust ` c_StateVector ` set cs"
  "0 \<notin> trusts cs \<and> -1 \<notin> trusts cs \<longleftrightarrow> v_Trust ` c_StateVector ` set cs \<subseteq> {TrustAsserted, TrustVerified, TrustTrusted}"
proof -
  show "-1 \<in> trusts cs \<longleftrightarrow> TrustDenied \<in> v_Trust ` c_StateVector ` set cs"
    unfolding image_image mem_image trust_score_low ..
  have "0 \<notin> trusts cs \<and> -1 \<notin> trusts cs \<longleftrightarrow> (\<forall>c \<in> set cs. trust_score (v_Trust (c_StateVector c)) \<notin> {-1, 0})"
    unfolding mem_image by blast
  also have "\<dots> \<longleftrightarrow> v_Trust ` c_StateVector ` set cs \<subseteq> {TrustAsserted, TrustVerified, TrustTrusted}"
    unfolding trust_score_low(2) by blast
  finally show "0 \<notin> trusts cs \<and> -1 \<notin> trusts cs \<longleftrightarrow>
      v_Trust ` c_StateVector ` set cs \<subseteq> {TrustAsserted, TrustVerified, TrustTrusted}" .
qed

lemma risks_high:
  "3 \<in> risks cs \<or> 4 \<in> risks cs \<longleftrightarrow> RiskHigh \<in> v_Risk ` c_StateVector ` set cs \<or> RiskCritical \<in> v_Risk ` c_StateVector ` set cs"
  unfolding image_image mem_image risk_rank_high ..

lemma aggregate_allows:
  assumes "iteration_order tk trust_scores" "iteration_order rk riskOrder"
  shows "checkForbiddenTuples (aggregateStateVector tk rk p True) = None \<and>
      v_Admission (aggregateStateVector tk rk p True) = AdmissionAdmitted \<longleftrightarrow> vectors_allow (vectors p)"
proof -
  let ?v = "aggregateStateVector tk rk p True" and ?cs = "AllComponents p"
  have trust: "v_Trust ?v = TrustDenied \<longleftrightarrow> TrustDenied \<in> v_Trust ` vectors p"
    "v_Trust ?v = TrustDenied \<or> v_Trust ?v = TrustUnknown \<longleftrightarrow>
       \<not> v_Trust ` vectors p \<subseteq> {TrustAsserted, TrustVerified, TrustTrusted}"
    unfolding aggregate_fields Min_score_cases [OF assms(1)] trusts_low [symmetric] by blast+
  have risk: "v_Risk ?v = RiskHigh \<or> v_Risk ?v = RiskCritical \<longleftrightarrow>
      RiskHigh \<in> v_Risk ` vectors p \<or> RiskCritical \<in> v_Risk ` vectors p"
    using Max_risk_cases [OF assms(2), of ?cs] unfolding aggregate_fields risks_high [symmetric] by blast
  have integrity: "v_Integrity ?v = IntegrityVerified \<longleftrightarrow> v_Integrity ` vectors p \<subseteq> {IntegrityVerified}"
    unfolding aggregate_fields fold_integrity_verified image_image by blast
  have life: "v_Lifecycle ?v = (if LifecycleQuarantined \<in> v_Lifecycle ` vectors p then LifecycleQuarantined
       else if LifecycleProposed \<in> v_Lifecycle ` vectors p then LifecycleProposed else LifecycleActive)"
    unfolding aggregate_fields fold_lifecycle_spec image_image by (rule refl)
  have adm: "v_Admission ?v = (if AdmissionDenied \<in> v_Admission ` vectors p then AdmissionDenied
       else if AdmissionPending \<in> v_Admission ` vectors p then AdmissionPending else AdmissionAdmitted)"
    unfolding aggregate_fields fold_admission_spec image_image by (rule refl)
  have compat: "v_Compatibility ?v = CompatibilityCompatible" by (simp add: aggregate_fields)
  have forbidden: "checkForbiddenTuples ?v = None \<longleftrightarrow> v_Trust ?v \<noteq> TrustDenied \<and> v_Admission ?v \<noteq> AdmissionDenied \<and>
      \<not> (v_Lifecycle ?v = LifecycleActive \<and> (v_Trust ?v = TrustDenied \<or> v_Trust ?v = TrustUnknown)) \<and>
      \<not> ((v_Lifecycle ?v = LifecycleQuarantined \<or> v_Lifecycle ?v = LifecycleRetired) \<and>
          (v_Admission ?v = AdmissionAdmitted \<or> v_Trust ?v = TrustTrusted \<or> v_Trust ?v = TrustVerified)) \<and>
      \<not> ((v_Risk ?v = RiskHigh \<or> v_Risk ?v = RiskCritical) \<and> v_Integrity ?v \<noteq> IntegrityVerified)"
    by (auto simp: checkForbiddenTuples_def compat)
  show ?thesis
    unfolding forbidden risk integrity life adm vectors_allow_def using trust by (simp split: if_splits)
qed

lemma aggregate_admission: "v_Admission (aggregateStateVector tk rk p b) \<noteq> AdmissionAudit"
  by (simp add: aggregate_fields fold_admission_spec)

lemma Validate_ok_iff:
  assumes "Validate_cp tk rk p = (p', report, err)"
  shows "err = None \<longleftrightarrow> composable p \<and> checkForbiddenTuples (aggregateStateVector tk rk p True) = None"
proof -
  obtain vs ce where c: "validateInterComponentCompatibility p = (vs, ce)" by fastforce
  have r: "validateRequired p = None \<longleftrightarrow> Model p \<noteq> None \<and> Tokenizer p \<noteq> None \<and> Runtime p \<noteq> None"
    by (auto simp: validateRequired_def)
  let ?F = "checkForbiddenTuples (aggregateStateVector tk rk p (ce = None))"
  have "snd (snd (Validate_cp tk rk p)) = (case validateRequired p of Some e \<Rightarrow> Some e | None \<Rightarrow>
      (case validate_components (AllComponents p) of Some e \<Rightarrow> Some e | None \<Rightarrow>
      (case ?F of Some e \<Rightarrow> Some e | None \<Rightarrow> ce)))"
    unfolding Validate_cp_def c ComputeCompositeDigest_def Let_def prod.case
    by (cases "validateRequired p"; cases "validate_components (AllComponents p)"; cases ?F) simp_all
  then have "err = None \<longleftrightarrow> validateRequired p = None \<and> validate_components (AllComponents p) = None \<and> ?F = None \<and> ce = None"
    using assms by (simp split: option.splits)
  then show ?thesis
    unfolding r composable_def validate_components_None using compatibility_iff [OF c] by (cases ce) auto
qed

lemma Validate_ok_result:
  assumes "Validate_cp tk rk p = (p', report, None)"
  shows "\<exists>r. report = Some r \<and> vr_StateVector r = aggregateStateVector tk rk p True \<and>
    p_StateVector p' = aggregateStateVector tk rk p True \<and> p_CompositeDigest p' = snd (ComputeCompositeDigest p) \<and>
    vr_CompositeDigest r = p_CompositeDigest p' \<and> Violations r = [] \<and> p_ID p' = p_ID p \<and>
    Guards p' = Guards p \<and> Runtime p' = Runtime p"
proof -
  obtain vs ce where c: "validateInterComponentCompatibility p = (vs, ce)" by fastforce
  show ?thesis
    using assms c compatibility_iff [OF c]
    by (cases ce) (auto simp: Validate_cp_def Let_def ComputeCompositeDigest_def AllComponents_def split: option.splits)
qed

lemma Execute_validated:
  assumes "Validate_cp tk rk p = (p1, report, None)" "v_Admission (aggregateStateVector tk rk p True) = AdmissionAdmitted"
    and "\<not> list_ex (guard_blocks inp) (Guards p)"
  shows "\<exists>out r. Execute tk rk now p (Some inp) = (p1, Some out, Some r, None) \<and> Data out = ''processed:'' @ Data inp \<and>
    rc_Status r = StatusSuccess \<and> PipelineID r = p_ID p \<and> rc_CompositeDigest r = snd (ComputeCompositeDigest p) \<and>
    rc_StateVector r = aggregateStateVector tk rk p True \<and> length (StageTraces r) = 5"
proof -
  have "find (guard_blocks inp) (Guards p) = None" using assms(3) by (simp add: find_None_iff list_ex_iff)
  with Validate_ok_result [OF assms(1)] assms(1,2) show ?thesis by (auto simp: Execute_def Let_def)
qed

text \<open>
  C27. \<open>Execute\<close> runs a payload exactly when the pipeline has its required slots, every
  component carries identity, digest and provenance and no forbidden state, the parts are
  compatible, the component vectors allow it (nothing quarantined, denied or pending; trust
  asserted or better everywhere unless a component is only proposed; high risk only with verified
  integrity everywhere), and no pre-execution guard blocks the payload. The receipt then carries
  the digest of exactly these components, a compatible and admitted vector, and the five stages
  in order; otherwise there is no output and no success receipt.
\<close>

theorem Execute_succeeds_iff:
  assumes "iteration_order tk trust_scores" "iteration_order rk riskOrder"
    and "Execute tk rk now p (Some inp) = (p', out, receipt, err)"
  shows "(err = None \<longleftrightarrow> composable p \<and> vectors_allow (vectors p) \<and> \<not> list_ex (guard_blocks inp) (Guards p)) \<and>
    (err = None \<longrightarrow> map_option Data out = Some (''processed:'' @ Data inp) \<and>
       (\<exists>r. receipt = Some r \<and> rc_Status r = StatusSuccess \<and> PipelineID r = p_ID p \<and>
          rc_CompositeDigest r = snd (ComputeCompositeDigest p) \<and>
          rc_StateVector r = aggregateStateVector tk rk p True \<and> v_Admission (rc_StateVector r) = AdmissionAdmitted \<and>
          length (StageTraces r) = 5)) \<and>
    (err \<noteq> None \<longrightarrow> out = None \<and> (\<forall>r. receipt = Some r \<longrightarrow> rc_Status r = StatusHalted))"
proof -
  obtain p1 report e where v: "Validate_cp tk rk p = (p1, report, e)" by (metis prod_cases3)
  note allow = aggregate_allows [OF assms(1,2), of p]
  show ?thesis
  proof (cases e)
    case (Some x)
    with Validate_ok_iff [OF v] allow assms(3) v show ?thesis by (auto simp: Execute_def Let_def)
  next
    case None
    then obtain r where r: "report = Some r" "vr_StateVector r = aggregateStateVector tk rk p True"
        "p_StateVector p1 = aggregateStateVector tk rk p True" "p_CompositeDigest p1 = snd (ComputeCompositeDigest p)"
        "p_ID p1 = p_ID p" "Guards p1 = Guards p"
      using Validate_ok_result [of tk rk p p1 report] v by blast
    have ok: "composable p" "checkForbiddenTuples (aggregateStateVector tk rk p True) = None"
      using Validate_ok_iff [OF v] None by simp_all
    show ?thesis
    proof (cases "v_Admission (aggregateStateVector tk rk p True) = AdmissionAdmitted")
      case False
      with allow r v None assms(3) aggregate_admission [of tk rk p True] show ?thesis
        by (auto simp: Execute_def Let_def)
    next
      case True
      then have va: "vectors_allow (vectors p)" using allow ok by simp
      show ?thesis
      proof (cases "list_ex (guard_blocks inp) (Guards p)")
        case False
        have v': "Validate_cp tk rk p = (p1, report, None)" using v \<open>e = None\<close> by simp
        show ?thesis using Execute_validated [OF v' True False, of now] assms(3) False va ok True by auto
      next
        case blocked: True
        then obtain g where "find (guard_blocks inp) (Guards p) = Some g"
          by (metis find_None_iff list_ex_iff not_None_eq)
        with blocked assms(3) v \<open>e = None\<close> r True show ?thesis by (auto simp: Execute_def Let_def)
      qed
    qed
  qed
qed

section \<open>A concrete pipeline\<close>

definition trust_keys :: "TrustState list" where
  "trust_keys = [TrustTrusted, TrustDenied, TrustUnknown, TrustVerified, TrustAsserted]"

definition risk_keys :: "RiskBand list" where
  "risk_keys = [RiskHigh, RiskLow, RiskCritical, RiskNormal]"

lemma trust_keys_order: "iteration_order trust_keys trust_scores"
  by (auto simp: iteration_order_def trust_keys_def elim: trust_scores.elims)

lemma risk_keys_order: "iteration_order risk_keys riskOrder"
  by (auto simp: iteration_order_def risk_keys_def elim: riskOrder.elims)

definition sample_vector :: "LifecycleState_cp \<Rightarrow> TrustState \<Rightarrow> AdmissionDecision \<Rightarrow> StateVector_cp" where
  "sample_vector l t a = \<lparr>v_Lifecycle = l, v_Trust = t, v_Risk = RiskNormal, v_Admission = a,
     v_Compatibility = CompatibilityCompatible, v_Integrity = IntegrityVerified\<rparr>"

definition sample_component :: "ComponentKind \<Rightarrow> ExecutionStage \<Rightarrow> StateVector_cp \<Rightarrow> Component" where
  "sample_component k s v =
     \<lparr>c_Identity = \<lparr>id_ID = ''id'', id_Name = ''name'', id_Kind = k\<rparr>, c_Version = ''1'',
      c_Digest = ''sha256:'' @ replicate 64 (CHR ''a''),
      c_Compatibility = \<lparr>Architecture = ''llama'', BaseModelDigest = '''', SupportedRuntimes = [],
        SupportedFormats = [], InputDimension = 0, OutputDimension = 0, TargetModules = [], Stage = s\<rparr>,
      c_Provenance = \<lparr>SourceURI = ''oci'', Publisher = ''pub'', SignerIdentity = '''', SupplyChainLevel = ''''\<rparr>,
      c_Admission = \<lparr>ad_Decision = v_Admission v, PolicyRef = '''', ReceiptDigest = '''', EvaluatedAtUnix = 0\<rparr>,
      c_Lifecycle = \<lparr>lr_State = v_Lifecycle v, lr_Phase = '''', UpdatedAtUnix = 0\<rparr>,
      c_Evidence = \<lparr>AttestationURI = '''', SignatureDigest = '''', SBOMDigest = '''', ev_Integrity = v_Integrity v\<rparr>,
      c_StateVector = v\<rparr>"

definition sample_pipeline :: "StateVector_cp \<Rightarrow> Pipeline" where
  "sample_pipeline v = attach_all (NewPipeline ''p'' ''pipe'' ''1'')
     [Attach KindModel (sample_component KindModel StageInference v),
      Attach KindTokenizer (sample_component KindTokenizer StageTokenize (sample_vector LifecycleActive TrustTrusted AdmissionAdmitted)),
      Attach KindRuntime (sample_component KindRuntime StageInference (sample_vector LifecycleActive TrustTrusted AdmissionAdmitted)),
      Attach KindGuard (sample_component KindGuard StagePreExecution (sample_vector LifecycleActive TrustTrusted AdmissionAdmitted))]"

definition sample_payload :: "string \<Rightarrow> Payload" where
  "sample_payload d = \<lparr>Data = d, pl_Metadata = Map.empty, Tokens = [], Attributes = Map.empty\<rparr>"

lemma sample_digest: "isValidDigest (''sha256:'' @ replicate 64 (CHR ''a''))"
  by (simp add: isValidDigest_def hex_decodable_def is_hex_char_def list_all_iff)

lemma sample_fields:
  "Guards (sample_pipeline v) = [sample_component KindGuard StagePreExecution (sample_vector LifecycleActive TrustTrusted AdmissionAdmitted)]"
  "vectors (sample_pipeline v) = {v, sample_vector LifecycleActive TrustTrusted AdmissionAdmitted}"
  by (auto simp: sample_pipeline_def sample_component_def NewPipeline_def SetModel_def SetTokenizer_def SetRuntime_def
      AddGuard_def AllComponents_def slot_def)

lemma sample_composable:
  assumes "checkForbiddenTuples v = None"
  shows "composable (sample_pipeline v)"
proof -
  have "validateComponentIdentityAndDigest (sample_component k s w) = None" for k s w
    using sample_digest by (simp add: validateComponentIdentityAndDigest_def sample_component_def)
  moreover have "checkForbiddenTuples (sample_vector LifecycleActive TrustTrusted AdmissionAdmitted) = None"
    by (simp add: checkForbiddenTuples_def sample_vector_def)
  moreover have "c_StateVector (sample_component k s w) = w" for k s w by (simp add: sample_component_def)
  ultimately have ok: "component_ok (sample_component k s v)"
      "component_ok (sample_component k s (sample_vector LifecycleActive TrustTrusted AdmissionAdmitted))" for k s
    using assms by (simp_all add: component_ok_def)
  have kind: "id_Kind (c_Identity (sample_component k s w)) = k" "Architecture (c_Compatibility (sample_component k s w)) = ''llama''"
      "Stage (c_Compatibility (sample_component k s w)) = s" for k s w by (simp_all add: sample_component_def)
  show ?thesis
    using ok kind
    by (simp add: composable_def parts_compatible_def same_architecture_def sample_pipeline_def NewPipeline_def SetModel_def
        SetTokenizer_def SetRuntime_def AddGuard_def AllComponents_def slot_def)
qed

theorem Execute_succeeds_iff_witness:
  "fst (snd (Execute trust_keys risk_keys 9
     (sample_pipeline (sample_vector LifecycleActive TrustVerified AdmissionAdmitted)) (Some (sample_payload ''MALICIOUS'')))) = None \<and>
   map_option Data (fst (snd (Execute trust_keys risk_keys 9
     (sample_pipeline (sample_vector LifecycleActive TrustVerified AdmissionAdmitted)) (Some (sample_payload ''hi'')))))
     = Some ''processed:hi''"
proof -
  let ?v = "sample_vector LifecycleActive TrustVerified AdmissionAdmitted"
  obtain p' out rc err where run: "Execute trust_keys risk_keys 9 (sample_pipeline ?v) (Some (sample_payload ''hi'')) = (p', out, rc, err)"
    by (metis prod_cases4)
  obtain p1 out1 rc1 err1 where run1:
      "Execute trust_keys risk_keys 9 (sample_pipeline ?v) (Some (sample_payload ''MALICIOUS'')) = (p1, out1, rc1, err1)"
    by (metis prod_cases4)
  have ok: "composable (sample_pipeline ?v)"
    by (rule sample_composable) (simp add: checkForbiddenTuples_def sample_vector_def)
  have va: "vectors_allow (vectors (sample_pipeline ?v))"
    unfolding sample_fields by (simp add: vectors_allow_def sample_vector_def)
  have g: "\<not> list_ex (guard_blocks (sample_payload ''hi'')) (Guards (sample_pipeline ?v))"
    "list_ex (guard_blocks (sample_payload ''MALICIOUS'')) (Guards (sample_pipeline ?v))"
    by (simp_all add: sample_fields guard_blocks_def sample_payload_def sample_component_def str_contains_def)
  note run_hi = Execute_succeeds_iff [OF trust_keys_order risk_keys_order run]
    and run_bad = Execute_succeeds_iff [OF trust_keys_order risk_keys_order run1]
  have "err = None" using run_hi ok va g(1) by blast
  then have "map_option Data out = Some (''processed:'' @ Data (sample_payload ''hi''))" using run_hi by blast
  then have "map_option Data out = Some ''processed:hi''" by (simp add: sample_payload_def)
  moreover have "err1 \<noteq> None" using run_bad g(2) by blast
  then have "out1 = None" using run_bad by blast
  ultimately show ?thesis by (simp add: run run1)
qed

text \<open>
  The aggregation drops two states: a pipeline whose model is retired (and admitted for
  audit only) passes \<open>Validate\<close>, executes, and its receipt says active and admitted.
\<close>

theorem retired_component_executes:
  "\<exists>p' out r. Execute trust_keys risk_keys now
       (sample_pipeline (sample_vector LifecycleRetired TrustAsserted AdmissionAudit)) (Some (sample_payload ''hi''))
     = (p', Some out, Some r, None) \<and>
     v_Lifecycle (rc_StateVector r) = LifecycleActive \<and> v_Admission (rc_StateVector r) = AdmissionAdmitted"
proof -
  let ?p = "sample_pipeline (sample_vector LifecycleRetired TrustAsserted AdmissionAudit)"
  obtain p1 report e where v: "Validate_cp trust_keys risk_keys ?p = (p1, report, e)" by (metis prod_cases3)
  have ok: "composable ?p" by (rule sample_composable) (simp add: checkForbiddenTuples_def sample_vector_def)
  have "vectors_allow (vectors ?p)" unfolding sample_fields by (simp add: vectors_allow_def sample_vector_def)
  then have allow: "checkForbiddenTuples (aggregateStateVector trust_keys risk_keys ?p True) = None"
      "v_Admission (aggregateStateVector trust_keys risk_keys ?p True) = AdmissionAdmitted"
    using aggregate_allows [OF trust_keys_order risk_keys_order, of ?p] by simp_all
  have life: "v_Lifecycle (aggregateStateVector trust_keys risk_keys ?p True) = LifecycleActive"
    unfolding aggregate_fields fold_lifecycle_spec image_image [of v_Lifecycle c_StateVector, symmetric] sample_fields
    by (simp add: sample_vector_def)
  have g: "\<not> list_ex (guard_blocks (sample_payload ''hi'')) (Guards ?p)"
    by (simp add: sample_fields guard_blocks_def sample_payload_def sample_component_def str_contains_def)
  have "e = None" using Validate_ok_iff [OF v] ok allow by simp
  with v Execute_validated [OF _ allow(2) g, of p1 report now] life allow(2) show ?thesis by auto
qed

section \<open>The composite digest\<close>

lemma sort_mset: "mset xs = mset ys \<Longrightarrow> sort xs = sort (ys :: 'a :: linorder list)"
  by (metis mset_sort properties_for_sort sorted_sort)

text \<open>
  C28. The composite digest and the aggregated trust, risk, lifecycle and admission do not depend
  on the order in which components were attached: two pipelines with the same identity and the
  same multiset of components agree on them, whatever orders the runtime iterates the maps in. The
  digest is always a valid pinned digest.
\<close>

theorem composite_order_independent:
  assumes "mset (AllComponents p) = mset (AllComponents q)" "p_ID p = p_ID q" "p_Name p = p_Name q" "p_Version p = p_Version q"
    and "iteration_order tk trust_scores" "iteration_order tk' trust_scores"
    and "iteration_order rk riskOrder" "iteration_order rk' riskOrder"
  shows "snd (ComputeCompositeDigest p) = snd (ComputeCompositeDigest q) \<and>
    isValidDigest (snd (ComputeCompositeDigest p)) \<and>
    (let v = aggregateStateVector tk rk p b; w = aggregateStateVector tk' rk' q b in
      v_Trust v = v_Trust w \<and> v_Risk v = v_Risk w \<and> v_Lifecycle v = v_Lifecycle w \<and> v_Admission v = v_Admission w)"
proof -
  have "sort (map digest_entry (AllComponents p)) = sort (map digest_entry (AllComponents q))"
    using assms(1) by (intro sort_mset) simp
  then have d: "snd (ComputeCompositeDigest p) = snd (ComputeCompositeDigest q)"
    by (simp only: ComputeCompositeDigest_def Let_def snd_conv assms(2-4))
  have set: "set (AllComponents p) = set (AllComponents q)" using assms(1) by (rule mset_eq_setD)
  have t: "aggregateTrust tk (AllComponents p) = aggregateTrust tk' (AllComponents q)"
    by (rule trust_scores_inj [OF aggregateTrust_min [OF assms(5)]]) (simp only: set aggregateTrust_min [OF assms(6)])
  have r: "aggregateRisk rk (AllComponents p) = aggregateRisk rk' (AllComponents q)"
    by (rule riskOrder_inj [OF aggregateRisk_max [OF assms(7)]]) (simp only: set aggregateRisk_max [OF assms(8)])
  have "prefix ''sha256:'' (''sha256:'' @ x)" for x :: string by simp
  then have v: "isValidDigest (snd (ComputeCompositeDigest p))"
    unfolding ComputeCompositeDigest_def Let_def snd_conv isValidDigest_def sha.prefixed_length
    by (simp add: sha.hash_decodable)
  show ?thesis
    unfolding Let_def aggregate_fields fold_lifecycle_spec fold_admission_spec set t r using d v by blast
qed

theorem composite_order_independent_witness:
  "let a = sample_component KindPlugin StageUnspecified (sample_vector LifecycleActive TrustTrusted AdmissionAdmitted);
       b = sample_component KindPlugin StageUnspecified (sample_vector LifecycleActive TrustVerified AdmissionAdmitted)
   in snd (ComputeCompositeDigest (attach_all (NewPipeline ''p'' ''n'' ''1'') [Attach KindPlugin a, Attach KindPlugin b])) =
      snd (ComputeCompositeDigest (attach_all (NewPipeline ''p'' ''n'' ''1'') [Attach KindPlugin b, Attach KindPlugin a]))"
  unfolding Let_def
  by (rule conjunct1 [OF composite_order_independent [OF _ _ _ _ trust_keys_order trust_keys_order risk_keys_order risk_keys_order]])
    (simp_all add: AddPlugin_def NewPipeline_def AllComponents_def slot_def sample_component_def)

end
