(* ===== verification/Base64.thy ===== *)
theory Base64
  imports Prelude
begin

text \<open>
  The standard base64 encoding of \<open>encoding/base64\<close> (\<open>StdEncoding\<close>), with which the code writes
  and reads signatures: groups of three bytes become four characters, the last group is
  padded, and decoding skips line breaks and refuses everything else that is not an encoding.
  The locale \<open>text_codec\<close> states what the callers rely on.
\<close>

definition b64_char :: "nat \<Rightarrow> char" where
  "b64_char n = char_of (if n < 26 then 65 + n else if n < 52 then 71 + n else if n < 62 then n - 4
     else if n = 62 then 43 else 47)"

definition b64_val :: "char \<Rightarrow> nat option" where
  "b64_val c = (let n = of_char c :: nat in
     if 65 \<le> n \<and> n \<le> 90 then Some (n - 65) else if 97 \<le> n \<and> n \<le> 122 then Some (n - 71)
     else if 48 \<le> n \<and> n \<le> 57 then Some (n + 4) else if n = 43 then Some 62
     else if n = 47 then Some 63 else None)"

definition b64_pad :: char where
  "b64_pad = CHR ''=''"

fun b64_groups :: "nat list \<Rightarrow> string" where
  "b64_groups [] = []"
| "b64_groups [a] = [b64_char (a div 4), b64_char (a mod 4 * 16), b64_pad, b64_pad]"
| "b64_groups [a, b] = [b64_char (a div 4), b64_char (a mod 4 * 16 + b div 16), b64_char (b mod 16 * 4), b64_pad]"
| "b64_groups (a # b # c # r) = b64_char (a div 4) # b64_char (a mod 4 * 16 + b div 16) #
     b64_char (b mod 16 * 4 + c div 64) # b64_char (c mod 64) # b64_groups r"

definition EncodeToString :: "string \<Rightarrow> string" where
  "EncodeToString s = b64_groups (map of_char s)"

definition b64_last :: "nat option \<Rightarrow> nat option \<Rightarrow> nat option \<Rightarrow> nat list option" where
  "b64_last w x y = (case (w, x) of
       (Some w, Some x) \<Rightarrow> (case y of None \<Rightarrow> Some [w * 4 + x div 16]
         | Some y \<Rightarrow> Some [w * 4 + x div 16, x mod 16 * 16 + y div 4])
     | _ \<Rightarrow> None)"

definition b64_quad :: "char \<Rightarrow> char \<Rightarrow> char \<Rightarrow> char \<Rightarrow> bool \<Rightarrow> nat list option \<Rightarrow> nat list option" where
  "b64_quad a b c d is_last rest =
     (if d = b64_pad then
        (if \<not> is_last then None
         else if c = b64_pad then b64_last (b64_val a) (b64_val b) None
         else if b64_val c = None then None
         else b64_last (b64_val a) (b64_val b) (b64_val c))
      else case (b64_val a, b64_val b, b64_val c, b64_val d) of
        (Some w, Some x, Some y, Some z) \<Rightarrow>
          map_option (\<lambda>bs. (w * 4 + x div 16) # (x mod 16 * 16 + y div 4) # (y mod 4 * 64 + z) # bs) rest
      | _ \<Rightarrow> None)"

fun b64_ungroup :: "string \<Rightarrow> nat list option" where
  "b64_ungroup [] = Some []"
| "b64_ungroup [_] = None"
| "b64_ungroup [_, _] = None"
| "b64_ungroup [_, _, _] = None"
| "b64_ungroup (a # b # c # d # r) = b64_quad a b c d (r = []) (b64_ungroup r)"

definition DecodeString :: "string \<Rightarrow> string option" where
  "DecodeString s = map_option (map char_of)
     (b64_ungroup (filter (\<lambda>c. of_char c \<noteq> (10 :: nat) \<and> of_char c \<noteq> (13 :: nat)) s))"

section \<open>What the callers rely on\<close>

locale text_codec =
  fixes encode :: "string \<Rightarrow> string" and decode :: "string \<Rightarrow> string option"
  assumes decode_encode: "decode (encode s) = Some s"
    and encode_empty: "encode s = [] \<longleftrightarrow> s = []"
begin

lemma encode_inject: "encode s = encode t \<longleftrightarrow> s = t"
  by (metis decode_encode option.inject)

end

lemma b64_code: "n < 64 \<Longrightarrow> of_char (b64_char n) = (if n < 26 then 65 + n else if n < 52 then 71 + n
    else if n < 62 then n - 4 else if n = 62 then 43 else 47 :: nat)"
  by (simp add: b64_char_def)

lemma b64_digit [simp]:
  assumes "n < 64"
  shows "b64_val (b64_char n) = Some n" "b64_char n \<noteq> b64_pad" "of_char (b64_char n) \<noteq> (10 :: nat)"
    "of_char (b64_char n) \<noteq> (13 :: nat)"
proof -
  consider "n < 26" | "26 \<le> n" "n < 52" | "52 \<le> n" "n < 62" | "n = 62" | "n = 63" using assms by linarith
  then have "b64_val (b64_char n) = Some n \<and> of_char (b64_char n) \<notin> {10, 13, 61 :: nat}"
    by cases (simp_all add: b64_val_def b64_code Let_def, linarith+)
  then have "b64_val (b64_char n) = Some n" "of_char (b64_char n) \<notin> {10, 13, 61 :: nat}" by simp_all
  moreover have "of_char b64_pad = (61 :: nat)" by (simp add: b64_pad_def)
  ultimately show "b64_val (b64_char n) = Some n" "b64_char n \<noteq> b64_pad" "of_char (b64_char n) \<noteq> (10 :: nat)" "of_char (b64_char n) \<noteq> (13 :: nat)"
    by auto
qed

lemma b64_pad_plain [simp]: "of_char b64_pad \<noteq> (10 :: nat)" "of_char b64_pad \<noteq> (13 :: nat)"
  by (simp_all add: b64_pad_def)

lemma groups_bits:
  fixes a b c :: nat
  assumes "a < 256" "b < 256" "c < 256"
  shows "a div 4 < 64" "a mod 4 * 16 < 64" "a mod 4 * 16 + b div 16 < 64" "b mod 16 * 4 < 64"
    "b mod 16 * 4 + c div 64 < 64" "c mod 64 < 64"
proof -
  have "a mod 4 < 4" "b mod 16 < 16" "b div 16 < 16" "c div 64 < 4" using assms by (simp_all add: less_mult_imp_div_less)
  then show "a div 4 < 64" "a mod 4 * 16 < 64" "a mod 4 * 16 + b div 16 < 64" "b mod 16 * 4 < 64"
    "b mod 16 * 4 + c div 64 < 64" "c mod 64 < 64"
    using assms by (simp_all add: less_mult_imp_div_less)
qed

lemma unpack: "x < m \<Longrightarrow> (y * m + x) div m = y" "x < m \<Longrightarrow> (y * m + x) mod m = x" for x y m :: nat
  by simp_all

lemma groups_bytes:
  fixes a b c :: nat
  assumes "b < 256" "c < 256"
  shows "a div 4 * 4 + (a mod 4 * 16 + b div 16) div 16 = a" "a div 4 * 4 + (a mod 4 * 16) div 16 = a"
    "(a mod 4 * 16 + b div 16) mod 16 * 16 + (b mod 16 * 4 + c div 64) div 4 = b"
    "(a mod 4 * 16 + b div 16) mod 16 * 16 + (b mod 16 * 4) div 4 = b"
    "(b mod 16 * 4 + c div 64) mod 4 * 64 + c mod 64 = c"
proof -
  have b: "b div 16 < 16" and c: "c div 64 < 4" using assms by (simp_all add: less_mult_imp_div_less)
  show "a div 4 * 4 + (a mod 4 * 16 + b div 16) div 16 = a" "a div 4 * 4 + (a mod 4 * 16) div 16 = a"
    unfolding unpack(1) [OF b] by simp_all
  show "(a mod 4 * 16 + b div 16) mod 16 * 16 + (b mod 16 * 4 + c div 64) div 4 = b"
    "(a mod 4 * 16 + b div 16) mod 16 * 16 + (b mod 16 * 4) div 4 = b"
    unfolding unpack(2) [OF b] unpack(1) [OF c] by simp_all
  show "(b mod 16 * 4 + c div 64) mod 4 * 64 + c mod 64 = c" unfolding unpack(2) [OF c] by simp
qed

lemma ungroup_groups: "list_all (\<lambda>b. b < 256) bs \<Longrightarrow> b64_ungroup (b64_groups bs) = Some bs"
proof (induction bs rule: b64_groups.induct)
  case (2 a)
  then show ?case using groups_bits [of a 0 0] groups_bytes(1-4) [where a = a and b = 0 and c = 0] by (simp add: b64_quad_def b64_last_def)
next
  case (3 a b)
  then show ?case using groups_bits [of a b 0] groups_bytes(1-4) [where a = a and b = b and c = 0] by (simp add: b64_quad_def b64_last_def)
next
  case (4 a b c r)
  then show ?case using groups_bits [of a b c] groups_bytes(1-4) [where a = a and b = b and c = c] groups_bytes(5) [of b c] by (simp add: b64_quad_def)
qed simp

lemma groups_plain:
  "list_all (\<lambda>b. b < 256) bs \<Longrightarrow> list_all (\<lambda>c. of_char c \<noteq> (10 :: nat) \<and> of_char c \<noteq> (13 :: nat)) (b64_groups bs)"
proof (induction bs rule: b64_groups.induct)
  case (2 a)
  then show ?case using groups_bits [of a 0 0] by simp
next
  case (3 a b)
  then show ?case using groups_bits [of a b 0] by simp
next
  case (4 a b c r)
  then show ?case using groups_bits [of a b c] by simp
qed simp

lemma groups_Nil: "b64_groups bs = [] \<longleftrightarrow> bs = []"
  by (cases bs rule: b64_groups.cases) simp_all

lemma byte_codes: "list_all (\<lambda>b. b < (256 :: nat)) (map of_char (s :: string))"
  by (simp add: list_all_iff)

lemma decode_encode_string: "DecodeString (EncodeToString s) = Some s"
proof -
  have "filter (\<lambda>c. of_char c \<noteq> (10 :: nat) \<and> of_char c \<noteq> (13 :: nat)) (EncodeToString s) = EncodeToString s"
    unfolding EncodeToString_def by (rule filter_True) (use groups_plain [OF byte_codes, of s] in \<open>simp only: list_all_iff\<close>)
  then have "DecodeString (EncodeToString s) = map_option (map char_of) (b64_ungroup (b64_groups (map of_char s)))"
    unfolding DecodeString_def by (simp only: EncodeToString_def)
  also have "\<dots> = Some (map char_of (map of_char s :: nat list))"
    unfolding ungroup_groups [OF byte_codes] by simp
  finally show ?thesis by (simp add: comp_def)
qed

interpretation base64: text_codec EncodeToString DecodeString
  by unfold_locales (rule decode_encode_string, simp only: EncodeToString_def groups_Nil list.map_disc_iff)

end
