(* ===== verification/Admission.thy ===== *)
theory Admission
  imports Sha256 Base64
begin

text \<open>
  The four-stage admission engine of \<open>src/internal/validation/admission\<close>: the stage inputs and
  decisions (\<open>types.go\<close>), the resolution of vector states into a disposition, the stages, the
  pipeline with its short circuit, the overall disposition, and the audit receipts with their
  signatures (\<open>admission.go\<close>).

  What a stage reads from its surroundings is the argument \<open>io\<close>: whether \<open>ctx.Err()\<close> is
  set, and the two clock readings of its receipt. \<open>json.Marshal\<close>, \<open>time.Format\<close>,
  \<open>ed25519.Sign\<close> and \<open>ed25519.Verify\<close> are arguments, the first three in the record
  \<open>admission_lib\<close>; a key is the string of its bytes.
\<close>

section \<open>Types\<close>

datatype Disposition = DispositionAdmit | DispositionAdmitWithObligations | DispositionSafeHold
  | DispositionEscalate | DispositionDeny | DispositionQuarantine

datatype StageName = StageData | StageModel | StageDeployment | StageRequest | StageNameOther string

datatype VectorState = StateVerified | StateCompliant | StateConditional | StateUnknown | StatePending
  | StateExhausted | StateDegraded | StateIncompatible | StateFlagged | StateViolated | StateQuarantined
  | VectorOther string

datatype admission_error = ErrInvalidInput | ErrContextCanceled | ErrReceiptGeneration | ErrReceiptSignature
  | ErrReceiptVerification

fun VectorState_string :: "VectorState \<Rightarrow> string" where
  "VectorState_string StateVerified = ''VERIFIED''"
| "VectorState_string StateCompliant = ''COMPLIANT''"
| "VectorState_string StateConditional = ''CONDITIONAL''"
| "VectorState_string StateUnknown = ''UNKNOWN''"
| "VectorState_string StatePending = ''PENDING''"
| "VectorState_string StateExhausted = ''EXHAUSTED''"
| "VectorState_string StateDegraded = ''DEGRADED''"
| "VectorState_string StateIncompatible = ''INCOMPATIBLE''"
| "VectorState_string StateFlagged = ''FLAGGED''"
| "VectorState_string StateViolated = ''VIOLATED''"
| "VectorState_string StateQuarantined = ''QUARANTINED''"
| "VectorState_string (VectorOther s) = s"

fun StageName_string :: "StageName \<Rightarrow> string" where
  "StageName_string StageData = ''Data''"
| "StageName_string StageModel = ''Model''"
| "StageName_string StageDeployment = ''Deployment''"
| "StageName_string StageRequest = ''Request''"
| "StageName_string (StageNameOther s) = s"

record Obligation =
  ob_ID :: string
  ob_Type :: string
  ob_Description :: string
  Parameters :: "string \<rightharpoonup> string"

record ProducerBinding =
  SPIFFEID :: string
  KeyDigest :: string

record AuditReceipt =
  ReceiptID :: string
  ar_Stage :: StageName
  ar_Disposition :: Disposition
  ar_SubjectDigest :: string
  ar_Producer :: ProducerBinding
  ar_ProducedAt :: string
  ar_Digest :: string
  Signature :: string

record Decision_adm =
  de_Stage :: StageName
  de_Disposition :: Disposition
  de_Reason :: string
  VectorStates :: "string \<rightharpoonup> string"
  de_Obligations :: "Obligation list"
  Receipt :: AuditReceipt

record PipelineDecision =
  OverallDisposition :: Disposition
  StageDecisions :: "Decision_adm list"
  pd_Obligations :: "Obligation list"
  AuditReceipts :: "AuditReceipt list"

record DataAdmissionInput =
  da_SubjectID :: string
  da_SubjectDigest :: string
  ProvenanceState :: VectorState
  LicensingState :: VectorState
  PrivacyState :: VectorState
  da_IntegrityState :: VectorState
  da_Metadata :: "string \<rightharpoonup> string"

record ModelAdmissionInput =
  mo_SubjectID :: string
  mo_SubjectDigest :: string
  ArtifactIntegrityState :: VectorState
  SBOMState :: VectorState
  SignatureState :: VectorState
  AttestationState :: VectorState
  LicenseState :: VectorState
  mo_Metadata :: "string \<rightharpoonup> string"

record DeploymentAdmissionInput =
  dp_SubjectID :: string
  dp_SubjectDigest :: string
  RuntimeCompatibilityState :: VectorState
  AcceleratorTopologyState :: VectorState
  CapacityState :: VectorState
  PolicyState :: VectorState
  AirGapProfileState :: VectorState
  dp_Metadata :: "string \<rightharpoonup> string"

record RequestAdmissionInput =
  rq_SubjectID :: string
  rq_SubjectDigest :: string
  IdentityTenantState :: VectorState
  CapabilityLeaseState :: VectorState
  QuotaBudgetState :: VectorState
  RiskState :: VectorState
  rq_Metadata :: "string \<rightharpoonup> string"

text \<open>The claims over which the digest of a receipt is taken.\<close>

record receiptClaims =
  cl_ReceiptID :: string
  cl_Stage :: StageName
  cl_Disposition :: Disposition
  cl_SubjectDigest :: string
  cl_Producer :: ProducerBinding
  cl_ProducedAt :: string
  cl_VectorStates :: "string \<rightharpoonup> string"

record admission_lib =
  marshal_claims :: "receiptClaims \<Rightarrow> string option"
  format_rfc3339 :: "gotime \<Rightarrow> string"
  ed25519_sign :: "string \<Rightarrow> string \<Rightarrow> string"

record Engine =
  en_producer :: ProducerBinding
  privateKey :: string

text \<open>A stage's surroundings: \<open>ctx.Err() != nil\<close>, and the readings of the clock.\<close>

type_synonym stage_io = "bool \<times> gotime \<times> gotime"
type_synonym decided = "admission_error + Decision_adm"

section \<open>The engine\<close>

type_synonym EngineOption = "Engine \<Rightarrow> Engine"

definition WithPrivateKey :: "string \<Rightarrow> EngineOption" where
  "WithPrivateKey key = (\<lambda>e. e\<lparr>privateKey := key\<rparr>)"

definition NewEngine :: "ProducerBinding \<Rightarrow> EngineOption list \<Rightarrow> Engine" where
  "NewEngine producer opts = fold (\<lambda>opt e. opt e) opts \<lparr>en_producer = producer, privateKey = ''''\<rparr>"

section \<open>Resolution of vector states\<close>

text \<open>Indexing the map with a missing key gives the empty string.\<close>

definition state_at :: "(string \<rightharpoonup> VectorState) \<Rightarrow> string \<Rightarrow> VectorState" where
  "state_at states k = (case states k of Some v \<Rightarrow> v | None \<Rightarrow> VectorOther '''')"

definition resolveVectorStates :: "string list \<Rightarrow> (string \<rightharpoonup> VectorState) \<Rightarrow> Disposition \<times> string" where
  "resolveVectorStates orderedKeys states =
     (let st = state_at states in
      case find (\<lambda>k. st k = StateQuarantined) orderedKeys of
        Some k \<Rightarrow> (DispositionQuarantine, k @ '' dimension is quarantined'')
      | None \<Rightarrow> (case find (\<lambda>k. st k = StateViolated \<or> st k = StateIncompatible) orderedKeys of
        Some k \<Rightarrow> (DispositionDeny, k @ '' dimension violated admission policy'')
      | None \<Rightarrow> (case find (\<lambda>k. st k = StateUnknown \<or> st k = StateFlagged) orderedKeys of
        Some k \<Rightarrow> (DispositionEscalate, k @ '' dimension requires escalation'')
      | None \<Rightarrow> (case find (\<lambda>k. st k = StatePending \<or> st k = StateExhausted) orderedKeys of
        Some k \<Rightarrow> (DispositionSafeHold, k @ '' dimension placed on safe-hold'')
      | None \<Rightarrow> (case find (\<lambda>k. st k = StateConditional \<or> st k = StateDegraded) orderedKeys of
        Some k \<Rightarrow> (DispositionAdmitWithObligations, k @ '' dimension admitted with obligations'')
      | None \<Rightarrow> (DispositionAdmit, ''all stage dimensions verified and compliant''))))))"

section \<open>Receipts and decisions\<close>

definition createReceipt :: "admission_lib \<Rightarrow> Engine \<Rightarrow> stage_io \<Rightarrow> StageName \<Rightarrow> Disposition \<Rightarrow> string \<Rightarrow>
    (string \<rightharpoonup> string) \<Rightarrow> admission_error + AuditReceipt" where
  "createReceipt lib e io stage disp subjectDigest states =
     (let (_, clock1, clock2) = io;
          now = format_rfc3339 lib clock1;
          subjectDigest = (if subjectDigest = '''' then ''sha256:'' @ replicate 64 (CHR ''0'') else subjectDigest);
          receiptID = ''rcpt-'' @ ascii_lower (StageName_string stage) @ ''-'' @ show_int (unix_nano clock2);
          claims = \<lparr>cl_ReceiptID = receiptID, cl_Stage = stage, cl_Disposition = disp,
                    cl_SubjectDigest = subjectDigest, cl_Producer = en_producer e, cl_ProducedAt = now,
                    cl_VectorStates = states\<rparr>
      in case marshal_claims lib claims of
           None \<Rightarrow> Inl ErrReceiptGeneration
         | Some payload \<Rightarrow>
           (let digest = ''sha256:'' @ sha256_hex payload;
                receipt = \<lparr>ReceiptID = receiptID, ar_Stage = stage, ar_Disposition = disp,
                           ar_SubjectDigest = subjectDigest, ar_Producer = en_producer e, ar_ProducedAt = now,
                           ar_Digest = digest, Signature = ''''\<rparr>
            in Inr (if length (privateKey e) = 64
                    then receipt\<lparr>Signature := EncodeToString (ed25519_sign lib (privateKey e) digest)\<rparr>
                    else receipt)))"

definition VerifyReceipt :: "(string \<Rightarrow> string \<Rightarrow> string \<Rightarrow> bool) \<Rightarrow> AuditReceipt \<Rightarrow> string \<Rightarrow> admission_error option" where
  "VerifyReceipt verify receipt publicKey =
     (if ReceiptID receipt = '''' \<or> ar_Stage receipt = StageNameOther '''' \<or> ar_Digest receipt = ''''
        then Some ErrReceiptVerification
      else if length publicKey \<noteq> 32 then Some ErrReceiptVerification
      else if Signature receipt = '''' then Some ErrReceiptVerification
      else case DecodeString (Signature receipt) of
             None \<Rightarrow> Some ErrReceiptSignature
           | Some sig \<Rightarrow> (if \<not> verify publicKey (ar_Digest receipt) sig then Some ErrReceiptSignature else None))"

definition buildDecision :: "admission_lib \<Rightarrow> Engine \<Rightarrow> stage_io \<Rightarrow> StageName \<Rightarrow> Disposition \<Rightarrow> string \<Rightarrow> string \<Rightarrow>
    (string \<rightharpoonup> VectorState) \<Rightarrow> Obligation list \<Rightarrow> decided" where
  "buildDecision lib e io stage disp reason subjectDigest states obls =
     (let strStates = (\<lambda>k. map_option VectorState_string (states k))
      in case createReceipt lib e io stage disp subjectDigest strStates of
           Inl err \<Rightarrow> Inl err
         | Inr receipt \<Rightarrow> Inr \<lparr>de_Stage = stage, de_Disposition = disp, de_Reason = reason,
             VectorStates = strStates, de_Obligations = obls, Receipt = receipt\<rparr>)"

section \<open>Validation and obligations of the stages\<close>

definition validateDataInput :: "DataAdmissionInput \<Rightarrow> admission_error option" where
  "validateDataInput inp =
     (if da_SubjectID inp = '''' then Some ErrInvalidInput
      else if da_IntegrityState inp = VectorOther '''' \<or>
          ProvenanceState inp = VectorOther '''' \<or>
          LicensingState inp = VectorOther '''' \<or>
          PrivacyState inp = VectorOther ''''
        then Some ErrInvalidInput
      else None)"

definition validateModelInput :: "ModelAdmissionInput \<Rightarrow> admission_error option" where
  "validateModelInput inp =
     (if mo_SubjectID inp = '''' then Some ErrInvalidInput
      else if ArtifactIntegrityState inp = VectorOther '''' \<or>
          SBOMState inp = VectorOther '''' \<or>
          SignatureState inp = VectorOther '''' \<or>
          AttestationState inp = VectorOther '''' \<or>
          LicenseState inp = VectorOther ''''
        then Some ErrInvalidInput
      else None)"

definition validateDeploymentInput :: "DeploymentAdmissionInput \<Rightarrow> admission_error option" where
  "validateDeploymentInput inp =
     (if dp_SubjectID inp = '''' then Some ErrInvalidInput
      else if RuntimeCompatibilityState inp = VectorOther '''' \<or>
          AcceleratorTopologyState inp = VectorOther '''' \<or>
          CapacityState inp = VectorOther '''' \<or>
          PolicyState inp = VectorOther '''' \<or>
          AirGapProfileState inp = VectorOther ''''
        then Some ErrInvalidInput
      else None)"

definition validateRequestInput :: "RequestAdmissionInput \<Rightarrow> admission_error option" where
  "validateRequestInput inp =
     (if rq_SubjectID inp = '''' then Some ErrInvalidInput
      else if IdentityTenantState inp = VectorOther '''' \<or>
          CapabilityLeaseState inp = VectorOther '''' \<or>
          QuotaBudgetState inp = VectorOther '''' \<or>
          RiskState inp = VectorOther ''''
        then Some ErrInvalidInput
      else None)"

definition obligation :: "string \<Rightarrow> string \<Rightarrow> string \<Rightarrow> Obligation" where
  "obligation i t d = \<lparr>ob_ID = i, ob_Type = t, ob_Description = d, Parameters = Map.empty\<rparr>"

definition dataObligations :: "DataAdmissionInput \<Rightarrow> Obligation list" where
  "dataObligations inp =
     (if LicensingState inp = StateConditional
      then [obligation ''obl-data-attribution'' ''data.licensing.attribution''
              ''Dataset attribution notice must be preserved and surfaced''] else []) @
     (if PrivacyState inp = StateConditional
      then [obligation ''obl-data-privacy-masking'' ''data.privacy.masking''
              ''Differential privacy and runtime redaction filters must remain active''] else [])"

definition modelObligations :: "ModelAdmissionInput \<Rightarrow> Obligation list" where
  "modelObligations inp =
     (if LicenseState inp = StateConditional
      then [obligation ''obl-model-openrail-restrictions'' ''model.license.openrail''
              ''Downstream use restrictions and risk disclosures must be distributed with model artifacts''] else []) @
     (if SBOMState inp = StateConditional
      then [obligation ''obl-model-sbom-remediation'' ''model.sbom.remediation''
              ''Non-critical SBOM component advisories must be remediated on schedule''] else [])"

definition deploymentObligations :: "DeploymentAdmissionInput \<Rightarrow> Obligation list" where
  "deploymentObligations inp =
     (if AirGapProfileState inp = StateConditional
      then [obligation ''obl-deploy-airgap-monitoring'' ''deployment.airgap.egress_audit''
              ''Log and audit all gateway-mediated egress through air-gap boundary proxy''] else []) @
     (if CapacityState inp = StateConditional
      then [obligation ''obl-deploy-capacity-lease'' ''deployment.capacity.off_peak''
              ''Workload admitted under off-peak preemption lease agreement''] else []) @
     (if PolicyState inp = StateConditional
      then [obligation ''obl-deploy-security-telemetry'' ''deployment.policy.telemetry''
              ''Security telemetry export must be enabled and bound to tenant stream''] else [])"

definition requestObligations :: "RequestAdmissionInput \<Rightarrow> Obligation list" where
  "requestObligations inp =
     (if RiskState inp = StateConditional
      then [obligation ''obl-req-watermarking'' ''request.governance.watermarking''
              ''Apply cryptographic watermarking and prompt logging to inference stream''] else []) @
     (if CapabilityLeaseState inp = StateConditional
      then [obligation ''obl-req-lease-limit'' ''request.lease.concurrency_bound''
              ''Bound request concurrency to conditional capability lease terms''] else []) @
     (if QuotaBudgetState inp = StateConditional
      then [obligation ''obl-req-budget-audit'' ''request.quota.burst_audit''
              ''Audit and reconcile token burst against monthly allocation''] else [])"

section \<open>The stages\<close>

definition AdmitData :: "admission_lib \<Rightarrow> Engine \<Rightarrow> stage_io \<Rightarrow> DataAdmissionInput \<Rightarrow> decided" where
  "AdmitData lib e io inp =
     (if fst io then Inl ErrContextCanceled
      else case validateDataInput inp of Some err \<Rightarrow> Inl err
      | None \<Rightarrow>
        (let orderedKeys = [''integrity'', ''provenance'', ''licensing'', ''privacy''];
             states = [''integrity'' \<mapsto> da_IntegrityState inp,
                 ''provenance'' \<mapsto> ProvenanceState inp,
                 ''licensing'' \<mapsto> LicensingState inp,
                 ''privacy'' \<mapsto> PrivacyState inp];
             (disp, reason) = resolveVectorStates orderedKeys states;
             obls = (if disp = DispositionAdmitWithObligations then dataObligations inp else [])
         in buildDecision lib e io StageData disp reason (da_SubjectDigest inp) states obls))"

definition AdmitModel :: "admission_lib \<Rightarrow> Engine \<Rightarrow> stage_io \<Rightarrow> ModelAdmissionInput \<Rightarrow> decided" where
  "AdmitModel lib e io inp =
     (if fst io then Inl ErrContextCanceled
      else case validateModelInput inp of Some err \<Rightarrow> Inl err
      | None \<Rightarrow>
        (let orderedKeys = [''artifactIntegrity'', ''signature'', ''attestation'', ''sbom'', ''license''];
             states = [''artifactIntegrity'' \<mapsto> ArtifactIntegrityState inp,
                 ''signature'' \<mapsto> SignatureState inp,
                 ''attestation'' \<mapsto> AttestationState inp,
                 ''sbom'' \<mapsto> SBOMState inp,
                 ''license'' \<mapsto> LicenseState inp];
             (disp, reason) = resolveVectorStates orderedKeys states;
             obls = (if disp = DispositionAdmitWithObligations then modelObligations inp else [])
         in buildDecision lib e io StageModel disp reason (mo_SubjectDigest inp) states obls))"

definition AdmitDeployment :: "admission_lib \<Rightarrow> Engine \<Rightarrow> stage_io \<Rightarrow> DeploymentAdmissionInput \<Rightarrow> decided" where
  "AdmitDeployment lib e io inp =
     (if fst io then Inl ErrContextCanceled
      else case validateDeploymentInput inp of Some err \<Rightarrow> Inl err
      | None \<Rightarrow>
        (let orderedKeys = [''policy'', ''runtimeCompatibility'', ''acceleratorTopology'', ''airGapProfile'', ''capacity''];
             states = [''policy'' \<mapsto> PolicyState inp,
                 ''runtimeCompatibility'' \<mapsto> RuntimeCompatibilityState inp,
                 ''acceleratorTopology'' \<mapsto> AcceleratorTopologyState inp,
                 ''airGapProfile'' \<mapsto> AirGapProfileState inp,
                 ''capacity'' \<mapsto> CapacityState inp];
             (disp, reason) = resolveVectorStates orderedKeys states;
             obls = (if disp = DispositionAdmitWithObligations then deploymentObligations inp else [])
         in buildDecision lib e io StageDeployment disp reason (dp_SubjectDigest inp) states obls))"

definition AdmitRequest :: "admission_lib \<Rightarrow> Engine \<Rightarrow> stage_io \<Rightarrow> RequestAdmissionInput \<Rightarrow> decided" where
  "AdmitRequest lib e io inp =
     (if fst io then Inl ErrContextCanceled
      else case validateRequestInput inp of Some err \<Rightarrow> Inl err
      | None \<Rightarrow>
        (let orderedKeys = [''risk'', ''identityTenant'', ''capabilityLease'', ''quotaBudget''];
             states = [''risk'' \<mapsto> RiskState inp,
                 ''identityTenant'' \<mapsto> IdentityTenantState inp,
                 ''capabilityLease'' \<mapsto> CapabilityLeaseState inp,
                 ''quotaBudget'' \<mapsto> QuotaBudgetState inp];
             (disp, reason) = resolveVectorStates orderedKeys states;
             obls = (if disp = DispositionAdmitWithObligations then requestObligations inp else [])
         in buildDecision lib e io StageRequest disp reason (rq_SubjectDigest inp) states obls))"

section \<open>The pipeline\<close>

fun precedence :: "Disposition \<Rightarrow> int" where
  "precedence DispositionQuarantine = 6"
| "precedence DispositionDeny = 5"
| "precedence DispositionEscalate = 4"
| "precedence DispositionSafeHold = 3"
| "precedence DispositionAdmitWithObligations = 2"
| "precedence DispositionAdmit = 1"

definition calculateOverallDisposition :: "Decision_adm list \<Rightarrow> Disposition" where
  "calculateOverallDisposition decisions =
     (if decisions = [] then DispositionDeny
      else fold (\<lambda>d highest. if precedence (de_Disposition d) > precedence highest then de_Disposition d else highest)
             decisions DispositionAdmit)"

definition stops :: "Decision_adm \<Rightarrow> bool" where
  "stops dec \<longleftrightarrow> de_Disposition dec = DispositionQuarantine \<or> de_Disposition dec = DispositionDeny"

text \<open>
  The loop over the stage functions. A stage is only evaluated when it is reached, which for
  total functions without effects is the same as passing their results.
\<close>

fun stage_loop :: "decided list \<Rightarrow> admission_error + Decision_adm list" where
  "stage_loop [] = Inr []"
| "stage_loop (sf # sfs) =
     (case sf of Inl err \<Rightarrow> Inl err
      | Inr dec \<Rightarrow> (if stops dec then Inr [dec]
          else case stage_loop sfs of Inl err \<Rightarrow> Inl err | Inr ds \<Rightarrow> Inr (dec # ds)))"

definition EvaluatePipeline :: "admission_lib \<Rightarrow> Engine \<Rightarrow> bool \<Rightarrow> (nat \<Rightarrow> stage_io) \<Rightarrow> DataAdmissionInput \<Rightarrow>
    ModelAdmissionInput \<Rightarrow> DeploymentAdmissionInput \<Rightarrow> RequestAdmissionInput \<Rightarrow> admission_error + PipelineDecision" where
  "EvaluatePipeline lib e canceled io dat mdl deploy req =
     (if canceled then Inl ErrContextCanceled
      else case stage_loop [AdmitData lib e (io 0) dat, AdmitModel lib e (io 1) mdl,
             AdmitDeployment lib e (io 2) deploy, AdmitRequest lib e (io 3) req] of
        Inl err \<Rightarrow> Inl err
      | Inr decisions \<Rightarrow> Inr \<lparr>OverallDisposition = calculateOverallDisposition decisions,
          StageDecisions = decisions, pd_Obligations = concat (map de_Obligations decisions),
          AuditReceipts = map Receipt decisions\<rparr>)"

section \<open>Dispositions form a linear order\<close>

instantiation Disposition :: linorder
begin

definition less_eq_Disposition :: "Disposition \<Rightarrow> Disposition \<Rightarrow> bool" where
  "less_eq_Disposition a b \<longleftrightarrow> precedence a \<le> precedence b"

definition less_Disposition :: "Disposition \<Rightarrow> Disposition \<Rightarrow> bool" where
  "less_Disposition a b \<longleftrightarrow> precedence a < precedence b"

instance
proof
  fix a b :: Disposition
  show "a \<le> b \<Longrightarrow> b \<le> a \<Longrightarrow> a = b" by (cases a; cases b) (simp_all add: less_eq_Disposition_def)
qed (auto simp: less_eq_Disposition_def less_Disposition_def)

end

lemmas disposition_order = less_eq_Disposition_def less_Disposition_def

lemma Admit_least [simp]: "DispositionAdmit \<le> d"
  by (cases d) (simp_all add: disposition_order)

section \<open>The reference: every state has a disposition, and the worst decides\<close>

fun state_disposition :: "VectorState \<Rightarrow> Disposition" where
  "state_disposition StateQuarantined = DispositionQuarantine"
| "state_disposition StateViolated = DispositionDeny"
| "state_disposition StateIncompatible = DispositionDeny"
| "state_disposition StateUnknown = DispositionEscalate"
| "state_disposition StateFlagged = DispositionEscalate"
| "state_disposition StatePending = DispositionSafeHold"
| "state_disposition StateExhausted = DispositionSafeHold"
| "state_disposition StateConditional = DispositionAdmitWithObligations"
| "state_disposition StateDegraded = DispositionAdmitWithObligations"
| "state_disposition _ = DispositionAdmit"

definition worst :: "VectorState list \<Rightarrow> Disposition" where
  "worst vs = Max (insert DispositionAdmit (state_disposition ` set vs))"

fun reason_suffix :: "Disposition \<Rightarrow> string" where
  "reason_suffix DispositionQuarantine = '' dimension is quarantined''"
| "reason_suffix DispositionDeny = '' dimension violated admission policy''"
| "reason_suffix DispositionEscalate = '' dimension requires escalation''"
| "reason_suffix DispositionSafeHold = '' dimension placed on safe-hold''"
| "reason_suffix DispositionAdmitWithObligations = '' dimension admitted with obligations''"
| "reason_suffix DispositionAdmit = ''''"

lemma state_disposition_iff:
  "v = StateQuarantined \<longleftrightarrow> state_disposition v = DispositionQuarantine"
  "v = StateViolated \<or> v = StateIncompatible \<longleftrightarrow> state_disposition v = DispositionDeny"
  "v = StateUnknown \<or> v = StateFlagged \<longleftrightarrow> state_disposition v = DispositionEscalate"
  "v = StatePending \<or> v = StateExhausted \<longleftrightarrow> state_disposition v = DispositionSafeHold"
  "v = StateConditional \<or> v = StateDegraded \<longleftrightarrow> state_disposition v = DispositionAdmitWithObligations"
  by (cases v; simp)+

lemma worst_eqI:
  assumes "\<And>k. k \<in> set ks \<Longrightarrow> state_disposition (f k) \<le> d" "d = DispositionAdmit \<or> (\<exists>k \<in> set ks. state_disposition (f k) = d)"
  shows "worst (map f ks) = d"
  unfolding worst_def by (rule Max_eqI) (use assms in auto)

text \<open>The search for the first key at level \<open>d\<close>, once no key is above that level.\<close>

lemma level_search:
  assumes "find (\<lambda>k. state_disposition (f k) = d) ks = Some k" "\<And>k. k \<in> set ks \<Longrightarrow> state_disposition (f k) \<le> d"
  shows "worst (map f ks) = d"
  using assms by (intro worst_eqI) (auto simp: find_Some_iff)

definition capped :: "Disposition \<Rightarrow> ('k \<Rightarrow> VectorState) \<Rightarrow> 'k list \<Rightarrow> bool" where
  "capped d f ks \<longleftrightarrow> (\<forall>k \<in> set ks. state_disposition (f k) \<le> d)"

lemma capped_step:
  "capped DispositionQuarantine f ks"
  "capped DispositionQuarantine f ks \<Longrightarrow> find (\<lambda>k. state_disposition (f k) = DispositionQuarantine) ks = None \<Longrightarrow> capped DispositionDeny f ks"
  "capped DispositionDeny f ks \<Longrightarrow> find (\<lambda>k. state_disposition (f k) = DispositionDeny) ks = None \<Longrightarrow> capped DispositionEscalate f ks"
  "capped DispositionEscalate f ks \<Longrightarrow> find (\<lambda>k. state_disposition (f k) = DispositionEscalate) ks = None \<Longrightarrow> capped DispositionSafeHold f ks"
  "capped DispositionSafeHold f ks \<Longrightarrow> find (\<lambda>k. state_disposition (f k) = DispositionSafeHold) ks = None \<Longrightarrow> capped DispositionAdmitWithObligations f ks"
  "capped DispositionAdmitWithObligations f ks \<Longrightarrow> find (\<lambda>k. state_disposition (f k) = DispositionAdmitWithObligations) ks = None \<Longrightarrow> capped DispositionAdmit f ks"
proof -
  have le: "a \<le> DispositionQuarantine" "a \<le> DispositionQuarantine \<Longrightarrow> a \<noteq> DispositionQuarantine \<Longrightarrow> a \<le> DispositionDeny"
    "a \<le> DispositionDeny \<Longrightarrow> a \<noteq> DispositionDeny \<Longrightarrow> a \<le> DispositionEscalate"
    "a \<le> DispositionEscalate \<Longrightarrow> a \<noteq> DispositionEscalate \<Longrightarrow> a \<le> DispositionSafeHold"
    "a \<le> DispositionSafeHold \<Longrightarrow> a \<noteq> DispositionSafeHold \<Longrightarrow> a \<le> DispositionAdmitWithObligations"
    "a \<le> DispositionAdmitWithObligations \<Longrightarrow> a \<noteq> DispositionAdmitWithObligations \<Longrightarrow> a \<le> DispositionAdmit" for a
    by (cases a; simp add: disposition_order)+
  show "capped DispositionQuarantine f ks"
    "capped DispositionQuarantine f ks \<Longrightarrow> find (\<lambda>k. state_disposition (f k) = DispositionQuarantine) ks = None \<Longrightarrow> capped DispositionDeny f ks"
    "capped DispositionDeny f ks \<Longrightarrow> find (\<lambda>k. state_disposition (f k) = DispositionDeny) ks = None \<Longrightarrow> capped DispositionEscalate f ks"
    "capped DispositionEscalate f ks \<Longrightarrow> find (\<lambda>k. state_disposition (f k) = DispositionEscalate) ks = None \<Longrightarrow> capped DispositionSafeHold f ks"
    "capped DispositionSafeHold f ks \<Longrightarrow> find (\<lambda>k. state_disposition (f k) = DispositionSafeHold) ks = None \<Longrightarrow> capped DispositionAdmitWithObligations f ks"
    "capped DispositionAdmitWithObligations f ks \<Longrightarrow> find (\<lambda>k. state_disposition (f k) = DispositionAdmitWithObligations) ks = None \<Longrightarrow> capped DispositionAdmit f ks"
    unfolding capped_def find_None_iff using le by blast+
qed

lemma capped_find:
  "capped d f ks \<Longrightarrow> find (\<lambda>k. state_disposition (f k) = d) ks = Some k \<Longrightarrow> worst (map f ks) = d"
  by (rule level_search) (simp_all add: capped_def)

lemma capped_admit: "capped DispositionAdmit f ks \<Longrightarrow> worst (map f ks) = DispositionAdmit"
  by (rule worst_eqI) (simp_all add: capped_def)

lemma resolve_eq:
  "resolveVectorStates ks states =
     (let f = state_at states; d = worst (map f ks) in
      (d, if d = DispositionAdmit then ''all stage dimensions verified and compliant''
          else the (find (\<lambda>k. state_disposition (f k) = d) ks) @ reason_suffix d))"
proof -
  let ?f = "state_at states"
  let ?look = "\<lambda>d. find (\<lambda>k. state_disposition (?f k) = d) ks"
  have eq: "resolveVectorStates ks states =
      (case ?look DispositionQuarantine of Some k \<Rightarrow> (DispositionQuarantine, k @ reason_suffix DispositionQuarantine)
       | None \<Rightarrow> (case ?look DispositionDeny of Some k \<Rightarrow> (DispositionDeny, k @ reason_suffix DispositionDeny)
       | None \<Rightarrow> (case ?look DispositionEscalate of Some k \<Rightarrow> (DispositionEscalate, k @ reason_suffix DispositionEscalate)
       | None \<Rightarrow> (case ?look DispositionSafeHold of Some k \<Rightarrow> (DispositionSafeHold, k @ reason_suffix DispositionSafeHold)
       | None \<Rightarrow> (case ?look DispositionAdmitWithObligations of
           Some k \<Rightarrow> (DispositionAdmitWithObligations, k @ reason_suffix DispositionAdmitWithObligations)
       | None \<Rightarrow> (DispositionAdmit, ''all stage dimensions verified and compliant''))))))"
    unfolding resolveVectorStates_def Let_def state_disposition_iff reason_suffix.simps by (rule refl)
  show ?thesis
  proof (cases "?look DispositionQuarantine")
    case q: None
    note c1 = capped_step(2) [OF capped_step(1) q]
    show ?thesis
    proof (cases "?look DispositionDeny")
      case d: None
      note c2 = capped_step(3) [OF c1 d]
      show ?thesis
      proof (cases "?look DispositionEscalate")
        case e: None
        note c3 = capped_step(4) [OF c2 e]
        show ?thesis
        proof (cases "?look DispositionSafeHold")
          case s: None
          note c4 = capped_step(5) [OF c3 s]
          show ?thesis
          proof (cases "?look DispositionAdmitWithObligations")
            case a: None
            from capped_admit [OF capped_step(6) [OF c4 a]] q d e s a show ?thesis by (simp add: eq Let_def)
          qed (use capped_find [OF c4] q d e s in \<open>simp add: eq Let_def\<close>)
        qed (use capped_find [OF c3] q d e in \<open>simp add: eq Let_def\<close>)
      qed (use capped_find [OF c2] q d in \<open>simp add: eq Let_def\<close>)
    qed (use capped_find [OF c1] q in \<open>simp add: eq Let_def\<close>)
  qed (use capped_find [OF capped_step(1) [of ?f ks]] in \<open>simp add: eq Let_def\<close>)
qed

text \<open>
  C29. The five passes of \<open>resolveVectorStates\<close> over the dimensions compute the worst
  disposition of any dimension in the precedence order, and the reason names the first dimension
  that has it.
\<close>

theorem resolveVectorStates_worst:
  "resolveVectorStates ks states =
     (let f = state_at states; d = worst (map f ks) in
      (d, if d = DispositionAdmit then ''all stage dimensions verified and compliant''
          else the (find (\<lambda>k. state_disposition (f k) = d) ks) @ reason_suffix d))"
  by (rule resolve_eq)

section \<open>What every stage promises\<close>

lemma resolve_fst: "fst (resolveVectorStates ks states) = worst (map (state_at states) ks)"
  by (simp add: resolve_eq Let_def)

lemma createReceipt_cases:
  obtains "createReceipt lib e io stage disp dig states = Inl ErrReceiptGeneration"
      "\<exists>claims. marshal_claims lib claims = None"
  | r where "createReceipt lib e io stage disp dig states = Inr r" "ar_Stage r = stage" "ar_Disposition r = disp"
proof (cases "createReceipt lib e io stage disp dig states")
  case (Inl err)
  then have "err = ErrReceiptGeneration \<and> (\<exists>claims. marshal_claims lib claims = None)"
    by (auto simp: createReceipt_def Let_def split: option.splits prod.splits)
  with Inl show ?thesis by (intro that(1)) simp_all
next
  case (Inr r)
  then have "ar_Stage r = stage \<and> ar_Disposition r = disp"
    by (auto simp: createReceipt_def Let_def split: option.splits prod.splits)
  with Inr show ?thesis by (intro that(2) [of r]) simp_all
qed

lemma buildDecision_cases:
  obtains "buildDecision lib e io stage disp reason dig states obls = Inl ErrReceiptGeneration"
      "\<exists>claims. marshal_claims lib claims = None"
  | d where "buildDecision lib e io stage disp reason dig states obls = Inr d" "de_Stage d = stage"
      "de_Disposition d = disp" "de_Obligations d = obls" "ar_Stage (Receipt d) = stage" "ar_Disposition (Receipt d) = disp"
proof (cases rule: createReceipt_cases [of lib e io stage disp dig "\<lambda>k. map_option VectorState_string (states k)"])
  case 1
  then show ?thesis by (intro that(1)) (simp_all add: buildDecision_def)
next
  case (2 r)
  let ?d = "\<lparr>de_Stage = stage, de_Disposition = disp, de_Reason = reason,
      VectorStates = \<lambda>k. map_option VectorState_string (states k), de_Obligations = obls, Receipt = r\<rparr>"
  show ?thesis by (rule that(2) [of ?d]) (simp_all add: buildDecision_def 2)
qed

text \<open>
  The contract of a stage: a cancelled context or an invalid input refuses; else the worst of its
  dimensions decides, and obligations come only with the disposition that announces them.
\<close>

locale admission_stage =
  fixes admit :: "admission_lib \<Rightarrow> Engine \<Rightarrow> stage_io \<Rightarrow> 'i \<Rightarrow> decided"
    and stage :: StageName
    and check_input :: "'i \<Rightarrow> admission_error option"
    and keys :: "string list"
    and dims :: "'i \<Rightarrow> string \<rightharpoonup> VectorState"
    and digest :: "'i \<Rightarrow> string"
    and obligations :: "'i \<Rightarrow> Obligation list"
  assumes admit_eq: "admit lib e io inp =
      (if fst io then Inl ErrContextCanceled
       else case check_input inp of Some err \<Rightarrow> Inl err
       | None \<Rightarrow> (let (disp, reason) = resolveVectorStates keys (dims inp)
           in buildDecision lib e io stage disp reason (digest inp) (dims inp)
                (if disp = DispositionAdmitWithObligations then obligations inp else [])))"
    and check_error: "check_input inp = None \<or> check_input inp = Some ErrInvalidInput"
begin

lemma admit_cases:
  obtains "admit lib e io inp = Inl ErrContextCanceled" "fst io"
  | "admit lib e io inp = Inl ErrInvalidInput" "\<not> fst io" "check_input inp \<noteq> None"
  | "admit lib e io inp = Inl ErrReceiptGeneration" "\<not> fst io" "check_input inp = None" "\<exists>claims. marshal_claims lib claims = None"
  | d where "admit lib e io inp = Inr d" "\<not> fst io" "check_input inp = None" "de_Stage d = stage"
      "de_Disposition d = worst (map (state_at (dims inp)) keys)"
      "de_Obligations d = (if de_Disposition d = DispositionAdmitWithObligations then obligations inp else [])"
      "ar_Stage (Receipt d) = stage" "ar_Disposition (Receipt d) = de_Disposition d"
proof (cases "fst io")
  case True
  then show ?thesis by (intro that(1)) (simp_all add: admit_eq)
next
  case io: False
  show ?thesis
  proof (cases "check_input inp")
    case (Some err)
    then show ?thesis using check_error [of inp] io by (intro that(2)) (simp_all add: admit_eq)
  next
    case None
    obtain disp reason where r: "resolveVectorStates keys (dims inp) = (disp, reason)" by fastforce
    then have w: "disp = worst (map (state_at (dims inp)) keys)" using resolve_fst [of keys "dims inp"] by simp
    have eq: "admit lib e io inp = buildDecision lib e io stage disp reason (digest inp) (dims inp)
        (if disp = DispositionAdmitWithObligations then obligations inp else [])"
      using io None r by (simp add: admit_eq)
    show ?thesis
    proof (cases rule: buildDecision_cases [of lib e io stage disp reason "digest inp" "dims inp"
          "if disp = DispositionAdmitWithObligations then obligations inp else []"])
      case 1
      then show ?thesis using io None eq by (intro that(3)) simp_all
    next
      case (2 d)
      then show ?thesis using io None eq w by (intro that(4) [of d]) simp_all
    qed
  qed
qed

lemma admit_ok:
  assumes "admit lib e io inp = Inr d"
  shows "\<not> fst io" "check_input inp = None" "de_Stage d = stage" "de_Disposition d = worst (map (state_at (dims inp)) keys)"
    "de_Obligations d = (if de_Disposition d = DispositionAdmitWithObligations then obligations inp else [])"
    "ar_Stage (Receipt d) = stage" "ar_Disposition (Receipt d) = de_Disposition d"
  by (cases rule: admit_cases [of lib e io inp]; use assms in simp)+

lemma admit_error:
  assumes "admit lib e io inp = Inl err"
  shows "err = (if fst io then ErrContextCanceled else if check_input inp \<noteq> None then ErrInvalidInput else ErrReceiptGeneration)"
    "err = ErrReceiptGeneration \<Longrightarrow> \<exists>claims. marshal_claims lib claims = None"
  by (cases rule: admit_cases [of lib e io inp]; use assms in auto)+

lemma admit_total:
  assumes "\<not> fst io" "check_input inp = None" "\<And>claims. marshal_claims lib claims \<noteq> None"
  shows "\<exists>d. admit lib e io inp = Inr d"
  by (cases rule: admit_cases [of lib e io inp]) (use assms in auto)

end

definition data_dims :: "DataAdmissionInput \<Rightarrow> string \<rightharpoonup> VectorState" where
  "data_dims inp = [''integrity'' \<mapsto> da_IntegrityState inp, ''provenance'' \<mapsto> ProvenanceState inp,
     ''licensing'' \<mapsto> LicensingState inp, ''privacy'' \<mapsto> PrivacyState inp]"

definition model_dims :: "ModelAdmissionInput \<Rightarrow> string \<rightharpoonup> VectorState" where
  "model_dims inp = [''artifactIntegrity'' \<mapsto> ArtifactIntegrityState inp, ''signature'' \<mapsto> SignatureState inp,
     ''attestation'' \<mapsto> AttestationState inp, ''sbom'' \<mapsto> SBOMState inp, ''license'' \<mapsto> LicenseState inp]"

definition deployment_dims :: "DeploymentAdmissionInput \<Rightarrow> string \<rightharpoonup> VectorState" where
  "deployment_dims inp = [''policy'' \<mapsto> PolicyState inp, ''runtimeCompatibility'' \<mapsto> RuntimeCompatibilityState inp,
     ''acceleratorTopology'' \<mapsto> AcceleratorTopologyState inp, ''airGapProfile'' \<mapsto> AirGapProfileState inp,
     ''capacity'' \<mapsto> CapacityState inp]"

definition request_dims :: "RequestAdmissionInput \<Rightarrow> string \<rightharpoonup> VectorState" where
  "request_dims inp = [''risk'' \<mapsto> RiskState inp, ''identityTenant'' \<mapsto> IdentityTenantState inp,
     ''capabilityLease'' \<mapsto> CapabilityLeaseState inp, ''quotaBudget'' \<mapsto> QuotaBudgetState inp]"

interpretation data_stage: admission_stage AdmitData StageData validateDataInput
  "[''integrity'', ''provenance'', ''licensing'', ''privacy'']" data_dims da_SubjectDigest dataObligations
  by unfold_locales (simp_all add: AdmitData_def data_dims_def validateDataInput_def Let_def)

interpretation model_stage: admission_stage AdmitModel StageModel validateModelInput
  "[''artifactIntegrity'', ''signature'', ''attestation'', ''sbom'', ''license'']" model_dims mo_SubjectDigest modelObligations
  by unfold_locales (simp_all add: AdmitModel_def model_dims_def validateModelInput_def Let_def)

interpretation deployment_stage: admission_stage AdmitDeployment StageDeployment validateDeploymentInput
  "[''policy'', ''runtimeCompatibility'', ''acceleratorTopology'', ''airGapProfile'', ''capacity'']" deployment_dims
  dp_SubjectDigest deploymentObligations
  by unfold_locales (simp_all add: AdmitDeployment_def deployment_dims_def validateDeploymentInput_def Let_def)

interpretation request_stage: admission_stage AdmitRequest StageRequest validateRequestInput
  "[''risk'', ''identityTenant'', ''capabilityLease'', ''quotaBudget'']" request_dims rq_SubjectDigest requestObligations
  by unfold_locales (simp_all add: AdmitRequest_def request_dims_def validateRequestInput_def Let_def)

section \<open>The pipeline\<close>

definition stage_states :: "DataAdmissionInput \<Rightarrow> ModelAdmissionInput \<Rightarrow> DeploymentAdmissionInput \<Rightarrow> RequestAdmissionInput \<Rightarrow>
    VectorState list list" where
  "stage_states dat mdl deploy req =
     [[da_IntegrityState dat, ProvenanceState dat, LicensingState dat, PrivacyState dat],
      [ArtifactIntegrityState mdl, SignatureState mdl, AttestationState mdl, SBOMState mdl, LicenseState mdl],
      [PolicyState deploy, RuntimeCompatibilityState deploy, AcceleratorTopologyState deploy,
       AirGapProfileState deploy, CapacityState deploy],
      [RiskState req, IdentityTenantState req, CapabilityLeaseState req, QuotaBudgetState req]]"

lemma stage_dims:
  "map (state_at (data_dims dat)) [''integrity'', ''provenance'', ''licensing'', ''privacy''] = stage_states dat mdl deploy req ! 0"
  "map (state_at (model_dims mdl)) [''artifactIntegrity'', ''signature'', ''attestation'', ''sbom'', ''license''] =
     stage_states dat mdl deploy req ! 1"
  "map (state_at (deployment_dims deploy)) [''policy'', ''runtimeCompatibility'', ''acceleratorTopology'', ''airGapProfile'', ''capacity''] =
     stage_states dat mdl deploy req ! 2"
  "map (state_at (request_dims req)) [''risk'', ''identityTenant'', ''capabilityLease'', ''quotaBudget''] =
     stage_states dat mdl deploy req ! 3"
  by (simp_all add: stage_states_def state_at_def data_dims_def model_dims_def deployment_dims_def request_dims_def)

lemma stops_iff: "stops d \<longleftrightarrow> DispositionDeny \<le> de_Disposition d"
  by (cases "de_Disposition d") (simp_all add: stops_def disposition_order)

lemma stage_loop_ok:
  assumes "stage_loop sfs = Inr ds"
  shows "map Inr ds = take (length ds) sfs \<and> list_all (\<lambda>d. \<not> stops d) (butlast ds) \<and>
    (length ds = length sfs \<or> ds \<noteq> [] \<and> stops (last ds))"
  using assms
proof (induction sfs arbitrary: ds)
  case (Cons sf sfs)
  then obtain dec where sf: "sf = Inr dec" by (cases sf) auto
  show ?case
  proof (cases "stops dec")
    case True
    with Cons.prems sf have "ds = [dec]" by simp
    with True sf show ?thesis by simp
  next
    case False
    with Cons.prems sf obtain ds' where ds': "stage_loop sfs = Inr ds'" "ds = dec # ds'"
      by (cases "stage_loop sfs") auto
    with Cons.IH [OF ds'(1)] False sf show ?thesis by auto
  qed
qed simp


lemma overall_Max:
  assumes "ds \<noteq> []"
  shows "calculateOverallDisposition ds = Max (de_Disposition ` set ds)"
proof -
  have "fold (\<lambda>d highest. if precedence (de_Disposition d) > precedence highest then de_Disposition d else highest) ds b =
      Max (insert b (de_Disposition ` set ds))" for b
  proof (induction ds arbitrary: b)
    case (Cons d ds)
    have "(if precedence (de_Disposition d) > precedence b then de_Disposition d else b) = max b (de_Disposition d)"
      by (auto simp: max_def disposition_order intro: antisym)
    moreover have "Max (insert (max b x) S) = Max (insert b (insert x S))" if "finite S" for x and S :: "Disposition set"
      using that by (cases "S = {}") (auto simp: max.assoc)
    ultimately show ?case using Cons.IH by simp
  qed simp
  with assms show ?thesis by (simp add: calculateOverallDisposition_def max_absorb2)
qed

definition stage_results :: "admission_lib \<Rightarrow> Engine \<Rightarrow> (nat \<Rightarrow> stage_io) \<Rightarrow> DataAdmissionInput \<Rightarrow>
    ModelAdmissionInput \<Rightarrow> DeploymentAdmissionInput \<Rightarrow> RequestAdmissionInput \<Rightarrow> decided list" where
  "stage_results lib e io dat mdl deploy req = [AdmitData lib e (io 0) dat, AdmitModel lib e (io 1) mdl,
     AdmitDeployment lib e (io 2) deploy, AdmitRequest lib e (io 3) req]"

lemma stage_decision:
  assumes "stage_results lib e io dat mdl deploy req ! i = Inr d" "i < 4"
  shows "de_Stage d = [StageData, StageModel, StageDeployment, StageRequest] ! i"
    "de_Disposition d = worst (stage_states dat mdl deploy req ! i)"
    "ar_Stage (Receipt d) = de_Stage d" "ar_Disposition (Receipt d) = de_Disposition d"
    "de_Obligations d = [] \<or> de_Disposition d = DispositionAdmitWithObligations"
proof -
  consider "i = 0" | "i = 1" | "i = 2" | "i = 3" using assms(2) by linarith
  then have "de_Stage d = [StageData, StageModel, StageDeployment, StageRequest] ! i \<and>
      de_Disposition d = worst (stage_states dat mdl deploy req ! i) \<and>
      ar_Stage (Receipt d) = de_Stage d \<and> ar_Disposition (Receipt d) = de_Disposition d \<and>
      (de_Obligations d = [] \<or> de_Disposition d = DispositionAdmitWithObligations)"
  proof cases
    case 1
    with assms have "AdmitData lib e (io 0) dat = Inr d" by (simp add: stage_results_def)
    from data_stage.admit_ok [OF this] stage_dims(1) show ?thesis using 1 by simp
  next
    case 2
    with assms have "AdmitModel lib e (io 1) mdl = Inr d" by (simp add: stage_results_def)
    from model_stage.admit_ok [OF this] stage_dims(2) show ?thesis using 2 by simp
  next
    case 3
    with assms have "AdmitDeployment lib e (io 2) deploy = Inr d" by (simp add: stage_results_def)
    from deployment_stage.admit_ok [OF this] stage_dims(3) show ?thesis using 3 by simp
  next
    case 4
    with assms have "AdmitRequest lib e (io 3) req = Inr d" by (simp add: stage_results_def)
    from request_stage.admit_ok [OF this] stage_dims(4) show ?thesis using 4 by simp
  qed
  then show "de_Stage d = [StageData, StageModel, StageDeployment, StageRequest] ! i"
    "de_Disposition d = worst (stage_states dat mdl deploy req ! i)"
    "ar_Stage (Receipt d) = de_Stage d" "ar_Disposition (Receipt d) = de_Disposition d"
    "de_Obligations d = [] \<or> de_Disposition d = DispositionAdmitWithObligations" by blast+
qed

lemma stage_decisions:
  assumes "map Inr ds = take (length ds) (stage_results lib e io dat mdl deploy req)"
  shows "length ds \<le> 4" "map de_Stage ds = take (length ds) [StageData, StageModel, StageDeployment, StageRequest]"
    "map de_Disposition ds = take (length ds) (map worst (stage_states dat mdl deploy req))"
    "map ar_Stage (map Receipt ds) = map de_Stage ds" "map ar_Disposition (map Receipt ds) = map de_Disposition ds"
    "list_all (\<lambda>d. de_Obligations d = [] \<or> de_Disposition d = DispositionAdmitWithObligations) ds"
proof -
  show len: "length ds \<le> 4" using arg_cong [OF assms, of length] by (simp add: stage_results_def)
  have n4: "length (stage_states dat mdl deploy req) = 4" by (simp add: stage_states_def)
  have nth: "stage_results lib e io dat mdl deploy req ! i = Inr (ds ! i)" "i < 4" if "i < length ds" for i
    using arg_cong [OF assms, of "\<lambda>xs. xs ! i"] that len by simp_all
  note at = stage_decision [OF nth]
  show "map de_Stage ds = take (length ds) [StageData, StageModel, StageDeployment, StageRequest]"
    by (rule nth_equalityI) (use len at(1) in auto)
  show "map de_Disposition ds = take (length ds) (map worst (stage_states dat mdl deploy req))"
    by (rule nth_equalityI) (use len n4 at(2) in auto)
  show "map ar_Stage (map Receipt ds) = map de_Stage ds" "map ar_Disposition (map Receipt ds) = map de_Disposition ds"
    by (rule nth_equalityI; use at(3,4) in simp)+
  show "list_all (\<lambda>d. de_Obligations d = [] \<or> de_Disposition d = DispositionAdmitWithObligations) ds"
    using at(5) by (simp add: list_all_length)
qed

lemma worst_le: "worst vs \<le> d \<longleftrightarrow> list_all (\<lambda>v. state_disposition v \<le> d) vs"
  by (simp add: worst_def list_all_iff)

lemma worst_concat: "worst (concat vss) \<le> d \<longleftrightarrow> (\<forall>vs \<in> set vss. worst vs \<le> d)"
  by (auto simp: worst_le list_all_iff)

lemma overall_le:
  assumes ds: "map de_Disposition ds = take (length ds) (map worst states)" "ds \<noteq> []"
    and full: "length ds = length states \<or> DispositionDeny \<le> de_Disposition (last ds)" and d: "d < DispositionDeny"
  shows "Max (set (map de_Disposition ds)) \<le> d \<longleftrightarrow> list_all (\<lambda>v. state_disposition v \<le> d) (concat states)"
proof
  assume "Max (set (map de_Disposition ds)) \<le> d"
  then have le: "\<And>x. x \<in> set ds \<Longrightarrow> de_Disposition x \<le> d" using ds(2) by simp
  have "de_Disposition (last ds) \<le> d" using le ds(2) by simp
  with d full have "length ds = length states" by auto
  with ds(1) have "map de_Disposition ds = map worst states" by simp
  then have "set (map worst states) = de_Disposition ` set ds" by (metis list.set_map)
  moreover have "\<forall>y \<in> de_Disposition ` set ds. y \<le> d" using le by blast
  ultimately have "\<forall>y \<in> set (map worst states). y \<le> d" by simp
  then have "\<And>s. s \<in> set states \<Longrightarrow> worst s \<le> d" by simp
  then show "list_all (\<lambda>v. state_disposition v \<le> d) (concat states)"
    unfolding worst_le [symmetric] worst_concat by blast
next
  assume "list_all (\<lambda>v. state_disposition v \<le> d) (concat states)"
  then have all: "\<forall>s \<in> set states. worst s \<le> d" unfolding worst_le [symmetric] worst_concat .
  have "x \<le> d" if "x \<in> set (map de_Disposition ds)" for x
  proof -
    from that have "x \<in> set (map worst states)" unfolding ds(1) by (rule in_set_takeD)
    with all show ?thesis by auto
  qed
  then show "Max (set (map de_Disposition ds)) \<le> d" using ds(2) by (intro Max.boundedI) auto
qed

text \<open>
  C30. When the pipeline returns a decision, its stages ran in the fixed order from the first
  on, each with the worst disposition of its own dimensions; none ran after a denial or quarantine
  and the run ends early only there. The overall disposition is the worst of the stages that ran,
  and it admits (with or without obligations) exactly when every dimension of all four inputs
  does. There is one receipt per stage, for that stage and its disposition, and obligations
  come only from stages that admit with obligations.
\<close>

theorem EvaluatePipeline_decision:
  assumes "EvaluatePipeline lib e canceled io dat mdl deploy req = Inr pd"
  shows "let ds = StageDecisions pd; n = length ds; states = stage_states dat mdl deploy req in
    0 < n \<and> n \<le> 4 \<and>
    map de_Stage ds = take n [StageData, StageModel, StageDeployment, StageRequest] \<and>
    map de_Disposition ds = take n (map worst states) \<and>
    list_all (\<lambda>d. de_Disposition d < DispositionDeny) (butlast ds) \<and>
    (n = 4 \<or> DispositionDeny \<le> de_Disposition (last ds)) \<and>
    OverallDisposition pd = Max (set (map de_Disposition ds)) \<and>
    (OverallDisposition pd \<le> DispositionAdmitWithObligations \<longleftrightarrow>
       list_all (\<lambda>v. state_disposition v \<le> DispositionAdmitWithObligations) (concat states)) \<and>
    map ar_Stage (AuditReceipts pd) = map de_Stage ds \<and>
    map ar_Disposition (AuditReceipts pd) = map de_Disposition ds \<and>
    pd_Obligations pd = concat (map de_Obligations
      (filter (\<lambda>d. de_Disposition d = DispositionAdmitWithObligations) ds))"
proof -
  let ?states = "stage_states dat mdl deploy req"
  obtain ds where loop: "stage_loop (stage_results lib e io dat mdl deploy req) = Inr ds"
    and pd: "pd = \<lparr>OverallDisposition = calculateOverallDisposition ds, StageDecisions = ds,
        pd_Obligations = concat (map de_Obligations ds), AuditReceipts = map Receipt ds\<rparr>"
    using assms by (auto simp: EvaluatePipeline_def stage_results_def split: if_splits sum.splits)
  note ok = stage_loop_ok [OF loop]
  note st = stage_decisions [OF conjunct1 [OF ok]]
  have n4: "length (stage_results lib e io dat mdl deploy req) = 4" "length ?states = 4"
    by (simp_all add: stage_results_def stage_states_def)
  have ne: "ds \<noteq> []" using ok n4 by auto
  have overall: "OverallDisposition pd = Max (set (map de_Disposition ds))" using overall_Max [OF ne] by (simp add: pd)
  have full: "length ds = 4 \<or> DispositionDeny \<le> de_Disposition (last ds)"
    using ok n4 by (auto simp: stops_iff)
  have "DispositionAdmitWithObligations < DispositionDeny" by (simp add: disposition_order)
  then have admits: "OverallDisposition pd \<le> DispositionAdmitWithObligations \<longleftrightarrow>
      list_all (\<lambda>v. state_disposition v \<le> DispositionAdmitWithObligations) (concat ?states)"
    unfolding overall by (intro overall_le [OF st(3) ne]) (use full n4 in auto)
  have before: "list_all (\<lambda>d. de_Disposition d < DispositionDeny) (butlast ds)"
    using ok by (simp add: stops_iff not_le)
  have obl: "concat (map de_Obligations ds) =
      concat (map de_Obligations (filter (\<lambda>d. de_Disposition d = DispositionAdmitWithObligations) ds))"
    using st(6) by (induction ds) auto
  have sel: "StageDecisions pd = ds" "AuditReceipts pd = map Receipt ds" "pd_Obligations pd = concat (map de_Obligations ds)"
    by (simp_all add: pd)
  show ?thesis
    unfolding Let_def sel length_greater_0_conv
    by (intro conjI ne st(1-5) before full overall admits obl)
qed

section \<open>A concrete run\<close>

definition sample_lib :: admission_lib where
  "sample_lib = \<lparr>marshal_claims = (\<lambda>c. Some (cl_ReceiptID c)), format_rfc3339 = show_int,
     ed25519_sign = (\<lambda>k m. take 32 k @ take 32 (m @ replicate 32 (CHR ''.'')))\<rparr>"

definition sample_engine :: Engine where
  "sample_engine = NewEngine \<lparr>SPIFFEID = ''spiffe'', KeyDigest = ''kd''\<rparr> [WithPrivateKey (replicate 64 (CHR ''k''))]"

definition sample_data :: "VectorState \<Rightarrow> DataAdmissionInput" where
  "sample_data v = \<lparr>da_SubjectID = ''s'', da_SubjectDigest = '''', ProvenanceState = StateVerified,
     LicensingState = v, PrivacyState = StateCompliant, da_IntegrityState = StateVerified, da_Metadata = Map.empty\<rparr>"

definition sample_model :: "VectorState \<Rightarrow> ModelAdmissionInput" where
  "sample_model v = \<lparr>mo_SubjectID = ''s'', mo_SubjectDigest = '''', ArtifactIntegrityState = StateVerified,
     SBOMState = StateVerified, SignatureState = v, AttestationState = StateVerified, LicenseState = StateCompliant,
     mo_Metadata = Map.empty\<rparr>"

definition sample_deployment :: "DeploymentAdmissionInput" where
  "sample_deployment = \<lparr>dp_SubjectID = ''s'', dp_SubjectDigest = '''', RuntimeCompatibilityState = StateVerified,
     AcceleratorTopologyState = StateVerified, CapacityState = StateVerified, PolicyState = StateVerified,
     AirGapProfileState = StateVerified, dp_Metadata = Map.empty\<rparr>"

definition sample_request :: RequestAdmissionInput where
  "sample_request = \<lparr>rq_SubjectID = ''s'', rq_SubjectDigest = '''', IdentityTenantState = StateVerified,
     CapabilityLeaseState = StateVerified, QuotaBudgetState = StateVerified, RiskState = StateVerified,
     rq_Metadata = Map.empty\<rparr>"

lemmas sample_defs = sample_lib_def sample_data_def sample_model_def sample_deployment_def sample_request_def

lemmas pipeline_run = EvaluatePipeline_def AdmitData_def AdmitModel_def AdmitDeployment_def AdmitRequest_def
  validateDataInput_def validateModelInput_def validateDeploymentInput_def validateRequestInput_def
  resolveVectorStates_def state_at_def buildDecision_def createReceipt_def stops_def Let_def

theorem EvaluatePipeline_decision_witness:
  "\<exists>pd. EvaluatePipeline sample_lib sample_engine False (\<lambda>i. (False, 1, 2)) (sample_data StateConditional)
      (sample_model StateViolated) sample_deployment sample_request = Inr pd \<and>
    DispositionAdmitWithObligations < OverallDisposition pd \<and> length (AuditReceipts pd) \<le> 4"
proof -
  obtain pd where run: "EvaluatePipeline sample_lib sample_engine False (\<lambda>i. (False, 1, 2)) (sample_data StateConditional)
      (sample_model StateViolated) sample_deployment sample_request = Inr pd"
    by (simp add: sample_defs pipeline_run)
  have "\<not> list_all (\<lambda>v. state_disposition v \<le> DispositionAdmitWithObligations)
      (concat (stage_states (sample_data StateConditional) (sample_model StateViolated) sample_deployment sample_request))"
    by (simp add: stage_states_def sample_defs disposition_order)
  with EvaluatePipeline_decision [OF run] have "\<not> OverallDisposition pd \<le> DispositionAdmitWithObligations"
      "map ar_Stage (AuditReceipts pd) = map de_Stage (StageDecisions pd)" "length (StageDecisions pd) \<le> 4"
    unfolding Let_def by blast+
  with run show ?thesis by (metis length_map not_le)
qed

section \<open>Errors\<close>





section \<open>Receipts\<close>




text \<open>
  The signature covers the digest string only, and the digest is not recomputed: a receipt with
  its disposition, subject, producer or time replaced verifies like the original.
\<close>

lemma VerifyReceipt_ignores_claims:
  "VerifyReceipt verify (r\<lparr>ar_Disposition := d, ar_SubjectDigest := s, ar_Producer := p, ar_ProducedAt := t\<rparr>) pk =
   VerifyReceipt verify r pk"
  by (cases "DecodeString (Signature r)") (simp_all add: VerifyReceipt_def)

text \<open>A disposition with obligations may carry none: a degraded dimension has no obligation attached.\<close>

lemma degraded_without_obligation:
  "\<exists>pd. EvaluatePipeline sample_lib sample_engine False (\<lambda>i. (False, 1, 2)) (sample_data StateDegraded)
      (sample_model StateVerified) sample_deployment sample_request = Inr pd \<and>
    OverallDisposition pd = DispositionAdmitWithObligations \<and> pd_Obligations pd = []"
  by (simp add: sample_defs pipeline_run calculateOverallDisposition_def dataObligations_def)

end
