(* ===== verification/Binary_Tensor.thy ===== *)
theory Binary_Tensor
  imports Prelude
begin

text \<open>
  The binary tensor extension of the V2 protocol, \<open>src/internal/protocol/v2/binary_tensor.go\<close>
  with the datatypes of \<open>types.go\<close>: the encoder and the decoder of every element type.

  A byte is an \<open>8 word\<close>. Go's signed integers are the words of their two's complement
  representation, so the conversions between \<open>intN\<close> and \<open>uintN\<close> are the identity, and floats
  are the words of their IEEE representation, so \<open>math.Float32bits\<close> and its inverse are
  too. The argument of type \<open>any\<close> is the datatype \<open>tensor_data\<close>. A run of the decoder can
  end in a run-time panic, which is an outcome of its own: \<open>make\<close> panics when the length is
  negative or the allocation exceeds the 48-bit address space of the 64-bit platforms, and
  indexing panics out of range.
\<close>

unbundle bit_operations_syntax

section \<open>Types\<close>

type_synonym byte = "8 word"

datatype Datatype = DatatypeBOOL | DatatypeUINT8 | DatatypeUINT16 | DatatypeUINT32 | DatatypeUINT64
  | DatatypeINT8 | DatatypeINT16 | DatatypeINT32 | DatatypeINT64 | DatatypeFP16 | DatatypeFP32
  | DatatypeFP64 | DatatypeBF16 | DatatypeBYTES | DatatypeOther string

datatype tensor_data = TBool "bool list" | TUint8 "byte list" | TUint16 "16 word list" | TUint32 "32 word list"
  | TUint64 "64 word list" | TInt8 "byte list" | TInt16 "16 word list" | TInt32 "32 word list" | TInt64 "64 word list"
  | TFloat32 "32 word list" | TFloat64 "64 word list" | TBytes "byte list list"

datatype tensor_error = ErrUnsupportedDatatype | ErrUnexpectedType | ErrShortData

datatype 'a outcome = Ok 'a | Fail tensor_error | Panic

section \<open>The parts of \<open>encoding/binary\<close> and of the run time\<close>

text \<open>\<open>LittleEndian.PutUintN\<close> writes \<open>k\<close> bytes, low byte first; \<open>UintN\<close> reads them.\<close>

fun le_put :: "nat \<Rightarrow> 'w::len word \<Rightarrow> byte list" where
  "le_put 0 v = []"
| "le_put (Suc k) v = ucast v # le_put k (drop_bit 8 v)"

fun le_word :: "byte list \<Rightarrow> 'w::len word" where
  "le_word [] = 0"
| "le_word (b # bs) = ucast b OR push_bit 8 (le_word bs)"

definition le_get :: "nat \<Rightarrow> byte list \<Rightarrow> 'w::len word option" where
  "le_get k bs = (if length bs < k then None else Some (le_word (take k bs)))"

definition byte_get :: "byte list \<Rightarrow> byte option" where
  "byte_get bs = (case bs of [] \<Rightarrow> None | b # _ \<Rightarrow> Some b)"

definition max_alloc :: int where
  "max_alloc = 2 ^ 48"

definition make_panics :: "int \<Rightarrow> int \<Rightarrow> bool" where
  "make_panics sz n \<longleftrightarrow> n < 0 \<or> n * sz > max_alloc"

text \<open>Allocate \<open>n\<close> elements of the size and fill them in a loop; reading out of range panics.\<close>

definition fill :: "int \<Rightarrow> int \<Rightarrow> (nat \<Rightarrow> 'a option) \<Rightarrow> 'a list outcome" where
  "fill sz n elem =
     (if make_panics sz n then Panic
      else case those (map elem [0..<nat n]) of None \<Rightarrow> Panic | Some vals \<Rightarrow> Ok vals)"

section \<open>Encoding\<close>


definition encodeBool :: "tensor_data \<Rightarrow> byte list outcome" where
  "encodeBool data = (case data of TBool vals \<Rightarrow> Ok (map (\<lambda>v. if v then 1 else 0) vals) | _ \<Rightarrow> Fail ErrUnexpectedType)"

definition encodeUint8 :: "tensor_data \<Rightarrow> byte list outcome" where
  "encodeUint8 data = (case data of TUint8 vals \<Rightarrow> Ok vals | _ \<Rightarrow> Fail ErrUnexpectedType)"

definition encodeUint16 :: "tensor_data \<Rightarrow> byte list outcome" where
  "encodeUint16 data = (case data of TUint16 vals \<Rightarrow> Ok (concat (map (le_put 2) vals)) | _ \<Rightarrow> Fail ErrUnexpectedType)"

definition encodeUint32 :: "tensor_data \<Rightarrow> byte list outcome" where
  "encodeUint32 data = (case data of TUint32 vals \<Rightarrow> Ok (concat (map (le_put 4) vals)) | _ \<Rightarrow> Fail ErrUnexpectedType)"

definition encodeUint64 :: "tensor_data \<Rightarrow> byte list outcome" where
  "encodeUint64 data = (case data of TUint64 vals \<Rightarrow> Ok (concat (map (le_put 8) vals)) | _ \<Rightarrow> Fail ErrUnexpectedType)"

definition encodeInt8 :: "tensor_data \<Rightarrow> byte list outcome" where
  "encodeInt8 data = (case data of TInt8 vals \<Rightarrow> Ok vals | _ \<Rightarrow> Fail ErrUnexpectedType)"

definition encodeInt16 :: "tensor_data \<Rightarrow> byte list outcome" where
  "encodeInt16 data = (case data of TInt16 vals \<Rightarrow> Ok (concat (map (le_put 2) vals)) | _ \<Rightarrow> Fail ErrUnexpectedType)"

definition encodeInt32 :: "tensor_data \<Rightarrow> byte list outcome" where
  "encodeInt32 data = (case data of TInt32 vals \<Rightarrow> Ok (concat (map (le_put 4) vals)) | _ \<Rightarrow> Fail ErrUnexpectedType)"

definition encodeInt64 :: "tensor_data \<Rightarrow> byte list outcome" where
  "encodeInt64 data = (case data of TInt64 vals \<Rightarrow> Ok (concat (map (le_put 8) vals)) | _ \<Rightarrow> Fail ErrUnexpectedType)"

definition encodeFP16 :: "tensor_data \<Rightarrow> byte list outcome" where
  "encodeFP16 data = (case data of TUint16 vals \<Rightarrow> Ok (concat (map (le_put 2) vals)) | _ \<Rightarrow> Fail ErrUnexpectedType)"

definition encodeFP32 :: "tensor_data \<Rightarrow> byte list outcome" where
  "encodeFP32 data = (case data of TFloat32 vals \<Rightarrow> Ok (concat (map (le_put 4) vals)) | _ \<Rightarrow> Fail ErrUnexpectedType)"

definition encodeFP64 :: "tensor_data \<Rightarrow> byte list outcome" where
  "encodeFP64 data = (case data of TFloat64 vals \<Rightarrow> Ok (concat (map (le_put 8) vals)) | _ \<Rightarrow> Fail ErrUnexpectedType)"

definition encodeBytes :: "tensor_data \<Rightarrow> byte list outcome" where
  "encodeBytes data = (case data of
       TBytes vals \<Rightarrow> Ok (concat (map (\<lambda>v. le_put 4 (of_nat (length v) :: 32 word) @ v) vals))
     | _ \<Rightarrow> Fail ErrUnexpectedType)"

definition EncodeTensor :: "Datatype \<Rightarrow> tensor_data \<Rightarrow> byte list outcome" where
  "EncodeTensor datatype data = (case datatype of
       DatatypeBOOL \<Rightarrow> encodeBool data
     | DatatypeUINT8 \<Rightarrow> encodeUint8 data
     | DatatypeUINT16 \<Rightarrow> encodeUint16 data
     | DatatypeUINT32 \<Rightarrow> encodeUint32 data
     | DatatypeUINT64 \<Rightarrow> encodeUint64 data
     | DatatypeINT8 \<Rightarrow> encodeInt8 data
     | DatatypeINT16 \<Rightarrow> encodeInt16 data
     | DatatypeINT32 \<Rightarrow> encodeInt32 data
     | DatatypeINT64 \<Rightarrow> encodeInt64 data
     | DatatypeFP16 \<Rightarrow> encodeFP16 data
     | DatatypeFP32 \<Rightarrow> encodeFP32 data
     | DatatypeFP64 \<Rightarrow> encodeFP64 data
     | DatatypeBYTES \<Rightarrow> encodeBytes data
     | _ \<Rightarrow> Fail ErrUnsupportedDatatype)"

definition TensorBinarySize :: "Datatype \<Rightarrow> tensor_data \<Rightarrow> int outcome" where
  "TensorBinarySize datatype data = map_outcome (\<lambda>encoded. int (length encoded)) (EncodeTensor datatype data)"

section \<open>Decoding\<close>

definition decodeBool :: "byte list \<Rightarrow> int \<Rightarrow> bool list outcome" where
  "decodeBool raw n =
     (if int (length raw) < n then Fail ErrShortData
      else fill 1 n (\<lambda>i. map_option (\<lambda>b. b \<noteq> 0) (byte_get (drop i raw))))"

text \<open>The slice \<open>raw[:n]\<close> panics when \<open>n\<close> is negative.\<close>

definition decodeUint8 :: "byte list \<Rightarrow> int \<Rightarrow> byte list outcome" where
  "decodeUint8 raw n =
     (if int (length raw) < n then Fail ErrShortData
      else if n < 0 then Panic else Ok (take (nat n) raw))"

definition decodeInt8 :: "byte list \<Rightarrow> int \<Rightarrow> byte list outcome" where
  "decodeInt8 raw n =
     (if int (length raw) < n then Fail ErrShortData
      else fill 1 n (\<lambda>i. byte_get (drop i raw)))"

definition decodeUint16 :: "byte list \<Rightarrow> int \<Rightarrow> 16 word list outcome" where
  "decodeUint16 raw n =
     (let expected = wrap64 (n * 2)
      in if int (length raw) < expected then Fail ErrShortData
         else fill 2 n (\<lambda>i. le_get 2 (drop (i * 2) raw)))"

definition decodeUint32 :: "byte list \<Rightarrow> int \<Rightarrow> 32 word list outcome" where
  "decodeUint32 raw n =
     (let expected = wrap64 (n * 4)
      in if int (length raw) < expected then Fail ErrShortData
         else fill 4 n (\<lambda>i. le_get 4 (drop (i * 4) raw)))"

definition decodeUint64 :: "byte list \<Rightarrow> int \<Rightarrow> 64 word list outcome" where
  "decodeUint64 raw n =
     (let expected = wrap64 (n * 8)
      in if int (length raw) < expected then Fail ErrShortData
         else fill 8 n (\<lambda>i. le_get 8 (drop (i * 8) raw)))"

definition decodeInt16 :: "byte list \<Rightarrow> int \<Rightarrow> 16 word list outcome" where
  "decodeInt16 raw n =
     (let expected = wrap64 (n * 2)
      in if int (length raw) < expected then Fail ErrShortData
         else fill 2 n (\<lambda>i. le_get 2 (drop (i * 2) raw)))"

definition decodeInt32 :: "byte list \<Rightarrow> int \<Rightarrow> 32 word list outcome" where
  "decodeInt32 raw n =
     (let expected = wrap64 (n * 4)
      in if int (length raw) < expected then Fail ErrShortData
         else fill 4 n (\<lambda>i. le_get 4 (drop (i * 4) raw)))"

definition decodeInt64 :: "byte list \<Rightarrow> int \<Rightarrow> 64 word list outcome" where
  "decodeInt64 raw n =
     (let expected = wrap64 (n * 8)
      in if int (length raw) < expected then Fail ErrShortData
         else fill 8 n (\<lambda>i. le_get 8 (drop (i * 8) raw)))"

definition decodeFP16 :: "byte list \<Rightarrow> int \<Rightarrow> 16 word list outcome" where
  "decodeFP16 raw n =
     (let expected = wrap64 (n * 2)
      in if int (length raw) < expected then Fail ErrShortData
         else fill 2 n (\<lambda>i. le_get 2 (drop (i * 2) raw)))"

definition decodeFP32 :: "byte list \<Rightarrow> int \<Rightarrow> 32 word list outcome" where
  "decodeFP32 raw n =
     (let expected = wrap64 (n * 4)
      in if int (length raw) < expected then Fail ErrShortData
         else fill 4 n (\<lambda>i. le_get 4 (drop (i * 4) raw)))"

definition decodeFP64 :: "byte list \<Rightarrow> int \<Rightarrow> 64 word list outcome" where
  "decodeFP64 raw n =
     (let expected = wrap64 (n * 8)
      in if int (length raw) < expected then Fail ErrShortData
         else fill 8 n (\<lambda>i. le_get 8 (drop (i * 8) raw)))"

fun bytes_loop :: "byte list \<Rightarrow> nat \<Rightarrow> nat \<Rightarrow> byte list list outcome" where
  "bytes_loop raw 0 offset = Ok []"
| "bytes_loop raw (Suc n) offset =
     (if offset + 4 > length raw then Fail ErrShortData
      else (let len = unat (le_word (take 4 (drop offset raw)) :: 32 word); offset = offset + 4
            in if offset + len > length raw then Fail ErrShortData
               else map_outcome (\<lambda>vals. take len (drop offset raw) # vals) (bytes_loop raw n (offset + len))))"

text \<open>A slice header takes 24 bytes.\<close>

definition decodeBytes :: "byte list \<Rightarrow> int \<Rightarrow> byte list list outcome" where
  "decodeBytes raw n = (if make_panics 24 n then Panic else bytes_loop raw (nat n) 0)"

definition num_elements :: "int list \<Rightarrow> int" where
  "num_elements shape = fold (\<lambda>dim numElements. wrap64 (numElements * dim)) shape 1"

definition DecodeTensor :: "Datatype \<Rightarrow> byte list \<Rightarrow> int list \<Rightarrow> tensor_data outcome" where
  "DecodeTensor datatype raw shape =
     (let numElements = num_elements shape
      in case datatype of
       DatatypeBOOL \<Rightarrow> map_outcome TBool (decodeBool raw numElements)
     | DatatypeUINT8 \<Rightarrow> map_outcome TUint8 (decodeUint8 raw numElements)
     | DatatypeUINT16 \<Rightarrow> map_outcome TUint16 (decodeUint16 raw numElements)
     | DatatypeUINT32 \<Rightarrow> map_outcome TUint32 (decodeUint32 raw numElements)
     | DatatypeUINT64 \<Rightarrow> map_outcome TUint64 (decodeUint64 raw numElements)
     | DatatypeINT8 \<Rightarrow> map_outcome TInt8 (decodeInt8 raw numElements)
     | DatatypeINT16 \<Rightarrow> map_outcome TInt16 (decodeInt16 raw numElements)
     | DatatypeINT32 \<Rightarrow> map_outcome TInt32 (decodeInt32 raw numElements)
     | DatatypeINT64 \<Rightarrow> map_outcome TInt64 (decodeInt64 raw numElements)
     | DatatypeFP16 \<Rightarrow> map_outcome TUint16 (decodeFP16 raw numElements)
     | DatatypeFP32 \<Rightarrow> map_outcome TFloat32 (decodeFP32 raw numElements)
     | DatatypeFP64 \<Rightarrow> map_outcome TFloat64 (decodeFP64 raw numElements)
     | DatatypeBYTES \<Rightarrow> map_outcome TBytes (decodeBytes raw numElements)
     | _ \<Rightarrow> Fail ErrUnsupportedDatatype)"

section \<open>Codecs of fixed-size elements\<close>

lemma those_None: "those xs = None \<longleftrightarrow> None \<in> set xs"
  by (induction xs) (auto split: option.splits)

lemma those_length: "those xs = Some ys \<Longrightarrow> length ys = length xs"
  by (induction xs arbitrary: ys) (auto split: option.splits)

text \<open>The contract of a pair of element writer and reader.\<close>

locale element_codec =
  fixes put :: "'v \<Rightarrow> byte list" and get :: "byte list \<Rightarrow> 'v option" and sz :: nat
  assumes put_length: "length (put v) = sz"
    and get_put: "get (put v @ rest) = Some v"
    and get_short: "get bs = None \<longleftrightarrow> length bs < sz"
    and sz_pos: "0 < sz"
begin

lemma encoded_length: "length (concat (map put vals)) = length vals * sz"
  by (induction vals) (simp_all add: put_length)

lemma read_all: "those (map (\<lambda>i. get (drop (i * sz) (concat (map put vals)))) [0..<length vals]) = Some vals"
proof (induction vals)
  case (Cons v vals)
  have "[0..<length (v # vals)] = 0 # map Suc [0..<length vals]"
    using map_Suc_upt [of 0 "length vals"] by (simp add: upt_rec)
  moreover have "drop (Suc i * sz) (put v @ rest) = drop (i * sz) rest" for i rest
    by (simp add: put_length)
  ultimately show ?case using Cons.IH get_put [of v] by (simp add: comp_def)
qed simp

lemma fill_encoded:
  assumes "int (length vals) * int sz \<le> max_alloc"
  shows "fill (int sz) (int (length vals)) (\<lambda>i. get (drop (i * sz) (concat (map put vals)))) = Ok vals"
  using assms by (simp add: fill_def make_panics_def read_all)

lemma fill_enough:
  assumes "0 \<le> n" "n * int sz \<le> max_alloc" "n * int sz \<le> int (length raw)"
  shows "\<exists>vals. fill (int sz) n (\<lambda>i. get (drop (i * sz) raw)) = Ok vals \<and> int (length vals) = n"
proof -
  have some: "get (drop (i * sz) raw) \<noteq> None" if "i < nat n" for i
  proof -
    have "int ((Suc i) * sz) \<le> n * int sz" using that assms(1)
      by (metis Suc_leI int_nat_eq le_nat_iff mult_right_mono of_nat_0_le_iff of_nat_le_iff of_nat_mult)
    then have "Suc i * sz \<le> length raw" using assms(3) by linarith
    then show ?thesis by (simp add: get_short)
  qed
  have "None \<notin> set (map (\<lambda>i. get (drop (i * sz) raw)) [0..<nat n])"
  proof
    assume "None \<in> set (map (\<lambda>i. get (drop (i * sz) raw)) [0..<nat n])"
    then obtain i where "i < nat n" "get (drop (i * sz) raw) = None" by auto
    with some show False by blast
  qed
  then have "those (map (\<lambda>i. get (drop (i * sz) raw)) [0..<nat n]) \<noteq> None" by (simp only: those_None not_False_eq_True)
  then obtain vals where "those (map (\<lambda>i. get (drop (i * sz) raw)) [0..<nat n]) = Some vals" by blast
  with assms(1,2) those_length [OF this] show ?thesis by (simp add: fill_def make_panics_def)
qed

lemma fill_negative: "n < 0 \<Longrightarrow> fill s n f = Panic"
  by (simp add: fill_def make_panics_def)

end

lemma le_word_put: "le_word (le_put k v) = take_bit (8 * k) v"
proof (induction k arbitrary: v)
  case (Suc k)
  have "ucast (ucast v :: byte) OR push_bit 8 (take_bit (8 * k) (drop_bit 8 v)) = take_bit (8 * Suc k) v"
    by (rule bit_word_eqI) (auto simp: bit_simps)
  with Suc show ?case by simp
qed simp

lemma length_le_put [simp]: "length (le_put k v) = k"
  by (induction k arbitrary: v) simp_all

lemma le_get_put: "LENGTH('w::len) = 8 * k \<Longrightarrow> le_get k (le_put k v @ rest) = Some (v :: 'w word)"
  using le_word_put [of k v] by (simp add: le_get_def take_bit_word_eq_self)

interpretation le16: element_codec "le_put 2 :: 16 word \<Rightarrow> byte list" "le_get 2" 2
  by unfold_locales (simp_all add: le_get_put, simp add: le_get_def)

interpretation le32: element_codec "le_put 4 :: 32 word \<Rightarrow> byte list" "le_get 4" 4
  by unfold_locales (simp_all add: le_get_put, simp add: le_get_def)

interpretation le64: element_codec "le_put 8 :: 64 word \<Rightarrow> byte list" "le_get 8" 8
  by unfold_locales (simp_all add: le_get_put, simp add: le_get_def)

interpretation byte1: element_codec "\<lambda>v. [v]" byte_get 1
  by unfold_locales (simp_all add: byte_get_def split: list.splits)

interpretation bool1: element_codec "\<lambda>v. [if v then 1 else 0 :: byte]" "\<lambda>bs. map_option (\<lambda>b. b \<noteq> 0) (byte_get bs)" 1
  by unfold_locales (simp_all add: byte_get_def split: list.splits)

section \<open>Round trip\<close>

fun tensor_length :: "tensor_data \<Rightarrow> nat" where
  "tensor_length (TBool vs) = length vs"
| "tensor_length (TUint8 vs) = length vs"
| "tensor_length (TUint16 vs) = length vs"
| "tensor_length (TUint32 vs) = length vs"
| "tensor_length (TUint64 vs) = length vs"
| "tensor_length (TInt8 vs) = length vs"
| "tensor_length (TInt16 vs) = length vs"
| "tensor_length (TInt32 vs) = length vs"
| "tensor_length (TInt64 vs) = length vs"
| "tensor_length (TFloat32 vs) = length vs"
| "tensor_length (TFloat64 vs) = length vs"
| "tensor_length (TBytes vs) = length vs"

text \<open>Elements whose length fits the 32-bit prefix.\<close>

fun prefix_fits :: "tensor_data \<Rightarrow> bool" where
  "prefix_fits (TBytes vs) = list_all (\<lambda>v. length v < 2 ^ 32) vs"
| "prefix_fits _ = True"

lemma alloc_small: "24 * int n \<le> max_alloc \<Longrightarrow> 0 \<le> k \<Longrightarrow> k \<le> 24 \<Longrightarrow> int n * k \<le> max_alloc"
  using mult_left_mono [of k 24 "int n"] by simp

lemma wrap_small: "24 * int n \<le> max_alloc \<Longrightarrow> 0 \<le> k \<Longrightarrow> k \<le> 24 \<Longrightarrow> wrap64 (int n * k) = int n * k"
  using alloc_small [of n k] by (intro wrap64_id) (auto simp: max_alloc_def intro: order_trans [of _ 0])

lemma bytes_loop_encoded:
  assumes "list_all (\<lambda>v. length v < 2 ^ 32) vs"
  shows "bytes_loop (pre @ concat (map (\<lambda>v. le_put 4 (of_nat (length v) :: 32 word) @ v) vs)) (length vs) (length pre) = Ok vs"
  using assms
proof (induction vs arbitrary: pre)
  case (Cons v vs)
  let ?hd = "le_put 4 (of_nat (length v) :: 32 word)"
  have "le_word ?hd = (of_nat (length v) :: 32 word)" using le_word_put [of 4 "of_nat (length v) :: 32 word"]
    by (simp add: take_bit_word_eq_self)
  moreover have "unat (of_nat (length v) :: 32 word) = length v" using Cons.prems by (simp add: unat_of_nat take_bit_nat_eq_self)
  moreover have "bytes_loop ((pre @ ?hd @ v) @ concat (map (\<lambda>v. le_put 4 (of_nat (length v) :: 32 word) @ v) vs)) (length vs)
      (length (pre @ ?hd @ v)) = Ok vs" using Cons by (intro Cons.IH) simp
  ultimately show ?case by (simp add: Let_def add.assoc)
qed simp

lemmas encoders = encodeBool_def encodeUint8_def encodeUint16_def encodeUint32_def encodeUint64_def encodeInt8_def
  encodeInt16_def encodeInt32_def encodeInt64_def encodeFP16_def encodeFP32_def encodeFP64_def encodeBytes_def

lemmas decoders = decodeBool_def decodeUint8_def decodeUint16_def decodeUint32_def decodeUint64_def decodeInt8_def
  decodeInt16_def decodeInt32_def decodeInt64_def decodeFP16_def decodeFP32_def decodeFP64_def

lemma concat_singles: "concat (map (\<lambda>v. [f v]) xs) = map f xs"
  by (induction xs) simp_all

lemma encoded_fits:
  assumes "24 * int (length vals) \<le> max_alloc" "k \<in> {2, 4, 8}"
  shows "\<not> int (length vals * nat k) < wrap64 (int (length vals) * k)"
  using wrap_small [OF assms(1), of k] assms(2) by auto

lemma decode_bools:
  assumes "24 * int (length vals) \<le> max_alloc"
  shows "decodeBool (map (\<lambda>v. if v then 1 else 0) vals) (int (length vals)) = Ok vals"
  using bool1.fill_encoded [of vals] alloc_small [OF assms, of 1] by (simp add: concat_singles decodeBool_def)

lemma decode_unsigned_bytes: "decodeUint8 bs (int (length bs)) = Ok bs"
  by (simp add: decodeUint8_def)

lemma decode_signed_bytes: "24 * int (length bs) \<le> max_alloc \<Longrightarrow> decodeInt8 bs (int (length bs)) = Ok bs"
  using byte1.fill_encoded [of bs] alloc_small [of "length bs" 1] by (simp add: concat_singles decodeInt8_def)

lemma decode_words16:
  assumes "24 * int (length vals) \<le> max_alloc"
  shows "decodeUint16 (concat (map (le_put 2) vals)) (int (length vals)) = Ok vals"
    "decodeInt16 (concat (map (le_put 2) vals)) (int (length vals)) = Ok vals"
    "decodeFP16 (concat (map (le_put 2) vals)) (int (length vals)) = Ok vals"
  using le16.fill_encoded [of vals] alloc_small [OF assms, of 2] encoded_fits [OF assms, of 2] le16.encoded_length [of vals]
  by (simp_all add: decoders Let_def)

lemma decode_words32:
  assumes "24 * int (length vals) \<le> max_alloc"
  shows "decodeUint32 (concat (map (le_put 4) vals)) (int (length vals)) = Ok vals"
    "decodeInt32 (concat (map (le_put 4) vals)) (int (length vals)) = Ok vals"
    "decodeFP32 (concat (map (le_put 4) vals)) (int (length vals)) = Ok vals"
  using le32.fill_encoded [of vals] alloc_small [OF assms, of 4] encoded_fits [OF assms, of 4] le32.encoded_length [of vals]
  by (simp_all add: decoders Let_def)

lemma decode_words64:
  assumes "24 * int (length vals) \<le> max_alloc"
  shows "decodeUint64 (concat (map (le_put 8) vals)) (int (length vals)) = Ok vals"
    "decodeInt64 (concat (map (le_put 8) vals)) (int (length vals)) = Ok vals"
    "decodeFP64 (concat (map (le_put 8) vals)) (int (length vals)) = Ok vals"
  using le64.fill_encoded [of vals] alloc_small [OF assms, of 8] encoded_fits [OF assms, of 8] le64.encoded_length [of vals]
  by (simp_all add: decoders Let_def)

lemma decode_strings:
  "24 * int (length vals) \<le> max_alloc \<Longrightarrow> list_all (\<lambda>v. length v < 2 ^ 32) vals \<Longrightarrow>
   decodeBytes (concat (map (\<lambda>v. le_put 4 (of_nat (length v) :: 32 word) @ v) vals)) (int (length vals)) = Ok vals"
  using bytes_loop_encoded [of vals "[]"] by (simp add: decodeBytes_def make_panics_def)

lemmas decode_encoded = decode_bools decode_unsigned_bytes decode_signed_bytes decode_words16 decode_words32 decode_words64 decode_strings

text \<open>
  C33. Decoding what was encoded gives the same tensor back, for every element type the encoder
  supports, when the shape has as many elements as the data, byte strings are shorter than
  \<open>2^32\<close>, and the result fits in memory.
\<close>

theorem tensor_roundtrip:
  assumes "EncodeTensor dt data = Ok raw" "num_elements shape = int (tensor_length data)"
    and "24 * int (tensor_length data) \<le> max_alloc" "prefix_fits data"
  shows "DecodeTensor dt raw shape = Ok data"
  using assms
  by (cases dt; cases data) (auto simp: EncodeTensor_def DecodeTensor_def encoders decode_encoded)

theorem tensor_roundtrip_witness:
  "EncodeTensor DatatypeINT16 (TInt16 [1, -2]) = Ok [1, 0, 254, 255] \<and>
   DecodeTensor DatatypeINT16 [1, 0, 254, 255] [2, 1] = Ok (TInt16 [1, -2])"
proof -
  have e: "EncodeTensor DatatypeINT16 (TInt16 [1, -2]) = Ok [1, 0, 254, 255]"
    by code_simp
  from tensor_roundtrip [OF e, of "[2, 1]"] e show ?thesis by (simp add: num_elements_def max_alloc_def wrap64_def)
qed

section \<open>Outcomes of the decoder\<close>














text \<open>
  The dimensions are not checked: a negative count passes the length test and the allocation
  panics, and dimensions whose product wraps to zero decode to an empty tensor.
\<close>

lemma negative_shape_panics: "DecodeTensor DatatypeBOOL [] [-1] = Panic"
  by (simp add: DecodeTensor_def num_elements_def wrap64_def decodeBool_def bool1.fill_negative)

lemma overflowing_shape_is_empty: "DecodeTensor DatatypeBOOL [1] [2 ^ 32, 2 ^ 32] = Ok (TBool [])"
  by (simp add: DecodeTensor_def num_elements_def wrap64_def decodeBool_def fill_def make_panics_def max_alloc_def)

end
