(* ===== verification/Flight_Recorder.thy ===== *)
theory Flight_Recorder
  imports Sha256
begin

text \<open>
  The four truth channels and the flight recorder of
  \<open>src/internal/evidence/channels/truth_channels.go\<close>: the records of the channels, their
  validation and sanitising, the bounded recorder that evicts the oldest correlation, the
  cross-channel invariants, and the sealing of a correlation with a root digest.

  The compiled regular expressions are the datatype \<open>pattern\<close>, and \<open>ReplaceAllString\<close> of the
  \<open>regexp\<close> package is the argument \<open>re\<close>. \<open>json.Marshal\<close> of the four channels is the record
  \<open>trace_lib\<close> (\<open>None\<close> where it returns an error). The recorder's mutex makes every method atomic.
\<close>

section \<open>Types\<close>

datatype TelemetryState = TelemetryStateNominal | TelemetryStateDegraded | TelemetryStateAnomalous
  | TelemetryStateCritical | TelemetryStateOther string

datatype ExecutionState = ExecutionStatePending | ExecutionStateRunning | ExecutionStateCompleted
  | ExecutionStateFailed | ExecutionStateHalted | ExecutionStateOther string

datatype DecisionDisposition = DispositionPass | DispositionDegrade | DispositionDeny_fr
  | DispositionQuarantine_fr | DispositionEscalate_fr | DispositionOther_fr string

datatype EvidenceState = EvidenceStateCommitted | EvidenceStateVerified | EvidenceStateRejected
  | EvidenceStateQuarantine | EvidenceStateOther string

datatype InvariantState = InvariantStateSatisfied | InvariantStateViolated | InvariantStateIndeterminate

datatype RecorderState = RecorderStateOperational | RecorderStateDegraded | RecorderStateSealed

datatype recorder_error = ErrEmptyCorrelation | ErrZeroSequence | ErrInvalidDigestFormat | ErrRecorderCapacity
  | ErrRecorderSealed | ErrCorrelationNotFound | ErrMarshalTrace

datatype pattern = piiSSN | piiCreditCard | piiEmail | piiIPv4 | secretBearer | secretKeyBlock | secretAPIKey

fun ExecutionState_string :: "ExecutionState \<Rightarrow> string" where
  "ExecutionState_string ExecutionStatePending = ''pending''"
| "ExecutionState_string ExecutionStateRunning = ''running''"
| "ExecutionState_string ExecutionStateCompleted = ''completed''"
| "ExecutionState_string ExecutionStateFailed = ''failed''"
| "ExecutionState_string ExecutionStateHalted = ''halted''"
| "ExecutionState_string (ExecutionStateOther s) = s"

fun DecisionDisposition_string :: "DecisionDisposition \<Rightarrow> string" where
  "DecisionDisposition_string DispositionPass = ''PASS''"
| "DecisionDisposition_string DispositionDegrade = ''DEGRADE''"
| "DecisionDisposition_string DispositionDeny_fr = ''DENY''"
| "DecisionDisposition_string DispositionQuarantine_fr = ''QUARANTINE''"
| "DecisionDisposition_string DispositionEscalate_fr = ''ESCALATE''"
| "DecisionDisposition_string (DispositionOther_fr s) = s"

record CorrelationContext =
  CorrelationID :: string
  WorkloadID :: string
  cc_TenantID :: string
  Timestamp :: gotime
  Sequence :: u64

record TelemetryRecord =
  tr_Context :: CorrelationContext
  MetricName :: string
  MetricValue :: real
  Unit :: string
  tr_State :: TelemetryState
  Labels :: "string \<rightharpoonup> string"

record ExecutionRecord =
  xr_Context :: CorrelationContext
  xr_Component :: string
  xr_Action :: string
  FromState :: ExecutionState
  ToState :: ExecutionState
  ResourceRef :: string
  xr_State :: ExecutionState

record DecisionRecord =
  dr_Context :: CorrelationContext
  PolicyID :: string
  RuleID :: string
  dr_Disposition :: DecisionDisposition
  EvaluatorAppraisal :: string
  FactsDigest :: string
  EvaluationLatencyMs :: int
  ReasonCode :: string

record EvidenceRecord_fr =
  er_Context :: CorrelationContext
  er_ReceiptID :: string
  er_SubjectDigest :: string
  ProducerSPIFFE :: string
  ProducerKeyDigest :: string
  er_State :: EvidenceState
  PreviousDigest :: string
  SignatureRef :: string

record CorrelatedFlightTraces =
  ct_CorrelationID :: string
  ct_Telemetry :: "TelemetryRecord list"
  ct_Execution :: "ExecutionRecord list"
  ct_Decision :: "DecisionRecord list"
  ct_Evidence :: "EvidenceRecord_fr list"
  ct_State :: InvariantState
  ct_Violations :: "string list"

record SealedFlightRecord =
  sl_CorrelationID :: string
  RootDigest :: string
  RecordCount :: int
  sl_State :: InvariantState
  SealedAt :: gotime
  ProducerID :: string

record FlightRecorder =
  fr_capacity :: int
  fr_producerID :: string
  fr_state :: RecorderState
  fr_order :: "string list"
  fr_seen :: "string set"
  fr_telemetry :: "string \<rightharpoonup> TelemetryRecord list"
  fr_execution :: "string \<rightharpoonup> ExecutionRecord list"
  fr_decision :: "string \<rightharpoonup> DecisionRecord list"
  fr_evidence :: "string \<rightharpoonup> EvidenceRecord_fr list"
  fr_sealed :: "string \<rightharpoonup> SealedFlightRecord"

record trace_lib =
  marshal_telemetry :: "TelemetryRecord list \<Rightarrow> string option"
  marshal_execution :: "ExecutionRecord list \<Rightarrow> string option"
  marshal_decision :: "DecisionRecord list \<Rightarrow> string option"
  marshal_evidence :: "EvidenceRecord_fr list \<Rightarrow> string option"

type_synonym regexps = "pattern \<Rightarrow> string \<Rightarrow> string \<Rightarrow> string"

section \<open>Sanitising and validation\<close>

definition RedactedMask :: string where
  "RedactedMask = ''__REDACTED__''"

definition SanitizeText :: "regexps \<Rightarrow> string \<Rightarrow> string" where
  "SanitizeText re s =
     (if s = '''' then s
      else let out = re piiSSN s RedactedMask;
               out = re piiCreditCard out RedactedMask;
               out = re piiEmail out RedactedMask;
               out = re piiIPv4 out RedactedMask;
               out = re secretBearer out RedactedMask;
               out = re secretKeyBlock out RedactedMask
           in re secretAPIKey out RedactedMask)"

definition SanitizeLabels :: "regexps \<Rightarrow> (string \<rightharpoonup> string) \<Rightarrow> (string \<rightharpoonup> string)" where
  "SanitizeLabels re labels = (\<lambda>k. map_option (SanitizeText re) (labels k))"

definition ValidateSHA256 :: "string \<Rightarrow> recorder_error option" where
  "ValidateSHA256 v =
     (if \<not> prefix ''sha256:'' v \<or> length v \<noteq> 7 + 32 * 2 then Some ErrInvalidDigestFormat
      else let raw = drop 7 v in
        if ascii_lower raw \<noteq> raw then Some ErrInvalidDigestFormat
        else if \<not> hex_decodable raw then Some ErrInvalidDigestFormat
        else None)"

definition validateContext :: "CorrelationContext \<Rightarrow> recorder_error option" where
  "validateContext c =
     (if blank (CorrelationID c) then Some ErrEmptyCorrelation
      else if Sequence c = 0 then Some ErrZeroSequence
      else None)"

section \<open>The recorder\<close>

definition NewFlightRecorder :: "int \<Rightarrow> string \<Rightarrow> recorder_error + FlightRecorder" where
  "NewFlightRecorder capacity producerID =
     (if capacity \<le> 0 then Inl ErrRecorderCapacity
      else Inr \<lparr>fr_capacity = capacity, fr_producerID = producerID, fr_state = RecorderStateOperational,
        fr_order = [], fr_seen = {}, fr_telemetry = Map.empty, fr_execution = Map.empty,
        fr_decision = Map.empty, fr_evidence = Map.empty, fr_sealed = Map.empty\<rparr>)"

definition touchCorrelationLocked :: "FlightRecorder \<Rightarrow> string \<Rightarrow> FlightRecorder" where
  "touchCorrelationLocked fr cid =
     (if cid \<in> fr_seen fr then fr
      else let fr = (if int (length (fr_order fr)) \<ge> fr_capacity fr
                 then (let evicted = hd (fr_order fr) in
                   fr\<lparr>fr_order := tl (fr_order fr), fr_seen := fr_seen fr - {evicted},
                      fr_telemetry := (fr_telemetry fr)(evicted := None),
                      fr_execution := (fr_execution fr)(evicted := None),
                      fr_decision := (fr_decision fr)(evicted := None),
                      fr_evidence := (fr_evidence fr)(evicted := None),
                      fr_sealed := (fr_sealed fr)(evicted := None)\<rparr>)
                 else fr)
           in fr\<lparr>fr_order := fr_order fr @ [cid], fr_seen := insert cid (fr_seen fr)\<rparr>)"

text \<open>
  Indexing a map of slices with a missing key gives the nil slice. The recording methods only store
  slices they have appended to, so the empty list stands for nil alone.
\<close>

definition entries :: "('k \<rightharpoonup> 'a list) \<Rightarrow> 'k \<Rightarrow> 'a list" where
  "entries m k = (case m k of None \<Rightarrow> [] | Some xs \<Rightarrow> xs)"

definition RecordTelemetry :: "regexps \<Rightarrow> TelemetryRecord \<Rightarrow> FlightRecorder \<Rightarrow> (FlightRecorder, recorder_error) result" where
  "RecordTelemetry re r fr =
     (case validateContext (tr_Context r) of Some e \<Rightarrow> (fr, Some e)
      | None \<Rightarrow>
        (let r = r\<lparr>Labels := SanitizeLabels re (Labels r), MetricName := SanitizeText re (MetricName r)\<rparr>;
             cid = CorrelationID (tr_Context r)
         in if fr_sealed fr cid \<noteq> None then (fr, Some ErrRecorderSealed)
            else let fr = touchCorrelationLocked fr cid
              in (fr\<lparr>fr_telemetry := (fr_telemetry fr)(cid \<mapsto> entries (fr_telemetry fr) cid @ [r])\<rparr>, None)))"

definition RecordExecution :: "regexps \<Rightarrow> ExecutionRecord \<Rightarrow> FlightRecorder \<Rightarrow> (FlightRecorder, recorder_error) result" where
  "RecordExecution re r fr =
     (case validateContext (xr_Context r) of Some e \<Rightarrow> (fr, Some e)
      | None \<Rightarrow>
        (let r = r\<lparr>xr_Action := SanitizeText re (xr_Action r), ResourceRef := SanitizeText re (ResourceRef r)\<rparr>;
             cid = CorrelationID (xr_Context r)
         in if fr_sealed fr cid \<noteq> None then (fr, Some ErrRecorderSealed)
            else let fr = touchCorrelationLocked fr cid
              in (fr\<lparr>fr_execution := (fr_execution fr)(cid \<mapsto> entries (fr_execution fr) cid @ [r])\<rparr>, None)))"

definition RecordDecision :: "regexps \<Rightarrow> DecisionRecord \<Rightarrow> FlightRecorder \<Rightarrow> (FlightRecorder, recorder_error) result" where
  "RecordDecision re r fr =
     (case validateContext (dr_Context r) of Some e \<Rightarrow> (fr, Some e)
      | None \<Rightarrow> (case ValidateSHA256 (FactsDigest r) of Some e \<Rightarrow> (fr, Some e)
      | None \<Rightarrow>
        (let r = r\<lparr>EvaluatorAppraisal := SanitizeText re (EvaluatorAppraisal r), ReasonCode := SanitizeText re (ReasonCode r)\<rparr>;
             cid = CorrelationID (dr_Context r)
         in if fr_sealed fr cid \<noteq> None then (fr, Some ErrRecorderSealed)
            else let fr = touchCorrelationLocked fr cid
              in (fr\<lparr>fr_decision := (fr_decision fr)(cid \<mapsto> entries (fr_decision fr) cid @ [r])\<rparr>, None))))"

definition evidence_digests_error :: "EvidenceRecord_fr \<Rightarrow> recorder_error option" where
  "evidence_digests_error r =
     (case ValidateSHA256 (er_SubjectDigest r) of Some e \<Rightarrow> Some e
      | None \<Rightarrow> (case ValidateSHA256 (ProducerKeyDigest r) of Some e \<Rightarrow> Some e
      | None \<Rightarrow> (if PreviousDigest r \<noteq> '''' then ValidateSHA256 (PreviousDigest r) else None)))"

definition RecordEvidence :: "EvidenceRecord_fr \<Rightarrow> FlightRecorder \<Rightarrow> (FlightRecorder, recorder_error) result" where
  "RecordEvidence r fr =
     (case validateContext (er_Context r) of Some e \<Rightarrow> (fr, Some e)
      | None \<Rightarrow> (case evidence_digests_error r of Some e \<Rightarrow> (fr, Some e)
      | None \<Rightarrow>
        (let cid = CorrelationID (er_Context r)
         in if fr_sealed fr cid \<noteq> None then (fr, Some ErrRecorderSealed)
            else let fr = touchCorrelationLocked fr cid
              in (fr\<lparr>fr_evidence := (fr_evidence fr)(cid \<mapsto> entries (fr_evidence fr) cid @ [r])\<rparr>, None))))"

section \<open>Cross-channel invariants\<close>

definition was_active :: "ExecutionRecord \<Rightarrow> bool" where
  "was_active e \<longleftrightarrow> xr_State e = ExecutionStateRunning \<or> xr_State e = ExecutionStateCompleted"

definition checkAntiExecute :: "DecisionRecord list \<Rightarrow> ExecutionRecord list \<Rightarrow> string list" where
  "checkAntiExecute decs execs = concat (map (\<lambda>d.
     if dr_Disposition d = DispositionDeny_fr \<or> dr_Disposition d = DispositionQuarantine_fr
     then concat (map (\<lambda>e.
       if (Timestamp (xr_Context e) > Timestamp (dr_Context d) \<or> Timestamp (xr_Context e) = Timestamp (dr_Context d)) \<and> was_active e
       then [''anti_execute: '' @ xr_Component e @ '' reached '' @ ExecutionState_string (xr_State e) @
             '' after '' @ DecisionDisposition_string (dr_Disposition d)]
       else []) execs)
     else []) decs)"

definition checkActiveUntrusted :: "ExecutionRecord list \<Rightarrow> EvidenceRecord_fr list \<Rightarrow> string list" where
  "checkActiveUntrusted execs evs = concat (map (\<lambda>ev.
     if er_State ev = EvidenceStateRejected \<or> er_State ev = EvidenceStateQuarantine
     then concat (map (\<lambda>e.
       if was_active e then [''active_untrusted: active '' @ xr_Component e @ '' with untrusted evidence '' @ er_ReceiptID ev]
       else []) execs)
     else []) evs)"

definition checkDecisionPrecedence :: "DecisionRecord list \<Rightarrow> ExecutionRecord list \<Rightarrow> string list" where
  "checkDecisionPrecedence decs execs = concat (map (\<lambda>e.
     if xr_State e = ExecutionStateCompleted \<and> length decs = 0
     then [''decision_missing: '' @ xr_Component e @ '' completed without decision''] else []) execs)"

definition checkEvidenceChaining :: "EvidenceRecord_fr list \<Rightarrow> string list" where
  "checkEvidenceChaining evs = concat (map (\<lambda>(i, ev).
     (if i = 0 \<and> PreviousDigest ev \<noteq> ''''
      then [''chain_break: root '' @ er_ReceiptID ev @ '' specifies previousDigest''] else []) @
     (if i > 0 \<and> PreviousDigest ev \<noteq> er_SubjectDigest (evs ! (i - 1))
      then [''chain_break: '' @ er_ReceiptID ev @ '' previousDigest mismatch''] else [])) (enumerate 0 evs))"

definition verifyInvariantsLocked :: "FlightRecorder \<Rightarrow> string \<Rightarrow> InvariantState \<times> string list" where
  "verifyInvariantsLocked fr cid =
     (let decs = entries (fr_decision fr) cid; execs = entries (fr_execution fr) cid; evs = entries (fr_evidence fr) cid;
          violations = checkAntiExecute decs execs @ checkActiveUntrusted execs evs @
            checkDecisionPrecedence decs execs @ checkEvidenceChaining evs
      in if length violations > 0 then (InvariantStateViolated, violations) else (InvariantStateSatisfied, []))"

definition VerifyInvariants :: "FlightRecorder \<Rightarrow> string \<Rightarrow> InvariantState \<times> string list \<times> recorder_error option" where
  "VerifyInvariants fr cid =
     (if cid \<notin> fr_seen fr then (InvariantStateIndeterminate, [], Some ErrCorrelationNotFound)
      else let (state, violations) = verifyInvariantsLocked fr cid in (state, violations, None))"

definition Correlate :: "FlightRecorder \<Rightarrow> string \<Rightarrow> recorder_error + CorrelatedFlightTraces" where
  "Correlate fr cid =
     (if cid \<notin> fr_seen fr then Inl ErrCorrelationNotFound
      else let (invState, violations) = verifyInvariantsLocked fr cid
        in Inr \<lparr>ct_CorrelationID = cid, ct_Telemetry = entries (fr_telemetry fr) cid,
          ct_Execution = entries (fr_execution fr) cid, ct_Decision = entries (fr_decision fr) cid,
          ct_Evidence = entries (fr_evidence fr) cid, ct_State = invState, ct_Violations = violations\<rparr>)"

section \<open>Sealing\<close>

definition computeRootDigestLocked :: "trace_lib \<Rightarrow> FlightRecorder \<Rightarrow> string \<Rightarrow> recorder_error + string \<times> int" where
  "computeRootDigestLocked lib fr cid =
     (let te = entries (fr_telemetry fr) cid; ex = entries (fr_execution fr) cid;
          de = entries (fr_decision fr) cid; ev = entries (fr_evidence fr) cid
      in case those [marshal_telemetry lib te, marshal_execution lib ex, marshal_decision lib de, marshal_evidence lib ev] of
           None \<Rightarrow> Inl ErrMarshalTrace
         | Some payloads \<Rightarrow> Inr (''sha256:'' @ sha256_hex (concat payloads),
             int (length te + length ex + length de + length ev)))"

definition Seal :: "trace_lib \<Rightarrow> gotime \<Rightarrow> string \<Rightarrow> FlightRecorder \<Rightarrow> FlightRecorder \<times> (recorder_error + SealedFlightRecord)" where
  "Seal lib now cid fr =
     (case fr_sealed fr cid of Some s \<Rightarrow> (fr, Inr s)
      | None \<Rightarrow>
        if cid \<notin> fr_seen fr then (fr, Inl ErrCorrelationNotFound)
        else (case computeRootDigestLocked lib fr cid of
            Inl e \<Rightarrow> (fr, Inl e)
          | Inr (digest, count) \<Rightarrow>
            (let s = \<lparr>sl_CorrelationID = cid, RootDigest = digest, RecordCount = count,
                      sl_State = fst (verifyInvariantsLocked fr cid), SealedAt = now, ProducerID = fr_producerID fr\<rparr>
             in (fr\<lparr>fr_sealed := (fr_sealed fr)(cid \<mapsto> s)\<rparr>, Inr s))))"

definition State_fr :: "FlightRecorder \<Rightarrow> RecorderState" where
  "State_fr fr = fr_state fr"

section \<open>Invariant\<close>

definition channel_keys :: "FlightRecorder \<Rightarrow> string set" where
  "channel_keys fr = dom (fr_telemetry fr) \<union> dom (fr_execution fr) \<union> dom (fr_decision fr) \<union> dom (fr_evidence fr)"

definition recorder_inv :: "FlightRecorder \<Rightarrow> bool" where
  "recorder_inv fr \<longleftrightarrow> 0 < fr_capacity fr \<and> int (length (fr_order fr)) \<le> fr_capacity fr \<and> distinct (fr_order fr) \<and>
     fr_seen fr = set (fr_order fr) \<and> channel_keys fr \<subseteq> fr_seen fr \<and> dom (fr_sealed fr) \<subseteq> fr_seen fr"

text \<open>Two recorders agree on the channels of a correlation.\<close>

definition same_traces :: "string \<Rightarrow> FlightRecorder \<Rightarrow> FlightRecorder \<Rightarrow> bool" where
  "same_traces c fr fr' \<longleftrightarrow> fr_telemetry fr' c = fr_telemetry fr c \<and> fr_execution fr' c = fr_execution fr c \<and>
     fr_decision fr' c = fr_decision fr c \<and> fr_evidence fr' c = fr_evidence fr c"

text \<open>A sealed record commits to what the channels hold: digest, count and verdict.\<close>

definition commits :: "trace_lib \<Rightarrow> FlightRecorder \<Rightarrow> string \<Rightarrow> SealedFlightRecord \<Rightarrow> bool" where
  "commits lib fr cid s \<longleftrightarrow> computeRootDigestLocked lib fr cid = Inr (RootDigest s, RecordCount s) \<and>
     sl_State s = fst (verifyInvariantsLocked fr cid) \<and> sl_CorrelationID s = cid \<and> ProducerID s = fr_producerID fr"

definition sealed_sound :: "trace_lib \<Rightarrow> FlightRecorder \<Rightarrow> bool" where
  "sealed_sound lib fr \<longleftrightarrow> (\<forall>cid s. fr_sealed fr cid = Some s \<longrightarrow> commits lib fr cid s)"

lemma sealed_soundD: "sealed_sound lib fr \<Longrightarrow> fr_sealed fr cid = Some s \<Longrightarrow> commits lib fr cid s"
  by (simp add: sealed_sound_def)

lemma commits_same:
  assumes "same_traces cid fr fr'" "fr_producerID fr' = fr_producerID fr"
  shows "commits lib fr' cid s = commits lib fr cid s"
  using assms by (simp add: commits_def same_traces_def computeRootDigestLocked_def verifyInvariantsLocked_def entries_def)

lemma touch_inv:
  assumes "recorder_inv fr"
  shows "recorder_inv (touchCorrelationLocked fr cid)" "cid \<in> fr_seen (touchCorrelationLocked fr cid)"
proof -
  show "recorder_inv (touchCorrelationLocked fr cid)"
    using assms
    by (cases "fr_order fr") (auto simp: recorder_inv_def touchCorrelationLocked_def channel_keys_def Let_def split: if_splits)
  show "cid \<in> fr_seen (touchCorrelationLocked fr cid)" by (simp add: touchCorrelationLocked_def Let_def)
qed

lemma touch_frame:
  "fr_producerID (touchCorrelationLocked fr cid) = fr_producerID fr"
  "fr_capacity (touchCorrelationLocked fr cid) = fr_capacity fr"
  "fr_state (touchCorrelationLocked fr cid) = fr_state fr"
  "fr_sealed (touchCorrelationLocked fr cid) c = Some s \<Longrightarrow> fr_sealed fr c = Some s \<and> same_traces c fr (touchCorrelationLocked fr cid)"
  by (auto simp: touchCorrelationLocked_def same_traces_def Let_def split: if_splits)

lemma touch_sealed:
  "fr_sealed fr c = Some s \<Longrightarrow> fr_sealed (touchCorrelationLocked fr cid) c = Some s \<or>
     (cid \<notin> fr_seen fr \<and> fr_capacity fr \<le> int (length (fr_order fr)) \<and> c = hd (fr_order fr))"
  by (auto simp: touchCorrelationLocked_def Let_def)

text \<open>What a write to a channel may change: the entry of its own correlation.\<close>

definition appended :: "string \<Rightarrow> FlightRecorder \<Rightarrow> FlightRecorder \<Rightarrow> bool" where
  "appended cid fr fr' \<longleftrightarrow> fr_capacity fr' = fr_capacity fr \<and> fr_producerID fr' = fr_producerID fr \<and>
     fr_state fr' = fr_state fr \<and> fr_order fr' = fr_order fr \<and> fr_seen fr' = fr_seen fr \<and> fr_sealed fr' = fr_sealed fr \<and>
     (\<forall>c. c \<noteq> cid \<longrightarrow> same_traces c fr fr') \<and> channel_keys fr' \<subseteq> insert cid (channel_keys fr)"

text \<open>The contract that the four recording methods share.\<close>

locale channel_writer =
  fixes rec_op :: "'r \<Rightarrow> FlightRecorder \<Rightarrow> (FlightRecorder, recorder_error) result"
    and cid_of :: "'r \<Rightarrow> string"
  assumes refuse: "snd (rec_op r fr) \<noteq> None \<Longrightarrow> fst (rec_op r fr) = fr"
    and accept: "snd (rec_op r fr) = None \<Longrightarrow> fr_sealed fr (cid_of r) = None \<and>
      appended (cid_of r) (touchCorrelationLocked fr (cid_of r)) (fst (rec_op r fr))"
begin

lemma write_inv:
  assumes "recorder_inv fr"
  shows "recorder_inv (fst (rec_op r fr))"
proof (cases "snd (rec_op r fr) = None")
  case True
  with accept [OF True] touch_inv [OF assms, of "cid_of r"] show ?thesis by (auto simp: appended_def recorder_inv_def)
next
  case False
  with refuse assms show ?thesis by simp
qed

lemma write_sound:
  assumes "sealed_sound lib fr"
  shows "sealed_sound lib (fst (rec_op r fr))"
proof (cases "snd (rec_op r fr) = None")
  case True
  let ?t = "touchCorrelationLocked fr (cid_of r)" and ?w = "fst (rec_op r fr)"
  have a: "fr_sealed fr (cid_of r) = None" "appended (cid_of r) ?t ?w" using accept [OF True] by auto
  have "commits lib ?w c s" if "fr_sealed ?w c = Some s" for c s
  proof -
    have t: "fr_sealed ?t c = Some s" using that a(2) by (simp add: appended_def)
    from touch_frame(4) [OF t] have old: "fr_sealed fr c = Some s" "same_traces c fr ?t" by auto
    then have "c \<noteq> cid_of r" using a(1) by auto
    then have "same_traces c ?t ?w" "fr_producerID ?w = fr_producerID ?t" using a(2) by (simp_all add: appended_def)
    then show ?thesis using commits_same [of c ?t ?w lib s] commits_same [OF old(2), of lib s] sealed_soundD [OF assms old(1)]
      by (simp add: touch_frame(1))
  qed
  then show ?thesis by (simp add: sealed_sound_def)
next
  case False
  with refuse assms show ?thesis by simp
qed

lemma write_sealed:
  assumes "fr_sealed fr c = Some s"
  shows "fr_sealed (fst (rec_op r fr)) c = Some s \<and> same_traces c fr (fst (rec_op r fr)) \<or>
    (cid_of r \<notin> fr_seen fr \<and> fr_capacity fr \<le> int (length (fr_order fr)) \<and> c = hd (fr_order fr))"
proof (cases "snd (rec_op r fr) = None")
  case True
  let ?t = "touchCorrelationLocked fr (cid_of r)"
  have a: "fr_sealed fr (cid_of r) = None" "appended (cid_of r) ?t (fst (rec_op r fr))" using accept [OF True] by auto
  then have "c \<noteq> cid_of r" using assms by auto
  with a(2) touch_sealed [OF assms, of "cid_of r"] touch_frame(4) [of fr "cid_of r" c s] show ?thesis
    by (auto simp: appended_def same_traces_def)
next
  case False
  with refuse assms show ?thesis by (simp add: same_traces_def)
qed

lemma write_config:
  "fr_capacity (fst (rec_op r fr)) = fr_capacity fr \<and> fr_state (fst (rec_op r fr)) = fr_state fr"
  using accept [of r fr] refuse [of r fr] touch_frame(2,3) [of fr "cid_of r"]
  by (cases "snd (rec_op r fr) = None") (auto simp: appended_def)

lemma write_refused: "fr_sealed fr (cid_of r) = Some s \<Longrightarrow> fst (rec_op r fr) = fr \<and> snd (rec_op r fr) \<noteq> None"
  using accept [of r fr] refuse [of r fr] by auto

end

lemmas appended_defs = appended_def same_traces_def channel_keys_def Let_def

interpretation telemetry: channel_writer "RecordTelemetry re" "\<lambda>r. CorrelationID (tr_Context r)"
  by unfold_locales (auto simp: RecordTelemetry_def appended_defs split: option.splits if_splits)

interpretation execution: channel_writer "RecordExecution re" "\<lambda>r. CorrelationID (xr_Context r)"
  by unfold_locales (auto simp: RecordExecution_def appended_defs split: option.splits if_splits)

interpretation decision_channel: channel_writer "RecordDecision re" "\<lambda>r. CorrelationID (dr_Context r)"
  by unfold_locales (auto simp: RecordDecision_def appended_defs split: option.splits if_splits)

interpretation evidence: channel_writer RecordEvidence "\<lambda>r. CorrelationID (er_Context r)"
  by unfold_locales (auto simp: RecordEvidence_def appended_defs split: option.splits if_splits)

section \<open>Histories\<close>

datatype recorder_op = OpTelemetry TelemetryRecord | OpExecution ExecutionRecord | OpDecision DecisionRecord
  | OpEvidence EvidenceRecord_fr | OpSeal gotime string


fun recorder_step :: "regexps \<Rightarrow> trace_lib \<Rightarrow> recorder_op \<Rightarrow> FlightRecorder \<Rightarrow> FlightRecorder" where
  "recorder_step re lib (OpTelemetry r) fr = fst (RecordTelemetry re r fr)"
| "recorder_step re lib (OpExecution r) fr = fst (RecordExecution re r fr)"
| "recorder_step re lib (OpDecision r) fr = fst (RecordDecision re r fr)"
| "recorder_step re lib (OpEvidence r) fr = fst (RecordEvidence r fr)"
| "recorder_step re lib (OpSeal now cid) fr = fst (Seal lib now cid fr)"

definition recorder_run :: "regexps \<Rightarrow> trace_lib \<Rightarrow> recorder_op list \<Rightarrow> FlightRecorder \<Rightarrow> FlightRecorder" where
  "recorder_run re lib ops fr = fold (recorder_step re lib) ops fr"

lemma Seal_inv: "recorder_inv fr \<Longrightarrow> recorder_inv (fst (Seal lib now cid fr))"
  by (auto simp: Seal_def recorder_inv_def channel_keys_def Let_def split: option.splits sum.splits prod.splits)

lemma commits_seal [simp]: "commits lib (fr\<lparr>fr_sealed := x\<rparr>) c s = commits lib fr c s"
  by (rule commits_same) (simp_all add: same_traces_def)

lemma Seal_sound:
  assumes "sealed_sound lib fr"
  shows "sealed_sound lib (fst (Seal lib now cid fr))"
proof (cases "fr_sealed fr cid = None \<and> cid \<in> fr_seen fr")
  case True
  show ?thesis
  proof (cases "computeRootDigestLocked lib fr cid")
    case (Inr dc)
    obtain digest count where dc: "dc = (digest, count)" by fastforce
    let ?s = "\<lparr>sl_CorrelationID = cid, RootDigest = digest, RecordCount = count,
        sl_State = fst (verifyInvariantsLocked fr cid), SealedAt = now, ProducerID = fr_producerID fr\<rparr>"
    have "commits lib fr cid ?s" using Inr dc by (simp add: commits_def)
    moreover have "fst (Seal lib now cid fr) = fr\<lparr>fr_sealed := (fr_sealed fr)(cid \<mapsto> ?s)\<rparr>"
      using True Inr dc by (simp add: Seal_def Let_def)
    ultimately show ?thesis using assms by (simp add: sealed_sound_def)
  qed (use True assms in \<open>simp add: Seal_def\<close>)
qed (use assms in \<open>auto simp: Seal_def split: option.splits\<close>)


lemma step_inv: "recorder_inv fr \<Longrightarrow> recorder_inv (recorder_step re lib op fr)"
  by (cases op) (simp_all add: telemetry.write_inv execution.write_inv decision_channel.write_inv evidence.write_inv Seal_inv)

lemma step_sound: "sealed_sound lib fr \<Longrightarrow> sealed_sound lib (recorder_step re lib op fr)"
  by (cases op) (simp_all add: telemetry.write_sound execution.write_sound decision_channel.write_sound
      evidence.write_sound Seal_sound)


lemma run_inv: "recorder_inv fr \<Longrightarrow> sealed_sound lib fr \<Longrightarrow>
    recorder_inv (recorder_run re lib ops fr) \<and> sealed_sound lib (recorder_run re lib ops fr)"
  unfolding recorder_run_def by (induction ops arbitrary: fr) (simp_all add: step_inv step_sound)

lemma new_inv:
  "NewFlightRecorder capacity producer = Inr fr \<Longrightarrow> recorder_inv fr \<and> sealed_sound lib fr"
  by (auto simp: NewFlightRecorder_def recorder_inv_def channel_keys_def sealed_sound_def split: if_splits)

lemma step_config:
  "fr_capacity (recorder_step re lib op fr) = fr_capacity fr \<and> fr_state (recorder_step re lib op fr) = fr_state fr"
  by (cases op) (auto simp: telemetry.write_config execution.write_config decision_channel.write_config
      evidence.write_config Seal_def Let_def split: option.splits sum.splits prod.splits)

lemma run_config:
  "fr_capacity (recorder_run re lib ops fr) = fr_capacity fr \<and> fr_state (recorder_run re lib ops fr) = fr_state fr"
  unfolding recorder_run_def by (induction ops arbitrary: fr) (simp_all add: step_config)

text \<open>The state of a recorder is set when it is made and never again, whatever it has sealed.\<close>

lemma recorder_always_operational:
  "NewFlightRecorder capacity producer = Inr fr0 \<Longrightarrow> State_fr (recorder_run re lib ops fr0) = RecorderStateOperational"
  using run_config [of re lib ops fr0] by (auto simp: State_fr_def NewFlightRecorder_def split: if_splits)

text \<open>
  Under any sequence of recordings and seals a recorder stays within its capacity: it keeps
  at most that many correlations, each once, in the order of their first record, and no channel
  entry or seal of a correlation it does not keep.
\<close>

lemma recorder_bounded:
  assumes "NewFlightRecorder capacity producer = Inr fr0"
  shows "let fr = recorder_run re lib ops fr0 in
    int (length (fr_order fr)) \<le> capacity \<and> distinct (fr_order fr) \<and> fr_seen fr = set (fr_order fr) \<and>
    channel_keys fr \<subseteq> fr_seen fr \<and> dom (fr_sealed fr) \<subseteq> fr_seen fr"
proof -
  have "fr_capacity fr0 = capacity" using assms by (auto simp: NewFlightRecorder_def split: if_splits)
  moreover have "recorder_inv (recorder_run re lib ops fr0)"
    using run_inv [of fr0 lib re ops] new_inv [OF assms, of lib] by blast
  ultimately show ?thesis using run_config [of re lib ops fr0] unfolding Let_def recorder_inv_def by metis
qed


section \<open>Verdicts\<close>

definition chained :: "EvidenceRecord_fr list \<Rightarrow> bool" where
  "chained evs \<longleftrightarrow> (\<forall>i < length evs. PreviousDigest (evs ! i) = (if i = 0 then '''' else er_SubjectDigest (evs ! (i - 1))))"

lemma concat_map_Nil: "concat (map f xs) = [] \<longleftrightarrow> (\<forall>x \<in> set xs. f x = [])"
  by (induction xs) simp_all

lemma not_before: "(d < e \<or> e = d) \<longleftrightarrow> \<not> e < (d :: int)"
  by linarith

lemma antiExecute_Nil:
  "checkAntiExecute decs execs = [] \<longleftrightarrow>
     (\<forall>d \<in> set decs. \<forall>e \<in> set execs. dr_Disposition d \<in> {DispositionDeny_fr, DispositionQuarantine_fr} \<longrightarrow>
        was_active e \<longrightarrow> Timestamp (xr_Context e) < Timestamp (dr_Context d))"
  by (auto simp: checkAntiExecute_def concat_map_Nil not_before simp del: concat_eq_Nil_conv)

lemma activeUntrusted_Nil:
  "checkActiveUntrusted execs evs = [] \<longleftrightarrow>
     (\<forall>ev \<in> set evs. er_State ev \<in> {EvidenceStateRejected, EvidenceStateQuarantine} \<longrightarrow> (\<forall>e \<in> set execs. \<not> was_active e))"
  by (auto simp: checkActiveUntrusted_def concat_map_Nil simp del: concat_eq_Nil_conv)

lemma decisionPrecedence_Nil:
  "checkDecisionPrecedence decs execs = [] \<longleftrightarrow> decs \<noteq> [] \<or> (\<forall>e \<in> set execs. xr_State e \<noteq> ExecutionStateCompleted)"
  by (auto simp: checkDecisionPrecedence_def concat_map_Nil simp del: concat_eq_Nil_conv)

lemma evidenceChaining_Nil: "checkEvidenceChaining evs = [] \<longleftrightarrow> chained evs"
proof -
  have "checkEvidenceChaining evs = [] \<longleftrightarrow> (\<forall>p \<in> set (enumerate 0 evs).
      PreviousDigest (snd p) = (if fst p = 0 then '''' else er_SubjectDigest (evs ! (fst p - 1))))"
    unfolding checkEvidenceChaining_def concat_map_Nil by (intro ball_cong refl) (auto split: prod.split)
  also have "\<dots> \<longleftrightarrow> chained evs"
    unfolding chained_def all_set_conv_all_nth by (simp add: nth_enumerate_eq)
  finally show ?thesis .
qed

text \<open>
  C37. The verdict on a correlation: an unknown one is indeterminate with the error; a known one
  is satisfied exactly when nothing ran at or after a denial or quarantine, nothing ran with
  rejected or quarantined evidence, nothing completed without any decision, and the evidence forms
  a chain from an empty previous digest; otherwise it is violated and lists at least one violation.
  \<open>Correlate\<close> reports the same verdict with the channels as recorded.
\<close>

theorem VerifyInvariants_spec:
  "let decs = entries (fr_decision fr) cid; execs = entries (fr_execution fr) cid; evs = entries (fr_evidence fr) cid;
       (state, violations, err) = VerifyInvariants fr cid;
       ok = ((\<forall>d \<in> set decs. \<forall>e \<in> set execs. dr_Disposition d \<in> {DispositionDeny_fr, DispositionQuarantine_fr} \<longrightarrow>
               was_active e \<longrightarrow> Timestamp (xr_Context e) < Timestamp (dr_Context d)) \<and>
             (\<forall>ev \<in> set evs. er_State ev \<in> {EvidenceStateRejected, EvidenceStateQuarantine} \<longrightarrow> (\<forall>e \<in> set execs. \<not> was_active e)) \<and>
             (decs \<noteq> [] \<or> (\<forall>e \<in> set execs. xr_State e \<noteq> ExecutionStateCompleted)) \<and> chained evs)
   in if cid \<notin> fr_seen fr then state = InvariantStateIndeterminate \<and> err = Some ErrCorrelationNotFound \<and>
        Correlate fr cid = Inl ErrCorrelationNotFound
      else err = None \<and> state = (if ok then InvariantStateSatisfied else InvariantStateViolated) \<and>
        (ok \<longleftrightarrow> violations = []) \<and>
        (\<exists>ct. Correlate fr cid = Inr ct \<and> ct_State ct = state \<and> ct_Violations ct = violations \<and>
           ct_Execution ct = execs \<and> ct_Decision ct = decs \<and> ct_Evidence ct = evs)"
  unfolding antiExecute_Nil [symmetric] activeUntrusted_Nil [symmetric] decisionPrecedence_Nil [symmetric] evidenceChaining_Nil [symmetric]
  by (simp add: VerifyInvariants_def Correlate_def verifyInvariantsLocked_def Let_def split: prod.split)

section \<open>A concrete history\<close>

definition sample_re :: regexps where
  "sample_re p s m = s"

definition sample_trace_lib :: trace_lib where
  "sample_trace_lib = \<lparr>marshal_telemetry = (\<lambda>rs. Some ''t''), marshal_execution = (\<lambda>rs. Some ''x''),
     marshal_decision = (\<lambda>rs. Some ''d''), marshal_evidence = (\<lambda>rs. Some ''e'')\<rparr>"

definition sample_execution :: "string \<Rightarrow> ExecutionRecord" where
  "sample_execution cid = \<lparr>xr_Context = \<lparr>CorrelationID = cid, WorkloadID = ''w'', cc_TenantID = '''', Timestamp = 5, Sequence = 1\<rparr>,
     xr_Component = ''c'', xr_Action = ''a'', FromState = ExecutionStatePending, ToState = ExecutionStateRunning,
     ResourceRef = ''r'', xr_State = ExecutionStateCompleted\<rparr>"

definition sample_recorder :: FlightRecorder where
  "sample_recorder = \<lparr>fr_capacity = 1, fr_producerID = ''p'', fr_state = RecorderStateOperational, fr_order = [],
     fr_seen = {}, fr_telemetry = Map.empty, fr_execution = Map.empty, fr_decision = Map.empty,
     fr_evidence = Map.empty, fr_sealed = Map.empty\<rparr>"


lemma sample_context: "validateContext (xr_Context (sample_execution ''a'')) = None"
  by (simp add: validateContext_def sample_execution_def blank.simps ws_rune_def)


text \<open>A completed execution without any decision is a violation.\<close>

theorem VerifyInvariants_spec_witness:
  "fst (VerifyInvariants (recorder_run sample_re sample_trace_lib [OpExecution (sample_execution ''a'')] sample_recorder) ''a'') =
     InvariantStateViolated"
proof -
  let ?fr = "recorder_run sample_re sample_trace_lib [OpExecution (sample_execution ''a'')] sample_recorder"
  have cid: "CorrelationID (xr_Context (sample_execution ''a'')) = ''a''" by (simp add: sample_execution_def)
  let ?e = "(sample_execution ''a'')\<lparr>xr_Action := SanitizeText sample_re ''a'', ResourceRef := SanitizeText sample_re ''r''\<rparr>"
  have "entries (fr_decision ?fr) ''a'' = []" "entries (fr_evidence ?fr) ''a'' = []" "''a'' \<in> fr_seen ?fr"
    "entries (fr_execution ?fr) ''a'' = [?e]"
    by (simp_all add: recorder_run_def RecordExecution_def sample_context cid sample_recorder_def touchCorrelationLocked_def
        entries_def Let_def) (simp_all add: sample_execution_def)
  moreover have "xr_State ?e = ExecutionStateCompleted" by (simp add: sample_execution_def)
  ultimately show ?thesis using VerifyInvariants_spec [of ?fr "''a''"]
    by (simp add: Let_def split: prod.splits)
qed

end
