(* ===== verification/Resilience.thy ===== *)
theory Resilience
  imports Float64
begin

text \<open>
  The resilience patterns of inference routing in \<open>src/internal/gateway/resilience.go\<close>: the circuit
  breaker, the bulkhead, the retry delay and the fallback router.

  The counters of the breaker are \<open>int32\<close> and wrap. The methods hold the breaker's mutex, so a
  history is a sequence of calls, each with its reading of the clock. A bulkhead is its buffered
  channel, that is the capacity and the number of buffered elements: \<open>make\<close> with a negative size
  panics and a receive from the empty channel blocks, both are \<open>None\<close>.
\<close>

section \<open>Configuration\<close>

record CircuitBreakerConfig =
  FailureThreshold :: int
  SuccessThreshold :: int
  cb_Timeout :: duration

record RetryConfig =
  MaxRetries :: int
  BaseBackoff :: duration
  MaxBackoff :: duration

record BulkheadConfig =
  MaxConcurrent :: int

record HedgingConfig =
  hg_Enabled :: bool
  HedgeDelay :: duration

record TimeoutCascadeConfig =
  tc_Client :: duration
  tc_Gateway :: duration
  tc_Inference :: duration

record ResiliencePolicy =
  rp_CircuitBreaker :: "CircuitBreakerConfig option"
  rp_Retry :: "RetryConfig option"
  rp_Bulkhead :: "BulkheadConfig option"
  rp_Hedging :: "HedgingConfig option"
  rp_TimeoutCascade :: "TimeoutCascadeConfig option"
  rp_FallbackModel :: string

definition second :: duration where
  "second = 10 ^ 9"

definition millisecond :: duration where
  "millisecond = 10 ^ 6"

definition DefaultResiliencePolicy :: ResiliencePolicy where
  "DefaultResiliencePolicy =
     \<lparr>rp_CircuitBreaker = Some \<lparr>FailureThreshold = 5, SuccessThreshold = 3, cb_Timeout = 30 * second\<rparr>,
      rp_Retry = Some \<lparr>MaxRetries = 3, BaseBackoff = 100 * millisecond, MaxBackoff = 10 * second\<rparr>,
      rp_Bulkhead = Some \<lparr>MaxConcurrent = 100\<rparr>,
      rp_Hedging = Some \<lparr>hg_Enabled = False, HedgeDelay = 0\<rparr>,
      rp_TimeoutCascade = Some \<lparr>tc_Client = 30 * second, tc_Gateway = 25 * second, tc_Inference = 20 * second\<rparr>,
      rp_FallbackModel = ''''\<rparr>"

section \<open>Circuit breaker\<close>

datatype CircuitState = StateClosed | StateOpen | StateHalfOpen

record CircuitBreaker =
  cb_config :: CircuitBreakerConfig
  cb_state :: CircuitState
  failures :: int
  successes :: int
  lastFailureTime :: gotime
  halfOpenProbe :: bool





definition State_cb :: "CircuitBreaker \<Rightarrow> CircuitState" where
  "State_cb cb = cb_state cb"

section \<open>Bulkhead\<close>

record Bulkhead =
  sem_cap :: int
  sem_len :: int

definition NewBulkhead :: "int \<Rightarrow> Bulkhead option" where
  "NewBulkhead maxConcurrent = (if maxConcurrent < 0 then None else Some \<lparr>sem_cap = maxConcurrent, sem_len = 0\<rparr>)"

text \<open>When the channel has room and the context is done, \<open>select\<close> may take either case: \<open>pick\<close> says which.\<close>

definition Acquire :: "bool \<Rightarrow> bool \<Rightarrow> Bulkhead \<Rightarrow> Bulkhead \<times> bool" where
  "Acquire ctx_done pick b =
     (if sem_len b < sem_cap b \<and> (\<not> ctx_done \<or> pick) then (b\<lparr>sem_len := sem_len b + 1\<rparr>, True)
      else (b, False))"

definition Release :: "Bulkhead \<Rightarrow> Bulkhead option" where
  "Release b = (if sem_len b > 0 then Some (b\<lparr>sem_len := sem_len b - 1\<rparr>) else None)"

definition ActiveCount :: "Bulkhead \<Rightarrow> int" where
  "ActiveCount b = sem_len b"

section \<open>Retry delay, fallback and drain\<close>

text \<open>A shift of an \<open>int64\<close> by an unsigned count: every bit is lost from 64 on.\<close>

definition shl64 :: "int \<Rightarrow> nat \<Rightarrow> int" where
  "shl64 x k = (if 64 \<le> k then 0 else wrap64 (x * 2 ^ k))"

text \<open>\<open>uint(n)\<close> of a 64-bit signed integer.\<close>

definition to_uint :: "int \<Rightarrow> nat" where
  "to_uint n = nat (n mod 2 ^ 64)"

definition ComputeRetryDelay :: "int \<Rightarrow> RetryConfig \<Rightarrow> duration" where
  "ComputeRetryDelay attempt config =
     (let delay = wrap64 (BaseBackoff config * shl64 1 (to_uint attempt));
          delay = (if delay > MaxBackoff config then MaxBackoff config else delay);
          jitter = float_to_int (fmul (float_of_int delay) (Fin (1 / 4)))
      in wrap64 (delay + jitter))"

record FallbackRouter =
  PrimaryModel :: string
  FallbackModel :: string

definition ShouldFallback :: "FallbackRouter \<Rightarrow> bool \<Rightarrow> bool" where
  "ShouldFallback f primaryHealthy \<longleftrightarrow> \<not> primaryHealthy \<and> FallbackModel f \<noteq> ''''"

definition TargetModel :: "FallbackRouter \<Rightarrow> bool \<Rightarrow> string" where
  "TargetModel f primaryHealthy = (if ShouldFallback f primaryHealthy then FallbackModel f else PrimaryModel f)"

record HealthDrainConfig =
  hd_Enabled :: bool
  DrainRatePercent :: int
  hd_Interval :: duration

definition DefaultHealthDrainConfig :: HealthDrainConfig where
  "DefaultHealthDrainConfig = \<lparr>hd_Enabled = True, DrainRatePercent = 10, hd_Interval = 30 * second\<rparr>"

section \<open>Histories of a breaker\<close>

datatype breaker_call = CallAllow gotime | CallSuccess | CallFailure gotime


text \<open>The specification: what a breaker is for its callers, with unbounded counters.\<close>

datatype breaker_spec = Passing int | Tripped gotime | Probing int bool

fun spec_step :: "CircuitBreakerConfig \<Rightarrow> breaker_call \<Rightarrow> breaker_spec \<Rightarrow> breaker_spec \<times> bool option" where
  "spec_step c (CallAllow now) (Passing f) = (Passing f, Some True)"
| "spec_step c (CallAllow now) (Tripped t) =
     (if cb_Timeout c < now - t then (Probing 0 True, Some True) else (Tripped t, Some False))"
| "spec_step c (CallAllow now) (Probing s p) = (Probing s True, Some (\<not> p))"
| "spec_step c CallSuccess (Passing f) = (Passing f, None)"
| "spec_step c CallSuccess (Tripped t) = (Tripped t, None)"
| "spec_step c CallSuccess (Probing s p) =
     (if SuccessThreshold c \<le> s + 1 then Passing 0 else Probing (s + 1) False, None)"
| "spec_step c (CallFailure now) (Passing f) =
     (if FailureThreshold c \<le> f + 1 then Tripped now else Passing (f + 1), None)"
| "spec_step c (CallFailure now) (Tripped t) = (Tripped now, None)"
| "spec_step c (CallFailure now) (Probing s p) = (Tripped now, None)"

text \<open>Running a history: the final state and the answers, oldest first.\<close>

fun run_calls :: "('c \<Rightarrow> 's \<Rightarrow> 's \<times> 'o) \<Rightarrow> 'c list \<Rightarrow> 's \<Rightarrow> 's \<times> 'o list" where
  "run_calls step [] s = (s, [])"
| "run_calls step (c # cs) s = (let (s, out) = step c s; (s, outs) = run_calls step cs s in (s, out # outs))"








section \<open>Probes\<close>









text \<open>Successes between failures do not matter to a closed breaker: it trips on the total.\<close>

lemma failures_accumulate:
  "fst (run_calls (spec_step c) (CallFailure t # replicate n CallSuccess @ [CallFailure u]) (Passing f)) =
     Tripped u" if "FailureThreshold c = f + 2"
proof -
  have "run_calls (spec_step c) (replicate n CallSuccess @ [CallFailure u]) (Passing (f + 1)) =
      (Tripped u, replicate n None @ [None])"
    using that by (induction n) simp_all
  then show ?thesis using that by simp
qed

section \<open>Bulkhead and retry delay\<close>

lemma bulkhead_bounds:
  assumes "0 \<le> sem_len b" "sem_len b \<le> sem_cap b"
  shows "0 \<le> ActiveCount (fst (Acquire d p b)) \<and> ActiveCount (fst (Acquire d p b)) \<le> sem_cap b"
    "Release b = Some b' \<Longrightarrow> 0 \<le> ActiveCount b' \<and> ActiveCount b' < sem_cap b"
    "snd (Acquire d p b) \<Longrightarrow> Release (fst (Acquire d p b)) = Some b"
    "snd (Acquire False p b) \<longleftrightarrow> ActiveCount b < sem_cap b"
  using assms by (auto simp: Acquire_def Release_def ActiveCount_def split: if_splits)

text \<open>A quarter of a delay is exact up to \<open>2 ^ 53\<close> nanoseconds, about 104 days.\<close>

lemma trunc_quarter:
  assumes "0 \<le> d" "d \<le> 2 ^ 53"
  shows "float_to_int (fmul (float_of_int d) (Fin (1 / 4))) = d div 4"
proof -
  have "(of_int d :: rat) \<le> of_int (2 ^ 53)" using assms(2) unfolding of_int_le_iff .
  then have "round64 (of_int d / 4) = Fin (of_int d / 4)"
    using assms by (intro round64_exact [of _ d "- 2"]) (auto simp: power_int_minus)
  moreover have "float_of_int d = Fin (of_int d)" using assms by (simp add: float_of_int_def)
  moreover have "\<lfloor>of_int d / (4 :: rat)\<rfloor> = d div 4" using floor_divide_of_int_eq [of d 4] by simp
  moreover have "d div 4 \<le> d" "0 \<le> d div 4" using assms(1) by (simp_all add: pos_imp_zdiv_nonneg_iff)
  ultimately show ?thesis using assms by (simp add: float_to_int_def)
qed

lemma retry_delay:
  assumes "0 \<le> attempt" "attempt < 63" "0 \<le> BaseBackoff c" "BaseBackoff c * 2 ^ nat attempt < 2 ^ 63"
    and "0 \<le> MaxBackoff c" "MaxBackoff c \<le> 2 ^ 53"
  shows "ComputeRetryDelay attempt c = (let d = min (BaseBackoff c * 2 ^ nat attempt) (MaxBackoff c) in d + d div 4)"
proof -
  define x where "x = BaseBackoff c * 2 ^ nat attempt"
  define d where "d = min x (MaxBackoff c)"
  have "(2 :: int) ^ nat attempt < 2 ^ 63" using assms(1,2) by (intro power_strict_increasing) auto
  moreover have "(0 :: int) \<le> 2 ^ nat attempt" by simp
  ultimately have "wrap64 (2 ^ nat attempt) = 2 ^ nat attempt" by (intro wrap64_id) linarith+
  then have shift: "shl64 1 (to_uint attempt) = 2 ^ nat attempt" using assms(1,2) by (simp add: shl64_def to_uint_def)
  have x: "0 \<le> x" "x < 2 ^ 63" using assms(3,4) by (simp_all add: x_def)
  then have "wrap64 x = x" by (intro wrap64_id) linarith+
  moreover have d: "0 \<le> d" "d \<le> MaxBackoff c" using x(1) assms(5) by (simp_all add: d_def)
  then have "wrap64 (d + d div 4) = d + d div 4"
    using assms(6) by (intro wrap64_id) simp_all
  ultimately show ?thesis
    using trunc_quarter [OF d(1) order.trans [OF d(2) assms(6)]] shift
    by (simp add: ComputeRetryDelay_def Let_def min_def flip: x_def) (simp add: d_def min_def split: if_splits)
qed

lemma default_retry:
  "rp_Retry DefaultResiliencePolicy = Some \<lparr>MaxRetries = 3, BaseBackoff = 100000000, MaxBackoff = 10000000000\<rparr>"
  by (simp add: DefaultResiliencePolicy_def millisecond_def second_def)

lemma retry_delay_exceeds_maximum:
  "rp_Retry DefaultResiliencePolicy = Some c \<Longrightarrow> ComputeRetryDelay 7 c = 12500000000 \<and> MaxBackoff c = 10000000000"
  unfolding default_retry by (auto simp: retry_delay)

lemma retry_delay_wraps:
  "rp_Retry DefaultResiliencePolicy = Some c \<Longrightarrow> ComputeRetryDelay 37 c < 0 \<and> ComputeRetryDelay 64 c = 0"
proof -
  assume "rp_Retry DefaultResiliencePolicy = Some c"
  then have c: "BaseBackoff c = 100000000" "MaxBackoff c = 10000000000" unfolding default_retry by auto
  have m: "round64 (- 4702848726509551616) = Fin (- 4702848726509551616)"
    using round64_exact [of "- 4702848726509551616" "- 133663" 45] by simp
  have j: "round64 (- 1175712181627387904) = Fin (- 1175712181627387904)"
    using round64_exact [of "- 1175712181627387904" "- 133663" 43] by simp
  show ?thesis
    by (simp add: ComputeRetryDelay_def c to_uint_def shl64_def wrap64_def float_of_int_def float_to_int_def m j)
qed

end
