(* ===== verification/Storage_Init.thy ===== *)
theory Storage_Init
  imports Sha256
begin

text \<open>
  The storage initializer, \<open>src/cmd/storage-initializer/main.go\<close> and \<open>transaction.go\<close>: the decision to
  reuse a destination directory, the staging transaction that downloads into a directory of its own,
  the provenance assessment, and the commit that moves the payload into the destination.

  A directory is the list of its entries, sorted by name as \<open>os.ReadDir\<close> returns it. The operating
  system enters through the record \<open>os_lib\<close>: which calls fail (a failing call has no effect), what
  reading and writing through symbolic links does, the JSON codecs, and the external \<open>cosign\<close>
  program. \<open>storage.StorageClient.Pull\<close> is an argument: it changes the staging directory and tells
  whether it succeeded. Paths are relative to the destination. Messages to the terminal are left out.
\<close>

section \<open>Files\<close>

datatype fsnode = RegFile string | SymLink string | Special | DirNode "(string \<times> fsnode) list"

type_synonym dir = "(string \<times> fsnode) list"

fun dir_put :: "string \<Rightarrow> fsnode \<Rightarrow> dir \<Rightarrow> dir" where
  "dir_put name n [] = [(name, n)]"
| "dir_put name n ((m, x) # d) =
     (if name = m then (name, n) # d else if name < m then (name, n) # (m, x) # d else (m, x) # dir_put name n d)"

definition dir_remove :: "string \<Rightarrow> dir \<Rightarrow> dir" where
  "dir_remove name d = filter (\<lambda>e. fst e \<noteq> name) d"

text \<open>The system calls of the transaction, by what they are made for.\<close>

datatype syscall = SysProbe | SysReadDir | SysRecheck | SysMkdir | SysWriteState | SysReadState | SysRemove string
  | SysRemoveStaging | SysCleanup | SysReadStaging | SysRename string | SysWalk | SysWriteRecord | SysReadRecord

section \<open>Types\<close>

definition verificationStateDir :: string where "verificationStateDir = ''.ckodex''"
definition verificationStateFile :: string where "verificationStateFile = ''runtime-verification.json''"
definition stagingDirectory :: string where "stagingDirectory = ''.ckodex-staging''"
definition stagingStateFile :: string where "stagingStateFile = ''.ckodex-staging-state.json''"

record stagingState =
  ss_Subject :: string
  ss_Phase :: string
  ss_Files :: "string list"

record RuntimeVerificationRecord =
  rv_Subject :: string
  rv_Scheme :: string
  SignatureVerified :: bool
  AttestationVerified :: bool
  SBOMVerified :: bool
  SignatureDigest :: string
  AttestationURI :: string
  SBOMDigest :: string
  ContentDigest :: string
  ContentIntegrityVerified :: bool
  KeyRef :: string
  rv_CertificateIdentity :: string
  rv_CertificateIssuer :: string
  VerifiedAt :: string
  rv_Error :: string

record verifierConfig =
  LocalKeyPath :: string
  LocalKeyPEM :: string
  vc_CertificateIdentity :: string
  vc_CertificateIssuer :: string

record provenanceAssessment =
  ArtifactPaths :: "string list"
  pa_Record :: RuntimeVerificationRecord
  CryptographicallyVerified :: bool

record os_lib =
  faults :: "syscall \<Rightarrow> bool"
  read_link :: "dir \<Rightarrow> string \<Rightarrow> string option"
  write_link :: "dir \<Rightarrow> string \<Rightarrow> string \<Rightarrow> dir option"
  link_exists :: "dir \<Rightarrow> string \<Rightarrow> bool"
  marshal_state :: "stagingState \<Rightarrow> string option"
  unmarshal_state :: "string \<Rightarrow> stagingState option"
  marshal_record :: "RuntimeVerificationRecord \<Rightarrow> string option"
  unmarshal_record :: "string \<Rightarrow> RuntimeVerificationRecord option"
  file_exists :: "string \<Rightarrow> bool"
  write_temp_key :: "string \<Rightarrow> string option"
  exec_cosign :: "string list \<Rightarrow> string option"
  manifest_digest :: "string \<Rightarrow> string option"
  now_rfc3339 :: string

type_synonym storage_client = "bool \<Rightarrow> string \<Rightarrow> dir \<Rightarrow> dir \<times> bool"

text \<open>The registry of \<open>src/internal/storage/interface.go\<close>.\<close>

definition RegisterClient :: "string list \<Rightarrow> storage_client \<Rightarrow> (string \<rightharpoonup> storage_client) \<Rightarrow> (string \<rightharpoonup> storage_client)" where
  "RegisterClient schemes client registry = fold (\<lambda>scheme r. r(scheme \<mapsto> client)) schemes registry"

definition GetClient :: "(string \<rightharpoonup> storage_client) \<Rightarrow> string \<Rightarrow> storage_client option" where
  "GetClient registry scheme = registry scheme"

datatype staging_error = InspectFailed | RecheckFailed | UnverifiedContent | MkdirFailed | RecordFailed
  | UnrecognizedTransaction | InvalidPhase | FilesBesideStaging | UnexpectedFile string | RemoveFailed string | RemoveStagingFailed

datatype commit_error = ReadStagingFailed | WriteStateFailed | MoveFailed string

datatype provenance_error = KeyUnavailable | TempKeyFailed | NoVerifier | SignatureFailed | ProvenanceFailed | SBOMFailed | DigestFailed

datatype run_error = ErrUsage | ErrInvalidURI | ErrNoClient | ErrStaging staging_error | ErrPull | ErrProvenance provenance_error
  | ErrPersist | ErrCommit commit_error

definition empty_record :: RuntimeVerificationRecord where
  "empty_record = \<lparr>rv_Subject = '''', rv_Scheme = '''', SignatureVerified = False, AttestationVerified = False, SBOMVerified = False,
     SignatureDigest = '''', AttestationURI = '''', SBOMDigest = '''', ContentDigest = '''', ContentIntegrityVerified = False,
     KeyRef = '''', rv_CertificateIdentity = '''', rv_CertificateIssuer = '''', VerifiedAt = '''', rv_Error = ''''\<rparr>"

definition Verified :: "RuntimeVerificationRecord \<Rightarrow> bool" where
  "Verified r \<longleftrightarrow> rv_Error r = '''' \<and> SignatureVerified r \<and> AttestationVerified r \<and> SBOMVerified r \<and>
     SignatureDigest r \<noteq> '''' \<and> AttestationURI r \<noteq> '''' \<and> SBOMDigest r \<noteq> ''''"

section \<open>The staging transaction\<close>

definition staging_of :: "dir \<Rightarrow> dir option" where
  "staging_of d = (case map_of d stagingDirectory of Some (DirNode s) \<Rightarrow> Some s | _ \<Rightarrow> None)"

definition newline :: string where
  "newline = [CHR 0x0A]"

definition writeStagingState :: "os_lib \<Rightarrow> stagingState \<Rightarrow> dir \<Rightarrow> dir option" where
  "writeStagingState lib state s =
     (case marshal_state lib state of None \<Rightarrow> None
      | Some data \<Rightarrow>
        if faults lib SysWriteState then None
        else (case map_of s stagingStateFile of
            Some (DirNode _) \<Rightarrow> None
          | Some (SymLink _) \<Rightarrow> write_link lib s stagingStateFile (data @ newline)
          | _ \<Rightarrow> Some (dir_put stagingStateFile (RegFile (data @ newline)) s)))"

definition loadStagingState :: "os_lib \<Rightarrow> dir \<Rightarrow> stagingState option" where
  "loadStagingState lib s =
     (if faults lib SysReadState then None
      else (case map_of s stagingStateFile of
          Some (RegFile data) \<Rightarrow> unmarshal_state lib data
        | Some (SymLink _) \<Rightarrow> (case read_link lib s stagingStateFile of None \<Rightarrow> None | Some data \<Rightarrow> unmarshal_state lib data)
        | _ \<Rightarrow> None))"

fun recover_loop :: "os_lib \<Rightarrow> stagingState \<Rightarrow> string list \<Rightarrow> dir \<Rightarrow> (dir, staging_error) result" where
  "recover_loop lib state [] d = (d, None)"
| "recover_loop lib state (name # rest) d =
     (if name = stagingDirectory then recover_loop lib state rest d
      else if ss_Phase state \<noteq> ''committing'' then (d, Some FilesBesideStaging)
      else if name \<notin> set (ss_Files state) then (d, Some (UnexpectedFile name))
      else if faults lib (SysRemove name) then (d, Some (RemoveFailed name))
      else recover_loop lib state rest (dir_remove name d))"

definition recoverStagingTransaction :: "os_lib \<Rightarrow> string \<Rightarrow> string list \<Rightarrow> dir \<Rightarrow> (dir, staging_error) result" where
  "recoverStagingTransaction lib uri entries d =
     (case staging_of d of None \<Rightarrow> (d, None)
      | Some s \<Rightarrow>
        (case loadStagingState lib s of None \<Rightarrow> (d, Some UnrecognizedTransaction)
         | Some state \<Rightarrow>
           if ss_Subject state \<noteq> uri then (d, Some UnrecognizedTransaction)
           else if ss_Phase state \<noteq> ''downloading'' \<and> ss_Phase state \<noteq> ''committing'' then (d, Some InvalidPhase)
           else (case recover_loop lib state entries d of
               (d, Some e) \<Rightarrow> (d, Some e)
             | (d, None) \<Rightarrow>
               if faults lib SysRemoveStaging then (d, Some RemoveStagingFailed)
               else (dir_remove stagingDirectory d, None))))"

definition prepareStagingDirectory :: "os_lib \<Rightarrow> string \<Rightarrow> dir \<Rightarrow> (dir, staging_error) result" where
  "prepareStagingDirectory lib uri d =
     (if faults lib SysReadDir then (d, Some InspectFailed)
      else let entries = map fst d;
               (d, err) = (if length entries > 0 then recoverStagingTransaction lib uri entries d else (d, None))
        in case err of Some e \<Rightarrow> (d, Some e)
         | None \<Rightarrow>
           if length entries > 0 \<and> faults lib SysRecheck then (d, Some RecheckFailed)
           else if length d > 0 then (d, Some UnverifiedContent)
           else if faults lib SysMkdir then (d, Some MkdirFailed)
           else (case writeStagingState lib \<lparr>ss_Subject = uri, ss_Phase = ''downloading'', ss_Files = []\<rparr> [] of
               None \<Rightarrow> (if faults lib SysCleanup then dir_put stagingDirectory (DirNode []) d else d, Some RecordFailed)
             | Some s \<Rightarrow> (dir_put stagingDirectory (DirNode s) d, None)))"

definition cleanup :: "os_lib \<Rightarrow> dir \<Rightarrow> dir" where
  "cleanup lib d = (if faults lib SysCleanup then d else dir_remove stagingDirectory d)"

text \<open>
  \<open>os.Rename\<close> of an entry of the staging directory to the destination: it fails when the target is a
  directory, or when a directory would replace a file, and otherwise replaces the target.
\<close>

definition is_dir :: "fsnode \<Rightarrow> bool" where
  "is_dir n = (case n of DirNode _ \<Rightarrow> True | _ \<Rightarrow> False)"

definition rename_out :: "os_lib \<Rightarrow> string \<Rightarrow> dir \<Rightarrow> dir option" where
  "rename_out lib name d =
     (case staging_of d of None \<Rightarrow> None
      | Some s \<Rightarrow> (case map_of s name of None \<Rightarrow> None
        | Some n \<Rightarrow>
          if faults lib (SysRename name) then None
          else if (case map_of d name of None \<Rightarrow> False | Some t \<Rightarrow> is_dir t \<or> is_dir n) then None
          else Some (dir_put name n (dir_put stagingDirectory (DirNode (dir_remove name s)) d))))"

fun rename_loop :: "os_lib \<Rightarrow> string list \<Rightarrow> dir \<Rightarrow> (dir, commit_error) result" where
  "rename_loop lib [] d = (d, None)"
| "rename_loop lib (name # rest) d =
     (case rename_out lib name d of None \<Rightarrow> (d, Some (MoveFailed name)) | Some d \<Rightarrow> rename_loop lib rest d)"

definition payload_names :: "dir \<Rightarrow> string list" where
  "payload_names s = filter (\<lambda>name. name \<noteq> stagingStateFile) (map fst s)"

definition commitStagingDirectory :: "os_lib \<Rightarrow> string \<Rightarrow> dir \<Rightarrow> (dir, commit_error) result" where
  "commitStagingDirectory lib uri d =
     (case staging_of d of None \<Rightarrow> (d, Some ReadStagingFailed)
      | Some s \<Rightarrow>
        if faults lib SysReadStaging then (d, Some ReadStagingFailed)
        else let files = payload_names s in
          (case writeStagingState lib \<lparr>ss_Subject = uri, ss_Phase = ''committing'', ss_Files = files\<rparr> s of
             None \<Rightarrow> (d, Some WriteStateFailed)
           | Some s \<Rightarrow> rename_loop lib files (dir_put stagingDirectory (DirNode s) d)))"

section \<open>Content digest and provenance\<close>

text \<open>What \<open>filepath.WalkDir\<close> makes the hash read: each regular file's path and content, both ended by a zero byte.\<close>

fun walk :: "string \<Rightarrow> dir \<Rightarrow> string option" where
  "walk p [] = Some []"
| "walk p ((name, DirNode d) # rest) =
     (if name = verificationStateDir then walk p rest
      else (case walk (p @ name @ ''/'') d of None \<Rightarrow> None
        | Some inner \<Rightarrow> map_option (\<lambda>tail. inner @ tail) (walk p rest)))"
| "walk p ((name, RegFile data) # rest) =
     (if name = stagingStateFile then walk p rest
      else map_option (\<lambda>tail. p @ name @ [CHR 0x00] @ data @ [CHR 0x00] @ tail) (walk p rest))"
| "walk p ((name, SymLink _) # rest) = (if name = stagingStateFile then walk p rest else None)"
| "walk p ((name, Special) # rest) = walk p rest"

definition directoryDigest :: "os_lib \<Rightarrow> dir \<Rightarrow> string option" where
  "directoryDigest lib d = (if faults lib SysWalk then None else map_option (\<lambda>bytes. ''sha256:'' @ sha256_hex bytes) (walk [] d))"

definition sha256Hex :: "string \<Rightarrow> string" where
  "sha256Hex payload = ''sha256:'' @ sha256_hex payload"

definition extractSignatureDigest :: "os_lib \<Rightarrow> string \<Rightarrow> string" where
  "extractSignatureDigest lib out =
     (case manifest_digest lib out of Some digest \<Rightarrow> if digest \<noteq> '''' then digest else sha256Hex out | None \<Rightarrow> sha256Hex out)"

definition runCosign :: "os_lib \<Rightarrow> string \<Rightarrow> verifierConfig \<Rightarrow> string \<Rightarrow> string list \<Rightarrow> string option" where
  "runCosign lib ref verifier verb extraArgs =
     (let args = [verb] @ (if LocalKeyPath verifier \<noteq> '''' then [''--key'', LocalKeyPath verifier]
            else [''--certificate-identity'', vc_CertificateIdentity verifier, ''--certificate-oidc-issuer'', vc_CertificateIssuer verifier])
      in exec_cosign lib (args @ extraArgs @ [ref]))"

definition TrimOCIScheme :: "string \<Rightarrow> string" where
  "TrimOCIScheme uri = (if prefix ''ocis://'' uri then drop 7 uri else if prefix ''oci://'' uri then drop 6 uri else uri)"

definition verifyOCIProvenance :: "os_lib \<Rightarrow> string \<Rightarrow> verifierConfig \<Rightarrow> provenance_error + RuntimeVerificationRecord" where
  "verifyOCIProvenance lib uri verifier =
     (if LocalKeyPath verifier = '''' \<and> (vc_CertificateIdentity verifier = '''' \<or> vc_CertificateIssuer verifier = '''') then Inl NoVerifier
      else let ref = TrimOCIScheme uri;
               rec = empty_record\<lparr>rv_Subject := uri, rv_Scheme := (if prefix ''ocis://'' uri then ''ocis'' else ''oci''),
                 KeyRef := LocalKeyPath verifier, rv_CertificateIdentity := vc_CertificateIdentity verifier,
                 rv_CertificateIssuer := vc_CertificateIssuer verifier\<rparr>
        in case runCosign lib ref verifier ''verify'' [] of None \<Rightarrow> Inl SignatureFailed
         | Some signatureOutput \<Rightarrow>
           (case runCosign lib ref verifier ''verify-attestation'' [''--type'', ''slsaprovenance1''] of None \<Rightarrow> Inl ProvenanceFailed
            | Some provenanceOutput \<Rightarrow>
              (case runCosign lib ref verifier ''verify-attestation'' [''--type'', ''cyclonedx''] of None \<Rightarrow> Inl SBOMFailed
               | Some sbomOutput \<Rightarrow>
                 (let digest = extractSignatureDigest lib signatureOutput in
                  Inr (rec\<lparr>SignatureVerified := True,
                    SignatureDigest := (if digest = '''' then sha256Hex provenanceOutput else digest),
                    AttestationVerified := True, AttestationURI := uri @ ''#attestation:slsaprovenance1'',
                    SBOMVerified := True, SBOMDigest := sha256Hex sbomOutput, VerifiedAt := now_rfc3339 lib\<rparr>)))))"

definition materializeVerifierConfig :: "os_lib \<Rightarrow> verifierConfig \<Rightarrow> provenance_error + verifierConfig" where
  "materializeVerifierConfig lib cfg =
     (if LocalKeyPath cfg \<noteq> '''' \<and> file_exists lib (LocalKeyPath cfg) then Inr cfg
      else if LocalKeyPath cfg \<noteq> '''' \<and> LocalKeyPEM cfg = '''' then Inl KeyUnavailable
      else if LocalKeyPEM cfg = '''' then Inr cfg
      else (case write_temp_key lib (LocalKeyPEM cfg) of None \<Rightarrow> Inl TempKeyFailed | Some keyPath \<Rightarrow> Inr (cfg\<lparr>LocalKeyPath := keyPath\<rparr>)))"

definition entry_exists :: "os_lib \<Rightarrow> dir \<Rightarrow> string \<Rightarrow> bool" where
  "entry_exists lib s name = (case map_of s name of None \<Rightarrow> False | Some (SymLink _) \<Rightarrow> link_exists lib s name | Some _ \<Rightarrow> True)"

definition assessProvenance :: "os_lib \<Rightarrow> string \<Rightarrow> string \<Rightarrow> dir \<Rightarrow> verifierConfig \<Rightarrow> provenance_error + provenanceAssessment" where
  "assessProvenance lib uri scheme s verifier =
     (case materializeVerifierConfig lib verifier of Inl e \<Rightarrow> Inl e
      | Inr resolved \<Rightarrow>
        (let rec = empty_record\<lparr>rv_Subject := uri, rv_Scheme := scheme, KeyRef := LocalKeyPath resolved,
               rv_CertificateIdentity := vc_CertificateIdentity resolved, rv_CertificateIssuer := vc_CertificateIssuer resolved\<rparr>;
             assessed = (if scheme = ''oci'' \<or> scheme = ''ocis''
               then (case verifyOCIProvenance lib uri resolved of Inl e \<Rightarrow> Inl e
                 | Inr rec \<Rightarrow> Inr \<lparr>ArtifactPaths = [], pa_Record = rec, CryptographicallyVerified = Verified rec\<rparr>)
               else Inr \<lparr>ArtifactPaths = filter (entry_exists lib s) [''slsa.provenance.json'', ''provenance.sig'', ''model.sig''],
                 pa_Record = rec, CryptographicallyVerified = False\<rparr>)
         in case assessed of Inl e \<Rightarrow> Inl e
          | Inr a \<Rightarrow>
            (case directoryDigest lib s of None \<Rightarrow> Inl DigestFailed
             | Some digest \<Rightarrow> Inr (a\<lparr>pa_Record := (pa_Record a)\<lparr>ContentDigest := digest, ContentIntegrityVerified := True\<rparr>\<rparr>))))"

definition record_path :: string where
  "record_path = verificationStateDir @ ''/'' @ verificationStateFile"

definition writeCacheRuntimeVerificationRecord :: "os_lib \<Rightarrow> RuntimeVerificationRecord \<Rightarrow> dir \<Rightarrow> dir option" where
  "writeCacheRuntimeVerificationRecord lib rec s =
     (if faults lib SysWriteRecord then None
      else (case marshal_record lib rec of None \<Rightarrow> None
        | Some data \<Rightarrow>
          (let put = (\<lambda>v. case map_of v verificationStateFile of
                 Some (DirNode _) \<Rightarrow> None
               | Some (SymLink _) \<Rightarrow> write_link lib s record_path (data @ newline)
               | _ \<Rightarrow> Some (dir_put verificationStateDir (DirNode (dir_put verificationStateFile (RegFile (data @ newline)) v)) s))
           in case map_of s verificationStateDir of
                None \<Rightarrow> put []
              | Some (DirNode v) \<Rightarrow> put v
              | Some (SymLink _) \<Rightarrow> write_link lib s record_path (data @ newline)
              | Some _ \<Rightarrow> None)))"

definition loadCachedRuntimeVerificationRecord :: "os_lib \<Rightarrow> dir \<Rightarrow> RuntimeVerificationRecord option" where
  "loadCachedRuntimeVerificationRecord lib d =
     (if faults lib SysReadRecord then None
      else let data = (case map_of d verificationStateDir of
            Some (DirNode v) \<Rightarrow> (case map_of v verificationStateFile of
                Some (RegFile data) \<Rightarrow> Some data
              | Some (SymLink _) \<Rightarrow> read_link lib d record_path
              | _ \<Rightarrow> None)
          | Some (SymLink _) \<Rightarrow> read_link lib d record_path
          | _ \<Rightarrow> None)
        in case data of None \<Rightarrow> None | Some data \<Rightarrow> unmarshal_record lib data)"

section \<open>The run\<close>

text \<open>The cache test of \<open>run\<close>: the record with which a populated destination is reused.\<close>

definition cache_hit :: "os_lib \<Rightarrow> bool \<Rightarrow> string \<Rightarrow> RuntimeVerificationRecord \<Rightarrow> dir \<Rightarrow> RuntimeVerificationRecord option" where
  "cache_hit lib skipChecksum uri rec d =
     (if faults lib SysProbe \<or> length d = 0 then None
      else if skipChecksum then Some rec
      else (case loadCachedRuntimeVerificationRecord lib d of None \<Rightarrow> None
        | Some cached \<Rightarrow>
          if rv_Subject cached \<noteq> uri then None
          else if Verified cached then Some cached
          else if ContentIntegrityVerified cached \<and> directoryDigest lib d = Some (ContentDigest cached) then Some cached
          else None))"

text \<open>The part of \<open>run\<close> after the pull: assess, persist the record in the staging directory, commit.\<close>

definition finish_run :: "os_lib \<Rightarrow> bool \<Rightarrow> string \<Rightarrow> string \<Rightarrow> verifierConfig \<Rightarrow> RuntimeVerificationRecord \<Rightarrow> dir \<Rightarrow> dir \<Rightarrow>
    dir \<times> (RuntimeVerificationRecord, run_error) result" where
  "finish_run lib skipChecksum uri scheme verifier rec s d =
     (let commit = (\<lambda>rec s. case commitStagingDirectory lib uri (dir_put stagingDirectory (DirNode s) d) of
            (d, None) \<Rightarrow> (d, rec, None) | (d, Some e) \<Rightarrow> (d, rec, Some (ErrCommit e)))
      in if skipChecksum then commit rec s
         else (case assessProvenance lib uri scheme s verifier of
             Inl e \<Rightarrow> (dir_put stagingDirectory (DirNode s) d, rec, Some (ErrProvenance e))
           | Inr assessment \<Rightarrow>
             (let rec = pa_Record assessment in
              case writeCacheRuntimeVerificationRecord lib rec s of
                None \<Rightarrow> (dir_put stagingDirectory (DirNode s) d, rec, Some ErrPersist)
              | Some s \<Rightarrow> commit rec s)))"

definition run :: "os_lib \<Rightarrow> (string \<rightharpoonup> storage_client) \<Rightarrow> verifierConfig \<Rightarrow> string list \<Rightarrow> dir \<Rightarrow>
    dir \<times> (RuntimeVerificationRecord, run_error) result" where
  "run lib clients verifier args d =
     (let skipChecksum = (''--skip-checksum'' \<in> set args);
          positional = filter (\<lambda>arg. arg \<noteq> ''--skip-checksum'') args
      in if length positional < 2 then (d, empty_record, Some ErrUsage)
         else let uri = positional ! 0; rec = empty_record\<lparr>rv_Subject := uri\<rparr>
           in case str_index uri ''://'' of None \<Rightarrow> (d, rec, Some ErrInvalidURI)
            | Some i \<Rightarrow>
              (let scheme = take i uri; rec = rec\<lparr>rv_Scheme := scheme\<rparr>
               in case GetClient clients scheme of None \<Rightarrow> (d, rec, Some ErrNoClient)
                | Some client \<Rightarrow>
                  (case cache_hit lib skipChecksum uri rec d of Some cached \<Rightarrow> (d, cached, None)
                   | None \<Rightarrow>
                     (case prepareStagingDirectory lib uri d of
                        (d, Some e) \<Rightarrow> (d, rec, Some (ErrStaging e))
                      | (d, None) \<Rightarrow>
                        (let (s, ok) = client skipChecksum uri (the (staging_of d));
                             (d, rec, err) = (if \<not> ok then (dir_put stagingDirectory (DirNode s) d, rec, Some ErrPull)
                               else finish_run lib skipChecksum uri scheme verifier rec s d)
                         in (cleanup lib d, rec, err))))))"

section \<open>Interrupted transactions\<close>

lemma map_of_dir_put [simp]: "map_of (dir_put name n d) = (map_of d)(name \<mapsto> n)"
  by (induction name n d rule: dir_put.induct) (auto simp: fun_eq_iff)

lemma names_dir_put [simp]: "fst ` set (dir_put name n d) = insert name (fst ` set d)"
  by (induction name n d rule: dir_put.induct) auto

lemma map_of_dir_remove [simp]: "map_of (dir_remove name d) = (map_of d)(name := None)"
  by (induction d) (auto simp: dir_remove_def fun_eq_iff)

lemma names_dir_remove [simp]: "fst ` set (dir_remove name d) = fst ` set d - {name}"
  by (auto simp: dir_remove_def)

lemma state_file_names [simp]: "stagingStateFile \<noteq> stagingDirectory" "verificationStateDir \<noteq> stagingDirectory"
  "verificationStateDir \<noteq> stagingStateFile"
  by (simp_all add: stagingStateFile_def stagingDirectory_def verificationStateDir_def)

lemmas state_file_names_sym [simp] = state_file_names [THEN not_sym]


text \<open>
  The destinations that a process working for \<open>uri\<close> can leave behind when it stops after the
  transaction was recorded: while the payload arrives in the staging directory (the client leaves
  the state file alone), or after any number of moves of the commit.
\<close>

inductive interrupted :: "os_lib \<Rightarrow> string \<Rightarrow> dir \<Rightarrow> bool" for lib uri where
  downloading: "interrupted lib uri (dir_put stagingDirectory (DirNode s) d)"
    if "prepareStagingDirectory lib uri [] = (d, None)" "staging_of d = Some s0"
      "map_of s stagingStateFile = map_of s0 stagingStateFile"
| committing: "interrupted lib uri (fst (rename_loop lib (take k (payload_names s)) (dir_put stagingDirectory (DirNode s') d)))"
    if "prepareStagingDirectory lib uri [] = (d, None)" "staging_of d = Some s0"
      "map_of s stagingStateFile = map_of s0 stagingStateFile"
      "writeStagingState lib \<lparr>ss_Subject = uri, ss_Phase = ''committing'', ss_Files = payload_names s\<rparr> s = Some s'"














section \<open>Commit\<close>

lemma rename_out_moves:
  assumes "rename_out lib name d = Some d'" "staging_of d = Some s"
  shows "staging_of d' = Some (dir_remove name s)" "map_of d' name = map_of s name" "name \<noteq> stagingDirectory"
    "n \<noteq> name \<Longrightarrow> n \<noteq> stagingDirectory \<Longrightarrow> map_of d' n = map_of d n"
proof -
  have m: "map_of d stagingDirectory = Some (DirNode s)" using assms(2) by (auto simp: staging_of_def split: option.splits fsnode.splits)
  obtain x where x: "map_of s name = Some x" "\<not> (case map_of d name of None \<Rightarrow> False | Some t \<Rightarrow> is_dir t \<or> is_dir x)"
      "d' = dir_put name x (dir_put stagingDirectory (DirNode (dir_remove name s)) d)"
    using assms by (auto simp: rename_out_def split: option.splits if_splits)
  show ne: "name \<noteq> stagingDirectory" using x(2) m by (auto simp: is_dir_def)
  then show "staging_of d' = Some (dir_remove name s)" by (simp add: x(3) staging_of_def)
  show "map_of d' name = map_of s name" by (simp add: x)
  show "map_of d' n = map_of d n" if "n \<noteq> name" "n \<noteq> stagingDirectory" using that by (simp add: x(3))
qed

lemma rename_loop_moves:
  assumes "rename_loop lib names d = (d', None)" "staging_of d = Some s" "distinct names"
  shows "stagingDirectory \<notin> set names \<and> (\<forall>n. n \<noteq> stagingDirectory \<longrightarrow> map_of d' n = (if n \<in> set names then map_of s n else map_of d n))"
  using assms
proof (induction names arbitrary: d s)
  case (Cons name names)
  obtain d1 where d1: "rename_out lib name d = Some d1" "rename_loop lib names d1 = (d', None)"
    using Cons.prems(1) by (auto split: option.splits)
  note m = rename_out_moves [OF d1(1) Cons.prems(2)]
  from Cons.IH [OF d1(2) m(1)] Cons.prems(3) m(2-4) show ?case by auto
qed auto

text \<open>A successful commit and cleanup leave exactly the payload, without the transaction's own files.\<close>

lemma commit_leaves_payload:
  assumes "commitStagingDirectory lib uri d = (d', None)" "fst ` set d = {stagingDirectory}" "staging_of d = Some s"
    and "distinct (map fst s)" "\<And>c. \<not> faults lib c" "\<forall>t. map_of s stagingStateFile \<noteq> Some (SymLink t)"
  shows "map_of (cleanup lib d') n = (if n = stagingStateFile then None else map_of s n)"
proof -
  let ?st = "\<lparr>ss_Subject = uri, ss_Phase = ''committing'', ss_Files = payload_names s\<rparr>"
  obtain s' where s': "writeStagingState lib ?st s = Some s'"
      "rename_loop lib (payload_names s) (dir_put stagingDirectory (DirNode s') d) = (d', None)"
    using assms(1,3,5) by (auto simp: commitStagingDirectory_def Let_def split: option.splits)
  obtain data where "s' = dir_put stagingStateFile (RegFile data) s"
    using s'(1) assms(6) by (auto simp: writeStagingState_def split: option.splits if_splits fsnode.splits)
  then have same: "m \<noteq> stagingStateFile \<Longrightarrow> map_of s' m = map_of s m" for m by simp
  have st: "staging_of (dir_put stagingDirectory (DirNode s') d) = Some s'" by (simp add: staging_of_def)
  have "distinct (payload_names s)" using assms(4) by (simp add: payload_names_def)
  note moved = rename_loop_moves [OF s'(2) st this]
  have names: "m \<in> set (payload_names s) \<longleftrightarrow> m \<noteq> stagingStateFile \<and> map_of s m \<noteq> None" for m
    by (auto simp: payload_names_def map_of_eq_None_iff)
  have empty: "m \<noteq> stagingDirectory \<Longrightarrow> map_of d m = None" for m
    using assms(2) by (metis map_of_eq_None_iff singletonD)
  show ?thesis
  proof (cases "n = stagingDirectory")
    case True
    then show ?thesis using moved names [of stagingDirectory] assms(5) by (auto simp: cleanup_def)
  next
    case False
    then show ?thesis using moved names [of n] same [of n] empty [of n] assms(5) by (auto simp: cleanup_def)
  qed
qed

section \<open>Populated destinations\<close>

text \<open>A verified record of the same source is enough to reuse the destination, whatever else is in it.\<close>

lemma verified_record_reused:
  assumes "\<And>c. \<not> faults lib c" "str_index uri ''://'' = Some i" "GetClient clients (take i uri) \<noteq> None" "uri \<noteq> ''--skip-checksum''"
    and "dest \<noteq> ''--skip-checksum''" "loadCachedRuntimeVerificationRecord lib d = Some rec" "rv_Subject rec = uri" "Verified rec"
  shows "run lib clients verifier [uri, dest] d = (d, rec, None)"
proof -
  have "d \<noteq> []" using assms(1,6) by (auto simp: loadCachedRuntimeVerificationRecord_def)
  then have "cache_hit lib False uri r d = Some rec" for r using assms(1,6,7,8) by (simp add: cache_hit_def)
  then show ?thesis using assms(2-5) by (auto simp: run_def Let_def)
qed

text \<open>Once the cleanup has removed the record of a commit that failed half way, no later run gets past the moved files.\<close>

lemma failed_commit_blocks:
  assumes "\<And>c. \<not> faults lib c" "n \<in> fst ` set d" "n \<noteq> stagingDirectory"
  shows "prepareStagingDirectory lib uri (cleanup lib d) = (cleanup lib d, Some UnverifiedContent)"
proof -
  have c: "cleanup lib d = dir_remove stagingDirectory d" using assms(1) by (simp add: cleanup_def)
  have "n \<in> fst ` set (cleanup lib d)" using assms(2,3) unfolding c by simp
  then have "cleanup lib d \<noteq> []" by auto
  moreover have "staging_of (cleanup lib d) = None" unfolding c by (simp add: staging_of_def)
  ultimately show ?thesis using assms(1) by (simp add: prepareStagingDirectory_def recoverStagingTransaction_def)
qed

text \<open>A process that stops between creating the staging directory and writing its state blocks the destination.\<close>

lemma unrecorded_staging_blocks:
  assumes "\<And>c. \<not> faults lib c"
  shows "prepareStagingDirectory lib uri [(stagingDirectory, DirNode [])] =
    ([(stagingDirectory, DirNode [])], Some UnrecognizedTransaction)"
  using assms by (simp add: prepareStagingDirectory_def recoverStagingTransaction_def staging_of_def loadStagingState_def)

section \<open>A concrete codec and run\<close>

fun enc_str :: "string \<Rightarrow> string" where
  "enc_str [] = ''e''"
| "enc_str (x # s) = CHR ''c'' # x # enc_str s"

fun dec_strs :: "string \<Rightarrow> string \<Rightarrow> string list" where
  "dec_strs acc [] = []"
| "dec_strs acc [a] = (if a = CHR ''e'' then [acc] else [])"
| "dec_strs acc (a # x # r) =
     (if a = CHR ''c'' then dec_strs (acc @ [x]) r else if a = CHR ''e'' then acc # dec_strs [] (x # r) else [])"



definition sample_os :: os_lib where
  "sample_os = \<lparr>faults = (\<lambda>c. False), read_link = (\<lambda>d p. None), write_link = (\<lambda>d p data. None), link_exists = (\<lambda>d p. False),
     marshal_state = (\<lambda>st. Some (concat (map enc_str (ss_Subject st # ss_Phase st # ss_Files st)))),
     unmarshal_state = (\<lambda>data. case dec_strs [] data of subj # phase # files \<Rightarrow> Some \<lparr>ss_Subject = subj, ss_Phase = phase, ss_Files = files\<rparr> | _ \<Rightarrow> None),
     marshal_record = (\<lambda>r. Some (rv_Subject r)),
     unmarshal_record = (\<lambda>data. Some (empty_record\<lparr>rv_Subject := data, SignatureVerified := True, AttestationVerified := True, SBOMVerified := True,
       SignatureDigest := ''s'', AttestationURI := ''a'', SBOMDigest := ''b''\<rparr>)),
     file_exists = (\<lambda>p. False), write_temp_key = (\<lambda>pem. None), exec_cosign = (\<lambda>args. None), manifest_digest = (\<lambda>out. None),
     now_rfc3339 = ''''\<rparr>"


text \<open>The staging directory of an OCI model that was pulled and verified: its record sorts before the weights.\<close>

definition sample_payload :: dir where
  "sample_payload = [(verificationStateDir, DirNode [(verificationStateFile, RegFile ''oci://m'')]),
     (stagingStateFile, RegFile (the (marshal_state sample_os \<lparr>ss_Subject = ''oci://m'', ss_Phase = ''downloading'', ss_Files = []\<rparr>) @ newline)),
     (''model.bin'', RegFile ''weights'')]"

definition sample_crash :: dir where
  "sample_crash = fst (rename_loop sample_os (take 1 (payload_names sample_payload))
     (dir_put stagingDirectory (DirNode (the (writeStagingState sample_os
        \<lparr>ss_Subject = ''oci://m'', ss_Phase = ''committing'', ss_Files = payload_names sample_payload\<rparr> sample_payload))) 
       (fst (prepareStagingDirectory sample_os ''oci://m'' []))))"

lemma sample_interrupted: "interrupted sample_os ''oci://m'' sample_crash"
  unfolding sample_crash_def
proof (rule interrupted.committing)
  show "prepareStagingDirectory sample_os ''oci://m'' [] = (fst (prepareStagingDirectory sample_os ''oci://m'' []), None)"
    "staging_of (fst (prepareStagingDirectory sample_os ''oci://m'' [])) = Some [(stagingStateFile, RegFile (the (marshal_state sample_os
       \<lparr>ss_Subject = ''oci://m'', ss_Phase = ''downloading'', ss_Files = []\<rparr>) @ newline))]"
    by (simp_all add: prepareStagingDirectory_def writeStagingState_def staging_of_def sample_os_def)
  show "map_of sample_payload stagingStateFile = map_of [(stagingStateFile, RegFile (the (marshal_state sample_os
       \<lparr>ss_Subject = ''oci://m'', ss_Phase = ''downloading'', ss_Files = []\<rparr>) @ newline))] stagingStateFile"
    by (simp add: sample_payload_def)
  show "writeStagingState sample_os \<lparr>ss_Subject = ''oci://m'', ss_Phase = ''committing'', ss_Files = payload_names sample_payload\<rparr> sample_payload =
     Some (the (writeStagingState sample_os \<lparr>ss_Subject = ''oci://m'', ss_Phase = ''committing'', ss_Files = payload_names sample_payload\<rparr> sample_payload))"
    by (simp add: writeStagingState_def sample_payload_def sample_os_def)
qed


text \<open>
  The moves of a commit go in the order of the names, so the verification record arrives before the
  weights. A run that finds a destination interrupted in between takes it for a verified cache: it
  succeeds although the model file is missing.
\<close>

lemma partial_commit_reused:
  "run sample_os [''oci'' \<mapsto> \<lambda>skip uri s. (s, True)] verifier [''oci://m'', ''/dest''] sample_crash =
     (sample_crash, empty_record\<lparr>rv_Subject := ''oci://m'', SignatureVerified := True, AttestationVerified := True, SBOMVerified := True,
       SignatureDigest := ''s'', AttestationURI := ''a'', SBOMDigest := ''b''\<rparr>, None) \<and>
   interrupted sample_os ''oci://m'' sample_crash \<and> map_of sample_crash ''model.bin'' = None"
proof -
  have crash: "map_of sample_crash verificationStateDir = Some (DirNode [(verificationStateFile, RegFile ''oci://m'')])"
    "map_of sample_crash ''model.bin'' = None"
    by code_simp+
  then show ?thesis
    by (intro conjI sample_interrupted, intro verified_record_reused [where i = 3])
      (simp_all add: loadCachedRuntimeVerificationRecord_def GetClient_def sample_os_def empty_record_def Verified_def)
qed

end
