(* ===== verification/Inference_Load.thy ===== *)
theory Inference_Load
  imports Float64 "HOL-Library.Multiset"
begin

text \<open>
  Load control on the request path, from \<open>src/internal/inference\<close>: the adaptive timeout with its
  percentiles, the four-level priority queue and the degradation controller (\<open>adaptive.go\<close>), the
  endpoint pool with its latency averages (\<open>connection_pool.go\<close>) and the speculative-decoding
  switch (\<open>advanced.go\<close>).

  The results that a queue writes to a request's channel are the list \<open>pq_delivered\<close>. Indexing out of
  range and \<open>make\<close> with a negative size are panics, the value \<open>None\<close>.
\<close>

section \<open>Integers\<close>

text \<open>\<open>Duration.Milliseconds\<close> divides by a million.\<close>

definition milliseconds :: "duration \<Rightarrow> int" where
  "milliseconds d = go_div d (10 ^ 6)"

section \<open>Adaptive timeout\<close>

record AdaptiveTimeout =
  samples :: "int list"
  writeIdx :: int
  sampleSize :: int
  minTimeout :: duration
  maxTimeout :: duration
  at_p50 :: int
  at_p95 :: int
  at_p99 :: int

definition NewAdaptiveTimeout :: "int \<Rightarrow> duration \<Rightarrow> duration \<Rightarrow> AdaptiveTimeout option" where
  "NewAdaptiveTimeout n mn mx =
     (if n < 0 then None
      else Some \<lparr>samples = replicate (nat n) 0, writeIdx = 0, sampleSize = n, minTimeout = mn, maxTimeout = mx,
        at_p50 = 0, at_p95 = 0, at_p99 = 0\<rparr>)"

text \<open>The inner loop of the insertion sort: shift the larger elements right, then store the key.\<close>

fun shift_loop :: "int list \<Rightarrow> int \<Rightarrow> nat \<Rightarrow> int list" where
  "shift_loop xs key 0 = xs[0 := key]"
| "shift_loop xs key (Suc j) = (if xs ! j > key then shift_loop (xs[Suc j := xs ! j]) key j else xs[Suc j := key])"

fun insertion_loop :: "nat \<Rightarrow> nat \<Rightarrow> int list \<Rightarrow> int list" where
  "insertion_loop 0 i xs = xs"
| "insertion_loop (Suc n) i xs = insertion_loop n (Suc i) (shift_loop xs (xs ! i) i)"

definition insertion_sort :: "int list \<Rightarrow> int list" where
  "insertion_sort xs = insertion_loop (length xs - 1) 1 xs"

definition recomputePercentiles :: "AdaptiveTimeout \<Rightarrow> AdaptiveTimeout" where
  "recomputePercentiles a =
     (let sorted = filter (\<lambda>s. s > 0) (samples a) in
      if length sorted = 0 then a
      else let sorted = insertion_sort sorted; n = length sorted in
        a\<lparr>at_p50 := sorted ! (n div 2),
          at_p95 := sorted ! nat (float_to_int (fmul (float_of_int (int n)) (round64 (95 / 100)))),
          at_p99 := sorted ! nat (float_to_int (fmin (fmul (float_of_int (int n)) (round64 (99 / 100))) (float_of_int (int n - 1))))\<rparr>)"

definition Record :: "duration \<Rightarrow> AdaptiveTimeout \<Rightarrow> AdaptiveTimeout option" where
  "Record latency a =
     (let ms = milliseconds latency in
      if nat (writeIdx a) \<ge> length (samples a) then None
      else let a = a\<lparr>samples := (samples a)[nat (writeIdx a) := ms], writeIdx := (writeIdx a + 1) mod sampleSize a\<rparr>
        in Some (if writeIdx a mod 100 = 0 then recomputePercentiles a else a))"

definition Timeout :: "AdaptiveTimeout \<Rightarrow> duration" where
  "Timeout a =
     (let p99 = at_p99 a in
      if p99 = 0 then maxTimeout a
      else let timeout = wrap64 (float_to_int (fmul (float_of_int p99) (round64 (12 / 10))) * 10 ^ 6) in
        if timeout < minTimeout a then minTimeout a
        else if timeout > maxTimeout a then maxTimeout a
        else timeout)"

definition P50 :: "AdaptiveTimeout \<Rightarrow> duration" where "P50 a = wrap64 (at_p50 a * 10 ^ 6)"
definition P95 :: "AdaptiveTimeout \<Rightarrow> duration" where "P95 a = wrap64 (at_p95 a * 10 ^ 6)"
definition P99 :: "AdaptiveTimeout \<Rightarrow> duration" where "P99 a = wrap64 (at_p99 a * 10 ^ 6)"

section \<open>Priority queue\<close>

definition PriorityCritical :: int where "PriorityCritical = 0"
definition PriorityInteractive :: int where "PriorityInteractive = 1"
definition PriorityBatch :: int where "PriorityBatch = 2"
definition PriorityBackground :: int where "PriorityBackground = 3"

datatype queue_error = ErrLoadShed | ErrDeadlineExceeded

record PriorityRequest =
  pr_Priority :: int
  pr_EnqueueTime :: gotime
  pr_ModelName :: string
  pr_SessionID :: string
  pr_MaxTokens :: int
  pr_Deadline :: gotime

record PriorityQueue =
  pq_queues :: "PriorityRequest list list"
  pq_depth :: int
  pq_maxDepth :: int
  pq_delivered :: "(PriorityRequest \<times> queue_error) list"

definition NewPriorityQueue :: "int \<Rightarrow> PriorityQueue" where
  "NewPriorityQueue n = \<lparr>pq_queues = [[], [], [], []], pq_depth = 0, pq_maxDepth = n, pq_delivered = []\<rparr>"

definition append_request :: "PriorityRequest \<Rightarrow> PriorityQueue \<Rightarrow> (PriorityQueue \<times> bool) option" where
  "append_request req q =
     (let p = pr_Priority req in
      if p < 0 \<or> nat p \<ge> length (pq_queues q) then None
      else Some (q\<lparr>pq_queues := (pq_queues q)[nat p := pq_queues q ! nat p @ [req]], pq_depth := wrap64 (pq_depth q + 1)\<rparr>, True))"

definition Enqueue_pq :: "PriorityRequest \<Rightarrow> PriorityQueue \<Rightarrow> (PriorityQueue \<times> bool) option" where
  "Enqueue_pq req q =
     (if pq_depth q \<ge> pq_maxDepth q
      then (case pq_queues q ! nat PriorityBackground of
          dropped # rest \<Rightarrow>
            append_request req (q\<lparr>pq_queues := (pq_queues q)[nat PriorityBackground := rest], pq_depth := wrap64 (pq_depth q - 1),
              pq_delivered := pq_delivered q @ [(dropped, ErrLoadShed)]\<rparr>)
        | [] \<Rightarrow> Some (q, False))
      else append_request req q)"

definition expired_pq :: "gotime \<Rightarrow> PriorityRequest \<Rightarrow> bool" where
  "expired_pq now req \<longleftrightarrow> \<not> IsZero (pr_Deadline req) \<and> now > pr_Deadline req"

text \<open>The loop over the levels; \<open>nows\<close> are the readings of the clock, one per level.\<close>

fun level_loop :: "(nat \<Rightarrow> gotime) \<Rightarrow> nat list \<Rightarrow> PriorityQueue \<Rightarrow> PriorityQueue \<times> PriorityRequest option" where
  "level_loop nows [] q = (q, None)"
| "level_loop nows (p # ps) q =
     (case pq_queues q ! p of
        [] \<Rightarrow> level_loop nows ps q
      | req # rest \<Rightarrow>
        (let q = q\<lparr>pq_queues := (pq_queues q)[p := rest], pq_depth := wrap64 (pq_depth q - 1)\<rparr> in
         if expired_pq (nows p) req
         then level_loop nows ps (q\<lparr>pq_delivered := pq_delivered q @ [(req, ErrDeadlineExceeded)]\<rparr>)
         else (q, Some req)))"

definition Dequeue_pq :: "(nat \<Rightarrow> gotime) \<Rightarrow> PriorityQueue \<Rightarrow> PriorityQueue \<times> PriorityRequest option" where
  "Dequeue_pq nows q = level_loop nows [0, 1, 2, 3] q"

definition Depth :: "PriorityQueue \<Rightarrow> int" where "Depth q = pq_depth q"

section \<open>Degradation\<close>

datatype DegradationLevel = DegradationNone | DegradationLight | DegradationModerate | DegradationSevere

record DegradationRule =
  QueueDepthThreshold :: int
  P99LatencyThreshold :: duration
  dr_Level :: DegradationLevel
  MaxTokensOverride :: int
  RejectBatch :: bool
  dr_MaxConcurrent :: int

record DegradationController =
  dc_level :: DegradationLevel
  dc_rules :: "DegradationRule list"

definition default_rules :: "DegradationRule list" where
  "default_rules =
    [\<lparr>QueueDepthThreshold = 100, P99LatencyThreshold = 5 * 10 ^ 9, dr_Level = DegradationLight, MaxTokensOverride = 2048, RejectBatch = False, dr_MaxConcurrent = 200\<rparr>,
     \<lparr>QueueDepthThreshold = 500, P99LatencyThreshold = 15 * 10 ^ 9, dr_Level = DegradationModerate, MaxTokensOverride = 1024, RejectBatch = True, dr_MaxConcurrent = 100\<rparr>,
     \<lparr>QueueDepthThreshold = 1000, P99LatencyThreshold = 30 * 10 ^ 9, dr_Level = DegradationSevere, MaxTokensOverride = 512, RejectBatch = True, dr_MaxConcurrent = 50\<rparr>]"

definition NewDegradationController :: DegradationController where
  "NewDegradationController = \<lparr>dc_level = DegradationNone, dc_rules = default_rules\<rparr>"

definition Evaluate_dc :: "int \<Rightarrow> duration \<Rightarrow> DegradationController \<Rightarrow> DegradationController" where
  "Evaluate_dc queueDepth p99 d =
     d\<lparr>dc_level := fold (\<lambda>rule newLevel. if queueDepth \<ge> QueueDepthThreshold rule \<or> p99 \<ge> P99LatencyThreshold rule
         then dr_Level rule else newLevel) (dc_rules d) DegradationNone\<rparr>"

definition Level :: "DegradationController \<Rightarrow> DegradationLevel" where "Level d = dc_level d"

definition ActiveRule :: "DegradationController \<Rightarrow> DegradationRule option" where
  "ActiveRule d = find (\<lambda>rule. dr_Level rule = dc_level d) (dc_rules d)"

definition ClampTokens :: "DegradationController \<Rightarrow> int \<Rightarrow> int" where
  "ClampTokens d requested = (case ActiveRule d of None \<Rightarrow> requested
     | Some rule \<Rightarrow> if requested > MaxTokensOverride rule then MaxTokensOverride rule else requested)"

definition ShouldRejectBatch :: "DegradationController \<Rightarrow> bool" where
  "ShouldRejectBatch d = (case ActiveRule d of None \<Rightarrow> False | Some rule \<Rightarrow> RejectBatch rule)"

section \<open>Endpoint pool\<close>

record EndpointConn =
  ep_Address :: string
  ActiveRequests :: int
  AvgLatencyMs :: int
  TotalRequests :: int
  ErrorCount :: int
  ep_LastUsed :: int

type_synonym endpoint_pool = "string \<rightharpoonup> EndpointConn"

definition Get_pool :: "string \<Rightarrow> endpoint_pool \<Rightarrow> endpoint_pool \<times> EndpointConn" where
  "Get_pool address p =
     (case p address of Some conn \<Rightarrow> (p, conn)
      | None \<Rightarrow> let conn = \<lparr>ep_Address = address, ActiveRequests = 0, AvgLatencyMs = 0, TotalRequests = 0, ErrorCount = 0, ep_LastUsed = 0\<rparr>
          in (p(address \<mapsto> conn), conn))"

definition endpoint_score :: "EndpointConn \<Rightarrow> int" where
  "endpoint_score conn = wrap64 (AvgLatencyMs conn + ActiveRequests conn * 10 + ErrorCount conn * 100)"

fun fastest_loop :: "endpoint_pool \<Rightarrow> string list \<Rightarrow> string \<Rightarrow> int \<Rightarrow> string list \<Rightarrow> string" where
  "fastest_loop p all bestAddr bestScore [] = (if bestAddr = '''' \<and> length all > 0 then hd all else bestAddr)"
| "fastest_loop p all bestAddr bestScore (addr # rest) =
     (case p addr of None \<Rightarrow> addr
      | Some conn \<Rightarrow>
        let score = endpoint_score conn in
        if score < bestScore then fastest_loop p all addr score rest else fastest_loop p all bestAddr bestScore rest)"

definition FastestEndpoint :: "endpoint_pool \<Rightarrow> string list \<Rightarrow> string" where
  "FastestEndpoint p candidates = fastest_loop p candidates '''' (2 ^ 62 - 1) candidates"

definition ewma :: "int \<Rightarrow> int \<Rightarrow> int" where
  "ewma current sample = go_div (wrap64 (current * 7 + sample * 3)) 10"

definition RecordLatency :: "int \<Rightarrow> string \<Rightarrow> duration \<Rightarrow> endpoint_pool \<Rightarrow> endpoint_pool" where
  "RecordLatency now_ms address latency p =
     (let (p, conn) = Get_pool address p; ms = milliseconds latency in
      p(address \<mapsto> conn\<lparr>AvgLatencyMs := (if AvgLatencyMs conn = 0 then ms else ewma (AvgLatencyMs conn) ms),
        TotalRequests := wrap64 (TotalRequests conn + 1), ErrorCount := 0, ep_LastUsed := now_ms\<rparr>))"

definition RecordError :: "string \<Rightarrow> endpoint_pool \<Rightarrow> endpoint_pool" where
  "RecordError address p = (let (p, conn) = Get_pool address p in p(address \<mapsto> conn\<lparr>ErrorCount := wrap64 (ErrorCount conn + 1)\<rparr>))"

text \<open>The loop deletes while it ranges over the map; each entry is judged on its own.\<close>

definition idle :: "int \<Rightarrow> EndpointConn \<Rightarrow> bool" where
  "idle cutoff conn \<longleftrightarrow> ep_LastUsed conn < cutoff \<and> ActiveRequests conn = 0"

fun evict_idle_loop :: "int \<Rightarrow> string list \<Rightarrow> endpoint_pool \<Rightarrow> int \<Rightarrow> endpoint_pool \<times> int" where
  "evict_idle_loop cutoff [] p evicted = (p, evicted)"
| "evict_idle_loop cutoff (addr # rest) p evicted =
     (case p addr of None \<Rightarrow> evict_idle_loop cutoff rest p evicted
      | Some conn \<Rightarrow> if idle cutoff conn then evict_idle_loop cutoff rest (p(addr := None)) (evicted + 1)
          else evict_idle_loop cutoff rest p evicted)"

definition EvictIdle :: "gotime \<Rightarrow> duration \<Rightarrow> string list \<Rightarrow> endpoint_pool \<Rightarrow> endpoint_pool \<times> int" where
  "EvictIdle now maxIdle keys p = evict_idle_loop ((time_add now (wrap64 (- maxIdle))) div 10 ^ 6 - 62135596800000) keys p 0"

section \<open>Speculative decoding\<close>

record SpeculativeDecoder =
  DraftModel :: string
  sd_TargetModel :: string
  LookaheadTokens :: int
  AcceptanceRate :: int
  sd_Enabled :: bool

definition NewSpeculativeDecoder :: "string \<Rightarrow> string \<Rightarrow> int \<Rightarrow> SpeculativeDecoder" where
  "NewSpeculativeDecoder draft target lookahead =
     \<lparr>DraftModel = draft, sd_TargetModel = target, LookaheadTokens = lookahead, AcceptanceRate = 8500, sd_Enabled = True\<rparr>"

definition ShouldSpeculate :: "SpeculativeDecoder \<Rightarrow> int \<Rightarrow> bool" where
  "ShouldSpeculate s maxTokens =
     (if \<not> sd_Enabled s then False else if maxTokens < 32 then False else if AcceptanceRate s < 5000 then False else True)"

definition RecordAcceptance :: "int \<Rightarrow> int \<Rightarrow> SpeculativeDecoder \<Rightarrow> SpeculativeDecoder" where
  "RecordAcceptance accepted proposed s =
     (if proposed = 0 then s
      else let rate = go_div (wrap64 (accepted * 10000)) proposed in s\<lparr>AcceptanceRate := ewma (AcceptanceRate s) rate\<rparr>)"

section \<open>Percentiles\<close>

lemma insort_last: "key < a \<Longrightarrow> insort key (ys @ [a]) = insort key ys @ [a :: int]"
  by (induction ys) auto

lemma insort_end:
  assumes "sorted ys" "\<forall>y \<in> set ys. y \<le> (key :: int)"
  shows "insort key ys = ys @ [key]"
proof -
  have "sort (key # ys) = ys @ [key]"
    using assms by (intro properties_for_sort) (auto simp: sorted_append)
  moreover have "sort (key # ys) = insort key ys" using assms(1) by (simp add: sorted_sort_id)
  ultimately show ?thesis by simp
qed

lemma shift_loop_insort:
  "i < length xs \<Longrightarrow> sorted (take i xs) \<Longrightarrow> shift_loop xs key i = insort key (take i xs) @ drop (Suc i) xs"
proof (induction i arbitrary: xs)
  case 0
  then show ?case by (cases xs) simp_all
next
  case (Suc j)
  have t: "take (Suc j) xs = take j xs @ [xs ! j]" using Suc.prems(1) by (simp add: take_Suc_conv_app_nth)
  have s: "sorted (take j xs)" "\<forall>y \<in> set (take j xs). y \<le> xs ! j" using Suc.prems(2) unfolding t by (auto simp: sorted_append)
  show ?case
  proof (cases "key < xs ! j")
    case True
    have "drop (Suc j) (xs[Suc j := xs ! j]) = xs ! j # drop (Suc (Suc j)) xs"
      using Suc.prems(1) by (simp add: Cons_nth_drop_Suc [symmetric])
    moreover have "take j (xs[Suc j := xs ! j]) = take j xs" by simp
    ultimately show ?thesis
      using Suc.IH [of "xs[Suc j := xs ! j]"] Suc.prems(1) s(1) True insort_last [OF True, of "take j xs"] t by simp
  next
    case False
    have "insort key (take (Suc j) xs) = take (Suc j) xs @ [key]"
      using Suc.prems(2) s(2) False unfolding t by (intro insort_end) auto
    moreover have "xs[Suc j := key] = take (Suc j) xs @ key # drop (Suc (Suc j)) xs"
      using Suc.prems(1) by (simp add: upd_conv_take_nth_drop)
    ultimately show ?thesis using False by simp
  qed
qed

text \<open>The insertion sort over the array computes the sorted list.\<close>

lemma insertion_loop_sort:
  "sorted (take i xs) \<Longrightarrow> length xs - i \<le> n \<Longrightarrow> i + n \<le> length xs \<Longrightarrow> insertion_loop n i xs = sort xs"
proof (induction n arbitrary: i xs)
  case 0
  then show ?case by (simp add: sorted_sort_id)
next
  case (Suc n)
  let ?ys = "shift_loop xs (xs ! i) i"
  have i: "i < length xs" using Suc.prems by simp
  have ys: "?ys = insort (xs ! i) (take i xs) @ drop (Suc i) xs" by (rule shift_loop_insort [OF i Suc.prems(1)])
  have len: "length ?ys = length xs" using i by (simp add: ys)
  have "mset ?ys = mset (take i xs @ xs ! i # drop (Suc i) xs)" by (simp add: ys)
  then have "mset ?ys = mset xs" using i by (simp add: id_take_nth_drop [symmetric])
  then have "sort ?ys = sort xs" by (metis mset_sort properties_for_sort sorted_sort)
  moreover have "take (Suc i) ?ys = insort (xs ! i) (take i xs)" using i by (simp add: ys)
  then have "sorted (take (Suc i) ?ys)" using Suc.prems(1) by (simp add: sorted_insort)
  ultimately show ?case using Suc.IH [of "Suc i" ?ys] Suc.prems len by simp
qed

lemma insertion_sort_correct: "insertion_sort xs = sort xs"
proof (cases xs)
  case (Cons x ys)
  then show ?thesis unfolding insertion_sort_def by (intro insertion_loop_sort) simp_all
qed (simp add: insertion_sort_def)

lemma percentile_literals:
  "round64 (95 / 100) = Fin (8556839292003942 / 2 ^ 53)" "round64 (99 / 100) = Fin (8917127262193582 / 2 ^ 53)"
  using round64_fraction [of 1 "95 / 100"] round64_fraction [of 1 "99 / 100"] by simp_all

text \<open>
  A product with a factor between a half and 31/32 stays between the half and below the whole after
  rounding, since both bounds are representable.
\<close>

lemma index_product:
  assumes "0 < n" "n \<le> 2 ^ 40" "1 / 2 \<le> c" "c \<le> 31 / 32"
  shows "\<exists>x. round64 (of_nat n * c) = Fin x \<and> of_nat n / 2 \<le> x \<and> x \<le> of_nat n * (31 / 32)"
proof -
  have n: "(of_nat n :: rat) \<le> of_nat (2 ^ 40)" "int n \<le> int (2 ^ 40)" using assms(2) unfolding of_nat_le_iff by simp_all
  have lo: "round64 (of_nat n / 2) = Fin (of_nat n / 2)"
    using n by (intro round64_exact [of _ "int n" "- 1"]) (auto simp: power_int_minus)
  have hi: "round64 (of_nat n * (31 / 32)) = Fin (of_nat n * (31 / 32))"
    using n by (intro round64_exact [of _ "31 * int n" "- 5"]) (auto simp: power_int_minus)
  have "of_nat n * (1 / 2) \<le> of_nat n * c" using assms(3) by (intro mult_left_mono) simp_all
  then have "Fin (of_nat n / 2) \<le> round64 (of_nat n * c)" by (intro round_ge lo) simp
  moreover have "of_nat n * c \<le> of_nat n * (31 / 32)" using assms(4) by (rule mult_left_mono) simp
  then have "round64 (of_nat n * c) \<le> Fin (of_nat n * (31 / 32))" by (intro round_le hi)
  ultimately show ?thesis by (cases "round64 (of_nat n * c)") auto
qed

lemma float_to_int_range: "0 \<le> x \<Longrightarrow> x \<le> of_nat n \<Longrightarrow> n \<le> 2 ^ 40 \<Longrightarrow> float_to_int (Fin x) = \<lfloor>x\<rfloor>"
proof -
  assume a: "0 \<le> x" "x \<le> of_nat n" "n \<le> 2 ^ 40"
  have "\<lfloor>x\<rfloor> \<le> int n" using a(2) by (simp add: floor_le_iff)
  moreover have "int n < 2 ^ 63" "(0 :: int) < 2 ^ 63" using a(3) by simp_all
  moreover have "0 \<le> \<lfloor>x\<rfloor>" using a(1) by simp
  ultimately have "- (2 ^ 63) \<le> \<lfloor>x\<rfloor>" "\<lfloor>x\<rfloor> < 2 ^ 63" by linarith+
  then show ?thesis using a(1) by (simp only: float_to_int_def Let_def float64.case if_True simp_thms)
qed

lemma percentile_indices:
  fixes n :: nat
  assumes "0 < n" "n \<le> 2 ^ 40"
  defines "i95 \<equiv> float_to_int (fmul (float_of_int (int n)) (round64 (95 / 100)))"
  defines "i99 \<equiv> float_to_int (fmin (fmul (float_of_int (int n)) (round64 (99 / 100))) (float_of_int (int n - 1)))"
  shows "n div 2 \<le> nat i95" "nat i95 \<le> nat i99" "nat i99 < n"
proof -
  have nb: "(of_nat n :: rat) \<le> of_nat (2 ^ 40)" "int n \<le> int (2 ^ 40)" using assms(2) unfolding of_nat_le_iff by simp_all
  have f: "float_of_int (int n) = Fin (of_nat n)" "float_of_int (int n - 1) = Fin (of_nat n - 1)"
    using round64_int [of "int n"] round64_int [of "int n - 1"] nb assms(1) by (simp_all add: float_of_int_def)
  obtain x where x: "round64 (of_nat n * (8556839292003942 / 2 ^ 53)) = Fin x" "of_nat n / 2 \<le> x" "x \<le> of_nat n * (31 / 32)"
    using index_product [OF assms(1,2), of "8556839292003942 / 2 ^ 53"] by auto
  have "of_nat n * (8556839292003942 / 2 ^ 53 :: rat) \<le> of_nat n * (8917127262193582 / 2 ^ 53)" by (intro mult_left_mono) simp_all
  from round64_mono [OF this] have ge: "Fin x \<le> round64 (of_nat n * (8917127262193582 / 2 ^ 53))" by (simp only: x(1))
  have "of_nat n * (8917127262193582 / 2 ^ 53 :: rat) \<le> of_nat n * 1" by (intro mult_left_mono) simp_all
  then have "round64 (of_nat n * (8917127262193582 / 2 ^ 53)) \<le> Fin (of_nat n)"
    using round64_int [of "int n"] nb by (intro round_le) simp_all
  then obtain y where y: "round64 (of_nat n * (8917127262193582 / 2 ^ 53)) = Fin y" "x \<le> y" "y \<le> of_nat n"
    using ge by (cases "round64 (of_nat n * (8917127262193582 / 2 ^ 53))") auto
  have x0: "0 \<le> x" "x < of_nat n" using x(2,3) assms(1) by (auto intro: order.trans [OF _ x(2)] le_less_trans [OF x(3)])
  have n1: "(1 :: rat) \<le> of_nat n" using assms(1) by simp
  have i95: "i95 = \<lfloor>x\<rfloor>"
    unfolding i95_def f percentile_literals farith_Fin x(1) using x0 assms(2) by (intro float_to_int_range [of x n]) simp_all
  have "fmin (Fin y) (Fin (of_nat n - 1)) = Fin (min y (of_nat n - 1))" by (simp add: fmin_def min_def)
  then have i99: "i99 = \<lfloor>min y (of_nat n - 1)\<rfloor>"
    unfolding i99_def f percentile_literals farith_Fin y(1) using x0 y n1 assms(2)
    by (simp only:) (intro float_to_int_range [of _ n]; simp)
  have "(of_nat (2 * (n div 2)) :: rat) \<le> of_nat n" unfolding of_nat_le_iff by simp
  then have "of_int (int (n div 2)) \<le> x" using x(2) by simp
  then have "int (n div 2) \<le> i95" unfolding i95 by (simp only: le_floor_iff)
  then show "n div 2 \<le> nat i95" by simp
  have "i95 < int n" unfolding i95 using x0 by (simp add: floor_less_iff)
  then have "of_int i95 \<le> (of_int (int n - 1) :: rat)" unfolding of_int_le_iff by simp
  moreover have "of_int i95 \<le> y" using y(2) unfolding i95 by (rule order.trans [OF of_int_floor_le])
  ultimately have "i95 \<le> i99" unfolding i99 le_floor_iff by simp
  then show "nat i95 \<le> nat i99" by (rule nat_mono)
  have "i99 < int n" unfolding i99 by (simp add: floor_less_iff min_less_iff_disj)
  then show "nat i99 < n" using assms(1) by simp
qed

text \<open>
  After a recomputation over a window of at most \<open>2 ^ 40\<close> samples the three percentiles are positive samples
  in increasing order; the indices, which are rounded products, are never out of range.
\<close>

lemma percentiles_ordered:
  assumes "filter (\<lambda>s. s > 0) (samples a) \<noteq> []" "length (samples a) \<le> 2 ^ 40"
  shows "at_p50 (recomputePercentiles a) \<le> at_p95 (recomputePercentiles a) \<and>
    at_p95 (recomputePercentiles a) \<le> at_p99 (recomputePercentiles a) \<and>
    {at_p50 (recomputePercentiles a), at_p95 (recomputePercentiles a), at_p99 (recomputePercentiles a)} \<subseteq> {s \<in> set (samples a). 0 < s}"
proof -
  let ?xs = "sort (filter (\<lambda>s. s > 0) (samples a))"
  let ?n = "length (filter (\<lambda>s. s > 0) (samples a))"
  have n: "0 < ?n" using assms by simp
  have "?n \<le> 2 ^ 40" by (rule order.trans [OF length_filter_le assms(2)])
  note ix = percentile_indices [OF n this]
  have r: "at_p50 (recomputePercentiles a) = ?xs ! (?n div 2)"
    "at_p95 (recomputePercentiles a) = ?xs ! nat (float_to_int (fmul (float_of_int (int ?n)) (round64 (95 / 100))))"
    "at_p99 (recomputePercentiles a) = ?xs ! nat (float_to_int (fmin (fmul (float_of_int (int ?n)) (round64 (99 / 100))) (float_of_int (int ?n - 1))))"
    using n by (simp_all add: recomputePercentiles_def Let_def insertion_sort_correct)
  have mem: "?xs ! i \<in> {s \<in> set (samples a). 0 < s}" if "i < ?n" for i
    using nth_mem [of i ?xs] that by auto
  have mono: "?xs ! i \<le> ?xs ! j" if "i \<le> j" "j < ?n" for i j
    using that by (intro sorted_nth_mono) simp_all
  show ?thesis unfolding r
    using mono [OF ix(1) le_less_trans [OF ix(2,3)]] mono [OF ix(2,3)] mem [OF ix(3)] mem [OF le_less_trans [OF ix(2,3)]]
      mem [OF le_less_trans [OF ix(1) le_less_trans [OF ix(2,3)]]] by blast
qed

lemma Timeout_bounds: "minTimeout a \<le> maxTimeout a \<Longrightarrow> minTimeout a \<le> Timeout a \<and> Timeout a \<le> maxTimeout a"
  by (simp add: Timeout_def Let_def)

section \<open>The priority queue\<close>

definition pq_inv :: "PriorityQueue \<Rightarrow> bool" where
  "pq_inv q \<longleftrightarrow> length (pq_queues q) = 4 \<and> pq_depth q = int (sum_list (map length (pq_queues q))) \<and>
     (\<forall>p < 4. \<forall>r \<in> set (pq_queues q ! p). pr_Priority r = int p) \<and> pq_depth q \<le> max 0 (pq_maxDepth q)"

lemma pq_invD:
  assumes "pq_inv q"
  shows "length (pq_queues q) = 4" "int (sum_list (map length (pq_queues q))) = pq_depth q"
    "\<forall>p < 4. \<forall>r \<in> set (pq_queues q ! p). pr_Priority r = int p" "pq_depth q \<le> max 0 (pq_maxDepth q)" "0 \<le> pq_depth q"
  using assms unfolding pq_inv_def by simp_all

lemma pq_invI:
  assumes "length (pq_queues q) = 4" "int (sum_list (map length (pq_queues q))) = pq_depth q"
    "\<forall>p < 4. \<forall>r \<in> set (pq_queues q ! p). pr_Priority r = int p" "pq_depth q \<le> max 0 (pq_maxDepth q)"
  shows "pq_inv q"
  using assms unfolding pq_inv_def by argo

lemma sum_list_update_nat: "k < length xs \<Longrightarrow> int (sum_list (xs[k := x :: nat])) = int (sum_list xs) - int (xs ! k) + int x"
  using sum_list_update [of k xs x] member_le_sum_list [of "xs ! k" xs] by simp

lemma lengths_update:
  "k < length qs \<Longrightarrow> int (sum_list (map length (qs[k := x]))) = int (sum_list (map length qs)) - int (length (qs ! k)) + int (length x)"
  using sum_list_update_nat [of k "map length qs" "length x"] by (simp add: map_update)

lemma new_queue_inv: "pq_inv (NewPriorityQueue n)"
  by (auto simp: pq_inv_def NewPriorityQueue_def nth_Cons' numeral_eq_Suc less_Suc_eq)

lemma append_inv:
  assumes "pq_inv q" "pq_depth q < pq_maxDepth q" "pq_maxDepth q < 2 ^ 63" "append_request req q = Some (q', ok)"
  shows "pq_inv q' \<and> ok \<and> pq_depth q' = pq_depth q + 1 \<and> pq_maxDepth q' = pq_maxDepth q"
proof -
  let ?p = "nat (pr_Priority req)"
  have p: "0 \<le> pr_Priority req" "?p < 4" and q': "q' = q\<lparr>pq_queues := (pq_queues q)[?p := pq_queues q ! ?p @ [req]], pq_depth := wrap64 (pq_depth q + 1)\<rparr>" "ok"
    using assms(1,4) by (auto simp: append_request_def pq_inv_def Let_def split: if_splits)
  have "0 \<le> pq_depth q" using assms(1) by (simp add: pq_inv_def)
  then have w: "wrap64 (pq_depth q + 1) = pq_depth q + 1" using assms(2,3) by (intro wrap64_id) linarith+
  have l: "?p < length (pq_queues q)" "int (sum_list (map length (pq_queues q))) = pq_depth q"
    using p(2) by (simp_all only: pq_invD(1,2) [OF assms(1)])
  have f: "pq_queues q' = (pq_queues q)[?p := pq_queues q ! ?p @ [req]]" "pq_depth q' = pq_depth q + 1" "pq_maxDepth q' = pq_maxDepth q"
    by (simp_all add: q'(1) w)
  have "int (sum_list (map length (pq_queues q'))) = pq_depth q'"
    unfolding f(1,2) lengths_update [OF l(1)] l(2) by simp
  moreover have "\<forall>k < 4. \<forall>r \<in> set (pq_queues q' ! k). pr_Priority r = int k"
  proof (intro allI impI ballI)
    fix k r
    assume k: "k < 4" and r: "r \<in> set (pq_queues q' ! k)"
    have "pq_queues q' ! k = (if k = ?p then pq_queues q ! k @ [req] else pq_queues q ! k)" using l(1) by (simp add: q'(1))
    then have "r = req \<and> k = ?p \<or> r \<in> set (pq_queues q ! k)" using r by (auto split: if_splits)
    then show "pr_Priority r = int k" using pq_invD(3) [OF assms(1), rule_format, OF k, of r] p(1) by auto
  qed
  moreover have "length (pq_queues q') = 4" using pq_invD(1) [OF assms(1)] unfolding f(1) by simp
  moreover have "pq_depth q' \<le> max 0 (pq_maxDepth q')" using assms(2) unfolding f(2,3) by simp
  ultimately have "pq_inv q'" by (intro pq_invI)
  then show ?thesis using f(2,3) q'(2) by blast
qed

lemma drop_inv:
  assumes "pq_inv q" "p < 4" "pq_queues q ! p = r # rest" "pq_depth q < 2 ^ 63"
  shows "pq_inv (q\<lparr>pq_queues := (pq_queues q)[p := rest], pq_depth := wrap64 (pq_depth q - 1), pq_delivered := ds\<rparr>)"
    "wrap64 (pq_depth q - 1) = pq_depth q - 1" "0 < pq_depth q"
proof -
  have s: "int (sum_list (map length ((pq_queues q)[p := rest]))) = pq_depth q - 1"
  proof -
    have l: "p < length (pq_queues q)" "int (sum_list (map length (pq_queues q))) = pq_depth q"
      using assms(2) by (simp_all only: pq_invD(1,2) [OF assms(1)])
    show ?thesis unfolding lengths_update [OF l(1)] l(2) using assms(3) by simp
  qed
  then show "0 < pq_depth q" by linarith
  then show w: "wrap64 (pq_depth q - 1) = pq_depth q - 1" using assms(4) by (intro wrap64_id) linarith+
  show "pq_inv (q\<lparr>pq_queues := (pq_queues q)[p := rest], pq_depth := wrap64 (pq_depth q - 1), pq_delivered := ds\<rparr>)"
  proof (rule pq_invI)
    show "\<forall>k < 4. \<forall>x \<in> set (pq_queues (q\<lparr>pq_queues := (pq_queues q)[p := rest], pq_depth := wrap64 (pq_depth q - 1), pq_delivered := ds\<rparr>) ! k). pr_Priority x = int k"
    proof (intro allI impI ballI)
      fix k x
      assume k: "k < 4" and x: "x \<in> set (pq_queues (q\<lparr>pq_queues := (pq_queues q)[p := rest], pq_depth := wrap64 (pq_depth q - 1), pq_delivered := ds\<rparr>) ! k)"
      have "x \<in> set (pq_queues q ! k)"
        using x assms(2,3) pq_invD(1) [OF assms(1)] by (cases "k = p") auto
      then show "pr_Priority x = int k" using pq_invD(3) [OF assms(1), rule_format, OF k] by blast
    qed
  qed (use pq_invD(1,4) [OF assms(1)] s w in simp_all)
qed

text \<open>A full queue takes a request only in exchange for the oldest background one; otherwise it refuses and does not change.\<close>

lemma Enqueue_pq_inv:
  assumes "pq_inv q" "pq_maxDepth q < 2 ^ 63" "Enqueue_pq req q = Some (q', ok)"
  shows "pq_inv q'" "\<not> ok \<Longrightarrow> q' = q \<and> pq_maxDepth q \<le> pq_depth q \<and> pq_queues q ! 3 = []"
    "pq_depth q' = (if ok \<and> pq_depth q < pq_maxDepth q then pq_depth q + 1 else pq_depth q)"
proof -
  have d: "pq_depth q < 2 ^ 63" using pq_invD(4) [OF assms(1)] assms(2) by (simp add: max_def split: if_splits)
  show "pq_inv q'" "\<not> ok \<Longrightarrow> q' = q \<and> pq_maxDepth q \<le> pq_depth q \<and> pq_queues q ! 3 = []"
    "pq_depth q' = (if ok \<and> pq_depth q < pq_maxDepth q then pq_depth q + 1 else pq_depth q)"
  proof (atomize (full), cases "pq_depth q < pq_maxDepth q")
    case True
    then show "pq_inv q' \<and> (\<not> ok \<longrightarrow> q' = q \<and> pq_maxDepth q \<le> pq_depth q \<and> pq_queues q ! 3 = []) \<and>
        pq_depth q' = (if ok \<and> pq_depth q < pq_maxDepth q then pq_depth q + 1 else pq_depth q)"
      using append_inv [OF assms(1) True assms(2), of req q' ok] assms(3) by (simp add: Enqueue_pq_def)
  next
    case False
    show "pq_inv q' \<and> (\<not> ok \<longrightarrow> q' = q \<and> pq_maxDepth q \<le> pq_depth q \<and> pq_queues q ! 3 = []) \<and>
        pq_depth q' = (if ok \<and> pq_depth q < pq_maxDepth q then pq_depth q + 1 else pq_depth q)"
    proof (cases "pq_queues q ! 3")
      case Nil
      then show ?thesis using False assms(1,3) by (auto simp: Enqueue_pq_def PriorityBackground_def)
    next
      case (Cons r rest)
      let ?q = "q\<lparr>pq_queues := (pq_queues q)[3 := rest], pq_depth := wrap64 (pq_depth q - 1), pq_delivered := pq_delivered q @ [(r, ErrLoadShed)]\<rparr>"
      note dr = drop_inv [OF assms(1) _ Cons d, simplified]
      have app: "append_request req ?q = Some (q', ok)" using False Cons assms(3) by (simp add: Enqueue_pq_def PriorityBackground_def)
      have less: "pq_depth ?q < pq_maxDepth ?q" using dr(2,3) pq_invD(4) [OF assms(1)] by simp
      show ?thesis using append_inv [OF dr(1) less _ app] assms(2) dr(2) False by simp
    qed
  qed
qed

text \<open>The level's head is there and not past its deadline.\<close>

definition live :: "(nat \<Rightarrow> gotime) \<Rightarrow> PriorityQueue \<Rightarrow> nat \<Rightarrow> bool" where
  "live nows q p \<longleftrightarrow> (case pq_queues q ! p of [] \<Rightarrow> False | r # _ \<Rightarrow> \<not> expired_pq (nows p) r)"

lemma level_loop_result:
  "distinct ps \<Longrightarrow> snd (level_loop nows ps q) = map_option (\<lambda>p. hd (pq_queues q ! p)) (find (live nows q) ps)"
proof (induction ps arbitrary: q)
  case (Cons p ps)
  show ?case
  proof (cases "pq_queues q ! p")
    case Nil
    then show ?thesis using Cons.IH [of q] Cons.prems by (simp add: live_def)
  next
    case (Cons r rest)
    let ?q = "q\<lparr>pq_queues := (pq_queues q)[p := rest], pq_depth := wrap64 (pq_depth q - 1), pq_delivered := pq_delivered q @ [(r, ErrDeadlineExceeded)]\<rparr>"
    have same: "pq_queues ?q ! p' = pq_queues q ! p'" if "p' \<in> set ps" for p'
      using that Cons.prems by (cases "p = p'") auto
    then have "live nows ?q p' = live nows q p'" if "p' \<in> set ps" for p' using that by (simp add: live_def)
    then have f: "find (live nows ?q) ps = find (live nows q) ps" by (intro find_cong refl)
    have "map_option (\<lambda>p. hd (pq_queues ?q ! p)) (find (live nows q) ps) = map_option (\<lambda>p. hd (pq_queues q ! p)) (find (live nows q) ps)"
      using same by (intro option.map_cong refl) (auto simp: find_Some_iff)
    then show ?thesis using Cons.IH [of ?q] Cons.prems Cons f by (simp add: live_def [of nows q p])
  qed
qed simp

lemma level_loop_inv:
  "pq_inv q \<Longrightarrow> pq_maxDepth q < 2 ^ 63 \<Longrightarrow> list_all (\<lambda>p. p < 4) ps \<Longrightarrow> pq_inv (fst (level_loop nows ps q))"
proof (induction ps arbitrary: q)
  case (Cons p ps)
  have d: "pq_depth q < 2 ^ 63" using pq_invD(4) [OF Cons.prems(1)] Cons.prems(2) by (simp add: max_def split: if_splits)
  show ?case
  proof (cases "pq_queues q ! p")
    case (Cons r rest)
    note dr = drop_inv(1) [OF Cons.prems(1) _ Cons d]
    from dr [of "pq_delivered q"] dr [of "pq_delivered q @ [(r, ErrDeadlineExceeded)]"] Cons.prems Cons
      Cons.IH [of "q\<lparr>pq_queues := (pq_queues q)[p := rest], pq_depth := wrap64 (pq_depth q - 1), pq_delivered := pq_delivered q @ [(r, ErrDeadlineExceeded)]\<rparr>"]
    show ?thesis by (simp add: Let_def)
  qed (use Cons in simp)
qed simp

text \<open>
  \<open>Dequeue\<close> looks at the head of each level once: it returns the head of the first level whose head is
  live, also when a higher level still holds live requests behind an expired head.
\<close>

lemma Dequeue_pq_result:
  "snd (Dequeue_pq nows q) = map_option (\<lambda>p. hd (pq_queues q ! p)) (find (live nows q) [0, 1, 2, 3])"
  unfolding Dequeue_pq_def by (rule level_loop_result) simp

lemma Dequeue_pq_inv: "pq_inv q \<Longrightarrow> pq_maxDepth q < 2 ^ 63 \<Longrightarrow> pq_inv (fst (Dequeue_pq nows q))"
  unfolding Dequeue_pq_def by (rule level_loop_inv) simp_all

lemma expired_head_inverts_priority:
  fixes old urgent batch :: PriorityRequest
  assumes "expired_pq now old" "\<not> expired_pq now urgent" "\<not> expired_pq now batch"
  shows "snd (Dequeue_pq (\<lambda>_. now) \<lparr>pq_queues = [[old, urgent], [], [batch], []], pq_depth = 3, pq_maxDepth = 8, pq_delivered = []\<rparr>) = Some batch"
  using assms by (simp add: Dequeue_pq_result live_def)

section \<open>Degradation, averages and rates\<close>

lemma Evaluate_dc_level:
  "Level (Evaluate_dc depth p99 NewDegradationController) =
     (if depth \<ge> 1000 \<or> p99 \<ge> 30 * 10 ^ 9 then DegradationSevere
      else if depth \<ge> 500 \<or> p99 \<ge> 15 * 10 ^ 9 then DegradationModerate
      else if depth \<ge> 100 \<or> p99 \<ge> 5 * 10 ^ 9 then DegradationLight else DegradationNone)"
  by (simp add: Evaluate_dc_def NewDegradationController_def default_rules_def Level_def)

lemma ClampTokens_bounds: "ClampTokens d n \<le> n" "ActiveRule d = Some r \<Longrightarrow> ClampTokens d n \<le> MaxTokensOverride r"
  by (simp_all add: ClampTokens_def split: option.split)

lemma ewma_bounds:
  assumes "0 \<le> c" "0 \<le> s" "c < 2 ^ 59" "s < 2 ^ 59"
  shows "min c s \<le> ewma c s" "ewma c s \<le> max c s"
proof -
  have "wrap64 (c * 7 + s * 3) = c * 7 + s * 3" using assms by (intro wrap64_id) auto
  then have e: "ewma c s = (c * 7 + s * 3) div 10" using assms(1,2) by (simp add: ewma_def)
  show "min c s \<le> ewma c s" unfolding e by (simp add: min_def zdiv_mono1 [of "10 * c" "c * 7 + s * 3" 10, simplified] zdiv_mono1 [of "10 * s" "c * 7 + s * 3" 10, simplified])
  show "ewma c s \<le> max c s" unfolding e by (simp add: max_def zdiv_mono1 [of "c * 7 + s * 3" "10 * c" 10, simplified] zdiv_mono1 [of "c * 7 + s * 3" "10 * s" 10, simplified])
qed

lemma acceptance_rate_range:
  assumes "0 \<le> accepted" "accepted \<le> proposed" "proposed < 2 ^ 49" "0 \<le> AcceptanceRate d" "AcceptanceRate d \<le> 10000"
  shows "0 \<le> AcceptanceRate (RecordAcceptance accepted proposed d) \<and> AcceptanceRate (RecordAcceptance accepted proposed d) \<le> 10000"
proof (cases "proposed = 0")
  case False
  have "wrap64 (accepted * 10000) = accepted * 10000" using assms(1-3) by (intro wrap64_id) auto
  then have r: "go_div (wrap64 (accepted * 10000)) proposed = accepted * 10000 div proposed" using assms(1,2) False by simp
  have "accepted * 10000 div proposed \<le> proposed * 10000 div proposed" using assms(1,2) False by (intro zdiv_mono1) simp_all
  then have "0 \<le> accepted * 10000 div proposed" "accepted * 10000 div proposed \<le> 10000"
    using assms(1,2) False by (simp_all add: pos_imp_zdiv_nonneg_iff)
  moreover from this have "min (AcceptanceRate d) (accepted * 10000 div proposed) \<le> ewma (AcceptanceRate d) (accepted * 10000 div proposed)"
    "ewma (AcceptanceRate d) (accepted * 10000 div proposed) \<le> max (AcceptanceRate d) (accepted * 10000 div proposed)"
    using assms(4,5) by (intro ewma_bounds; simp)+
  ultimately have "0 \<le> ewma (AcceptanceRate d) (accepted * 10000 div proposed)" "ewma (AcceptanceRate d) (accepted * 10000 div proposed) \<le> 10000"
    using assms(4,5) by linarith+
  then show ?thesis using False r by (simp add: RecordAcceptance_def)
qed (use assms in \<open>simp add: RecordAcceptance_def\<close>)

lemma RecordLatency_get:
  "\<exists>conn. RecordLatency now addr lat p addr = Some conn \<and> ErrorCount conn = 0 \<and> ep_LastUsed conn = now"
  by (simp add: RecordLatency_def Let_def split: prod.split)

lemma fastest_loop_known:
  assumes "\<forall>a \<in> set cs. p a \<noteq> None" "\<forall>a \<in> set cs. a \<noteq> ''''"
  shows "(\<forall>a \<in> set cs. best \<le> endpoint_score (the (p a))) \<and> fastest_loop p all b best cs = (if b = '''' \<and> length all > 0 then hd all else b) \<or>
    fastest_loop p all b best cs \<in> set cs \<and>
    (\<forall>a \<in> set cs. endpoint_score (the (p (fastest_loop p all b best cs))) \<le> endpoint_score (the (p a))) \<and>
    endpoint_score (the (p (fastest_loop p all b best cs))) < best"
  using assms
proof (induction cs arbitrary: b best)
  case (Cons c cs)
  obtain conn where c: "p c = Some conn" using Cons.prems(1) by auto
  show ?case
  proof (cases "endpoint_score conn < best")
    case True
    then show ?thesis using Cons.IH [of "endpoint_score conn" c] Cons.prems c by (auto simp: Let_def)
  next
    case False
    then show ?thesis using Cons.IH [of best b] Cons.prems c by (auto simp: Let_def)
  qed
qed simp

text \<open>Among known endpoints whose scores stay below the sentinel, the chosen one has the least score.\<close>

lemma FastestEndpoint_least:
  assumes "cs \<noteq> []" "\<forall>a \<in> set cs. p a \<noteq> None \<and> a \<noteq> '''' \<and> endpoint_score (the (p a)) < 2 ^ 62 - 1"
  shows "FastestEndpoint p cs \<in> set cs \<and> (\<forall>a \<in> set cs. endpoint_score (the (p (FastestEndpoint p cs))) \<le> endpoint_score (the (p a)))"
  using fastest_loop_known [of cs p "2 ^ 62 - 1" cs "''''"] assms unfolding FastestEndpoint_def by (cases cs) force+

end
