(* ===== verification/Access_Plane.thy ===== *)
theory Access_Plane
  imports Prelude
begin

text \<open>
  The access plane of \<open>src/internal/accessplane/policy.go\<close>: the validated catalog of tenant policies
  and the evaluation that admits a request to a model, asks for backpressure or rejects it.

  A policy's routes are a Go map; the loops over it take the order of the keys (per policy). Errors
  are the sum type \<open>policy_error\<close>, one constructor per message. The context of \<open>EvaluateContext\<close> is
  the result of its two \<open>Err\<close> calls.
\<close>

section \<open>Types\<close>

datatype Disposition_ap = DispositionAdmit_ap | DispositionBackpressure_ap | DispositionReject_ap

record Intent =
  in_TenantID :: string
  in_Route :: string

record TargetPolicy =
  tp_Model :: string
  tp_MaxInFlight :: int

record RoutePolicy =
  Targets :: "TargetPolicy list"

record TenantPolicy =
  tn_TenantID :: string
  tn_MaxInFlight :: int
  MaxQueueDepth :: int
  Routes :: "string \<rightharpoonup> RoutePolicy"

record TenantObservation =
  to_InFlight :: int
  QueueDepth :: int

record ModelObservation =
  Ready :: bool
  mo_InFlight :: int

record RuntimeObservation =
  ro_Tenant :: TenantObservation
  Models :: "string \<rightharpoonup> ModelObservation"

record Decision_ap =
  da_Disposition :: Disposition_ap
  da_Model :: string
  da_Reason :: string
  QueueCapacityRemaining :: int

record Evaluator =
  tenants :: "string \<rightharpoonup> TenantPolicy"

datatype policy_error = TenantIDRequired | MaxInFlightNotPositive string | MaxQueueDepthNegative string | NoRoute string
  | RouteNameRequired string | RouteWithoutTargets string string | InvalidTarget string string
  | RepeatedTarget string string string | DuplicateTenant string | EvaluationCanceled

section \<open>Validation of the catalog\<close>

fun target_loop :: "string \<Rightarrow> string \<Rightarrow> string set \<Rightarrow> TargetPolicy list \<Rightarrow> policy_error option" where
  "target_loop tenantID name seen [] = None"
| "target_loop tenantID name seen (target # rest) =
     (if tp_Model target = '''' \<or> tp_MaxInFlight target \<le> 0 then Some (InvalidTarget tenantID name)
      else if tp_Model target \<in> seen then Some (RepeatedTarget tenantID name (tp_Model target))
      else target_loop tenantID name (insert (tp_Model target) seen) rest)"

definition validateRoutePolicy :: "string \<Rightarrow> string \<Rightarrow> RoutePolicy \<Rightarrow> policy_error option" where
  "validateRoutePolicy tenantID name route =
     (if name = '''' then Some (RouteNameRequired tenantID)
      else if length (Targets route) = 0 then Some (RouteWithoutTargets tenantID name)
      else target_loop tenantID name {} (Targets route))"

fun route_loop :: "TenantPolicy \<Rightarrow> string list \<Rightarrow> policy_error option" where
  "route_loop policy [] = None"
| "route_loop policy (name # rest) =
     (case Routes policy name of None \<Rightarrow> route_loop policy rest
      | Some route \<Rightarrow> (case validateRoutePolicy (tn_TenantID policy) name route of
            Some e \<Rightarrow> Some e
          | None \<Rightarrow> route_loop policy rest))"

definition validateTenantPolicy :: "string list \<Rightarrow> TenantPolicy \<Rightarrow> policy_error option" where
  "validateTenantPolicy keys policy =
     (if tn_TenantID policy = '''' then Some TenantIDRequired
      else if tn_MaxInFlight policy \<le> 0 then Some (MaxInFlightNotPositive (tn_TenantID policy))
      else if MaxQueueDepth policy < 0 then Some (MaxQueueDepthNegative (tn_TenantID policy))
      else if length keys = 0 then Some (NoRoute (tn_TenantID policy))
      else route_loop policy keys)"

definition cloneTenantPolicy :: "TenantPolicy \<Rightarrow> TenantPolicy" where
  "cloneTenantPolicy policy =
     policy\<lparr>Routes := (\<lambda>name. map_option (\<lambda>route. \<lparr>Targets = [] @ Targets route\<rparr>) (Routes policy name))\<rparr>"

text \<open>The loop of \<open>NewEvaluator\<close>: each policy comes with the order in which its routes are visited.\<close>

fun catalog_loop :: "(string list \<times> TenantPolicy) list \<Rightarrow> (string \<rightharpoonup> TenantPolicy) \<Rightarrow> policy_error + (string \<rightharpoonup> TenantPolicy)" where
  "catalog_loop [] ts = Inr ts"
| "catalog_loop ((keys, policy) # rest) ts =
     (case validateTenantPolicy keys policy of Some e \<Rightarrow> Inl e
      | None \<Rightarrow>
        if ts (tn_TenantID policy) \<noteq> None then Inl (DuplicateTenant (tn_TenantID policy))
        else catalog_loop rest (ts(tn_TenantID policy \<mapsto> cloneTenantPolicy policy)))"

definition NewEvaluator :: "(string list \<times> TenantPolicy) list \<Rightarrow> policy_error + Evaluator" where
  "NewEvaluator policies = (case catalog_loop policies Map.empty of Inl e \<Rightarrow> Inl e | Inr ts \<Rightarrow> Inr \<lparr>tenants = ts\<rparr>)"

section \<open>Evaluation\<close>

definition reject :: "string \<Rightarrow> Decision_ap" where
  "reject reason = \<lparr>da_Disposition = DispositionReject_ap, da_Model = '''', da_Reason = reason, QueueCapacityRemaining = 0\<rparr>"

definition capacityDecision :: "TenantPolicy \<Rightarrow> RuntimeObservation \<Rightarrow> string \<Rightarrow> Decision_ap" where
  "capacityDecision policy observed reason =
     (let remaining = wrap64 (MaxQueueDepth policy - QueueDepth (ro_Tenant observed)) in
      if remaining > 0
      then \<lparr>da_Disposition = DispositionBackpressure_ap, da_Model = '''', da_Reason = reason, QueueCapacityRemaining = remaining\<rparr>
      else reject ''queue-capacity-exhausted'')"

text \<open>The loop over the observed models returns at the first negative load; the order does not matter.\<close>

fun observation_loop :: "(string \<rightharpoonup> ModelObservation) \<Rightarrow> string list \<Rightarrow> bool" where
  "observation_loop models [] = True"
| "observation_loop models (k # ks) =
     (case models k of None \<Rightarrow> observation_loop models ks
      | Some model \<Rightarrow> if mo_InFlight model < 0 then False else observation_loop models ks)"

definition validObservation :: "string list \<Rightarrow> RuntimeObservation \<Rightarrow> bool" where
  "validObservation keys observed =
     (if to_InFlight (ro_Tenant observed) < 0 \<or> QueueDepth (ro_Tenant observed) < 0 then False
      else observation_loop (Models observed) keys)"

fun select_target :: "RuntimeObservation \<Rightarrow> TargetPolicy list \<Rightarrow> string option" where
  "select_target observed [] = None"
| "select_target observed (target # rest) =
     (case Models observed (tp_Model target) of
        Some load \<Rightarrow> if Ready load \<and> mo_InFlight load < tp_MaxInFlight target then Some (tp_Model target)
          else select_target observed rest
      | None \<Rightarrow> select_target observed rest)"

definition Evaluate :: "string list \<Rightarrow> Evaluator \<Rightarrow> Intent \<Rightarrow> RuntimeObservation \<Rightarrow> Decision_ap" where
  "Evaluate keys e intent observed =
     (case tenants e (in_TenantID intent) of None \<Rightarrow> reject ''tenant-not-admitted''
      | Some policy \<Rightarrow>
        if \<not> validObservation keys observed then reject ''invalid-runtime-observation''
        else (case Routes policy (in_Route intent) of None \<Rightarrow> reject ''route-not-admitted''
          | Some route \<Rightarrow>
            if to_InFlight (ro_Tenant observed) \<ge> tn_MaxInFlight policy
            then capacityDecision policy observed ''tenant-concurrency-limit''
            else (case select_target observed (Targets route) of
                Some model \<Rightarrow> \<lparr>da_Disposition = DispositionAdmit_ap, da_Model = model, da_Reason = ''target-eligible'',
                  QueueCapacityRemaining = 0\<rparr>
              | None \<Rightarrow> capacityDecision policy observed ''no-eligible-target'')))"

definition EvaluateContext :: "bool \<Rightarrow> bool \<Rightarrow> string list \<Rightarrow> Evaluator \<Rightarrow> Intent \<Rightarrow> RuntimeObservation \<Rightarrow>
    policy_error + Decision_ap" where
  "EvaluateContext err1 err2 keys e intent observed =
     (if err1 then Inl EvaluationCanceled
      else let decision = Evaluate keys e intent observed in
        if err2 then Inl EvaluationCanceled else Inr decision)"

section \<open>What the catalog guarantees\<close>

definition route_valid :: "string \<Rightarrow> RoutePolicy \<Rightarrow> bool" where
  "route_valid name route \<longleftrightarrow> name \<noteq> '''' \<and> Targets route \<noteq> [] \<and> distinct (map tp_Model (Targets route)) \<and>
     (\<forall>t \<in> set (Targets route). tp_Model t \<noteq> '''' \<and> 0 < tp_MaxInFlight t)"

definition tenant_valid :: "TenantPolicy \<Rightarrow> bool" where
  "tenant_valid policy \<longleftrightarrow> tn_TenantID policy \<noteq> '''' \<and> 0 < tn_MaxInFlight policy \<and> 0 \<le> MaxQueueDepth policy \<and>
     Routes policy \<noteq> Map.empty \<and> (\<forall>name route. Routes policy name = Some route \<longrightarrow> route_valid name route)"

lemma target_loop_None:
  "target_loop tid name seen ts = None \<longleftrightarrow>
     (\<forall>t \<in> set ts. tp_Model t \<noteq> '''' \<and> 0 < tp_MaxInFlight t \<and> tp_Model t \<notin> seen) \<and> distinct (map tp_Model ts)"
  by (induction ts arbitrary: seen) (auto simp: not_le intro: rev_image_eqI)

lemma validateRoutePolicy_None: "validateRoutePolicy tid name route = None \<longleftrightarrow> route_valid name route"
  by (auto simp: validateRoutePolicy_def route_valid_def target_loop_None)

lemma route_loop_None:
  "route_loop policy keys = None \<longleftrightarrow> (\<forall>name \<in> set keys. \<forall>route. Routes policy name = Some route \<longrightarrow> route_valid name route)"
  proof (induction keys)
  case (Cons name keys)
  then show ?case
    using validateRoutePolicy_None [of "tn_TenantID policy" name "the (Routes policy name)"]
    by (cases "Routes policy name") (auto split: option.split)
qed simp

lemma validateTenantPolicy_None:
  assumes "iteration_order keys (Routes policy)"
  shows "validateTenantPolicy keys policy = None \<longleftrightarrow> tenant_valid policy"
proof -
  have "keys = [] \<longleftrightarrow> Routes policy = Map.empty" using assms by (metis dom_eq_empty_conv iteration_order_def list.set(1) set_empty)
  moreover have "name \<in> set keys" if "Routes policy name = Some route" for name route
    using assms that by (auto simp: iteration_order_def)
  ultimately show ?thesis
    unfolding validateTenantPolicy_def tenant_valid_def by (auto simp: route_loop_None)
qed

lemma clone_id [simp]: "cloneTenantPolicy policy = policy"
proof -
  have "(\<lambda>name. map_option (\<lambda>route. \<lparr>Targets = Targets route\<rparr>) (Routes policy name)) = Routes policy"
    by (rule ext) (simp add: map_option_case split: option.split)
  then show ?thesis by (simp add: cloneTenantPolicy_def)
qed

text \<open>The catalog of a successful call: the policies as given, under their tenant identifiers.\<close>

definition catalog_of :: "(string list \<times> TenantPolicy) list \<Rightarrow> string \<rightharpoonup> TenantPolicy" where
  "catalog_of policies = map_of (map (\<lambda>(keys, p). (tn_TenantID p, p)) policies)"

lemma catalog_loop_Inr:
  assumes "\<forall>(keys, p) \<in> set policies. iteration_order keys (Routes p)" "catalog_loop policies ts = Inr ts'"
  shows "(\<forall>(keys, p) \<in> set policies. tenant_valid p \<and> ts (tn_TenantID p) = None) \<and>
    distinct (map (tn_TenantID \<circ> snd) policies) \<and> ts' = ts ++ catalog_of policies"
  using assms
proof (induction policies arbitrary: ts)
  case (Cons kp policies)
  obtain keys p where kp: "kp = (keys, p)" by fastforce
  have v: "tenant_valid p" "ts (tn_TenantID p) = None" "catalog_loop policies (ts(tn_TenantID p \<mapsto> p)) = Inr ts'"
    using Cons.prems validateTenantPolicy_None [of keys p] by (auto simp: kp split: option.splits if_splits)
  have "\<forall>(keys, p) \<in> set policies. iteration_order keys (Routes p)" using Cons.prems(1) by simp
  note ind = Cons.IH [OF this v(3)]
  note IH = ind [THEN conjunct1] ind [THEN conjunct2, THEN conjunct1] ind [THEN conjunct2, THEN conjunct2]
  have new: "tn_TenantID q \<noteq> tn_TenantID p \<and> ts (tn_TenantID q) = None" if "(ks, q) \<in> set policies" for ks q
    using IH(1) that by (auto split: if_splits)
  then have "tn_TenantID p \<notin> (tn_TenantID \<circ> snd) ` set policies" by force
  moreover have "catalog_of policies (tn_TenantID p) = None"
    using new by (fastforce simp: catalog_of_def map_of_eq_None_iff)
  then have "ts' = ts ++ catalog_of (kp # policies)"
    unfolding IH(3) by (auto simp: catalog_of_def kp map_add_def fun_eq_iff split: option.splits)
  ultimately show ?case using v(1,2) IH new by (auto simp: kp)
qed (simp add: catalog_of_def)

lemma NewEvaluator_Inr:
  assumes "\<forall>(keys, p) \<in> set policies. iteration_order keys (Routes p)" "NewEvaluator policies = Inr e"
  shows "tenants e = catalog_of policies" "\<forall>(keys, p) \<in> set policies. tenant_valid p"
    "tenants e tid = Some p \<longleftrightarrow> (\<exists>keys. (keys, p) \<in> set policies) \<and> tn_TenantID p = tid"
proof -
  have l: "catalog_loop policies Map.empty = Inr (tenants e)"
    using assms(2) by (auto simp: NewEvaluator_def split: sum.splits)
  note c = catalog_loop_Inr [OF assms(1) l]
  show t: "tenants e = catalog_of policies" and "\<forall>(keys, p) \<in> set policies. tenant_valid p" using c by auto
  have "distinct (map fst (map (\<lambda>(keys, p). (tn_TenantID p, p)) policies))"
    using c by (simp add: comp_def case_prod_beta)
  then show "tenants e tid = Some p \<longleftrightarrow> (\<exists>keys. (keys, p) \<in> set policies) \<and> tn_TenantID p = tid"
    unfolding t catalog_of_def by (subst map_of_eq_Some_iff) force+
qed

section \<open>What an evaluation decides\<close>

definition eligible :: "RuntimeObservation \<Rightarrow> TargetPolicy \<Rightarrow> bool" where
  "eligible observed t \<longleftrightarrow>
     (\<exists>load. Models observed (tp_Model t) = Some load \<and> Ready load \<and> mo_InFlight load < tp_MaxInFlight t)"

definition valid_load :: "RuntimeObservation \<Rightarrow> bool" where
  "valid_load observed \<longleftrightarrow> 0 \<le> to_InFlight (ro_Tenant observed) \<and> 0 \<le> QueueDepth (ro_Tenant observed) \<and>
     (\<forall>m load. Models observed m = Some load \<longrightarrow> 0 \<le> mo_InFlight load)"

lemma observation_loop_iff:
  "observation_loop models ks \<longleftrightarrow> (\<forall>k \<in> set ks. \<forall>load. models k = Some load \<longrightarrow> 0 \<le> mo_InFlight load)"
  by (induction ks) (auto split: option.splits)

lemma validObservation_iff:
  "iteration_order ks (Models observed) \<Longrightarrow> validObservation ks observed \<longleftrightarrow> valid_load observed"
  by (auto simp: validObservation_def valid_load_def observation_loop_iff iteration_order_def)

lemma select_target_find: "select_target observed ts = map_option tp_Model (find (eligible observed) ts)"
  by (induction ts) (auto simp: eligible_def split: option.splits)

text \<open>The tenant's policy and route that a request falls under.\<close>

definition serves :: "Evaluator \<Rightarrow> Intent \<Rightarrow> RuntimeObservation \<Rightarrow> TenantPolicy \<Rightarrow> RoutePolicy \<Rightarrow> bool" where
  "serves e intent observed p route \<longleftrightarrow> tenants e (in_TenantID intent) = Some p \<and> valid_load observed \<and>
     Routes p (in_Route intent) = Some route"

lemma Evaluate_unserved:
  assumes "iteration_order ks (Models observed)" "\<nexists>p route. serves e intent observed p route"
  shows "\<exists>r. Evaluate ks e intent observed = reject r"
  using assms(2) validObservation_iff [OF assms(1)] by (auto simp: serves_def Evaluate_def split: option.splits)

lemma Evaluate_served:
  assumes "iteration_order ks (Models observed)" "serves e intent observed p route"
  shows "Evaluate ks e intent observed =
    (if to_InFlight (ro_Tenant observed) \<ge> tn_MaxInFlight p then capacityDecision p observed ''tenant-concurrency-limit''
     else (case select_target observed (Targets route) of
         Some model \<Rightarrow> \<lparr>da_Disposition = DispositionAdmit_ap, da_Model = model, da_Reason = ''target-eligible'', QueueCapacityRemaining = 0\<rparr>
       | None \<Rightarrow> capacityDecision p observed ''no-eligible-target''))"
  using assms(2) validObservation_iff [OF assms(1)] by (simp add: serves_def Evaluate_def)

lemma capacityDecision_fields:
  assumes "0 \<le> MaxQueueDepth p" "MaxQueueDepth p < 2 ^ 63" "0 \<le> QueueDepth (ro_Tenant observed)" "QueueDepth (ro_Tenant observed) < 2 ^ 63"
  shows "da_Disposition (capacityDecision p observed r) =
      (if QueueDepth (ro_Tenant observed) < MaxQueueDepth p then DispositionBackpressure_ap else DispositionReject_ap)"
    "da_Model (capacityDecision p observed r) = ''''"
    "QueueCapacityRemaining (capacityDecision p observed r) = max 0 (MaxQueueDepth p - QueueDepth (ro_Tenant observed))"
proof -
  have w: "wrap64 (MaxQueueDepth p - QueueDepth (ro_Tenant observed)) = MaxQueueDepth p - QueueDepth (ro_Tenant observed)"
    using assms by (intro wrap64_id) linarith+
  show "da_Disposition (capacityDecision p observed r) =
      (if QueueDepth (ro_Tenant observed) < MaxQueueDepth p then DispositionBackpressure_ap else DispositionReject_ap)"
    "da_Model (capacityDecision p observed r) = ''''"
    "QueueCapacityRemaining (capacityDecision p observed r) = max 0 (MaxQueueDepth p - QueueDepth (ro_Tenant observed))"
    unfolding capacityDecision_def w by (simp_all add: Let_def reject_def)
qed

text \<open>
  C38. A catalog holds exactly the policies it was built from, all of them valid. Over it, a request
  is admitted exactly when its tenant is known and under its limit, the observation is sound, the
  route belongs to the tenant and some target of the route is ready and under its limit; the model
  is the first such target. Backpressure is answered exactly when the tenant is at its limit or no
  target is eligible and the queue has room, with the room that is left; everything else is rejected.
\<close>

theorem Evaluate_spec:
  assumes "\<forall>(keys, p) \<in> set policies. iteration_order keys (Routes p) \<and> MaxQueueDepth p < 2 ^ 63"
    and "NewEvaluator policies = Inr e" "iteration_order ks (Models observed)" "QueueDepth (ro_Tenant observed) < 2 ^ 63"
    and "d = Evaluate ks e intent observed"
  shows "(\<forall>tid p. tenants e tid = Some p \<longleftrightarrow> (\<exists>keys. (keys, p) \<in> set policies) \<and> tn_TenantID p = tid) \<and>
    (\<forall>(keys, p) \<in> set policies. tenant_valid p) \<and>
    (\<forall>p route. serves e intent observed p route \<longrightarrow>
      (let target = find (eligible observed) (Targets route);
           admit = (to_InFlight (ro_Tenant observed) < tn_MaxInFlight p \<and> target \<noteq> None);
           room = MaxQueueDepth p - QueueDepth (ro_Tenant observed)
       in da_Disposition d = (if admit then DispositionAdmit_ap else if 0 < room then DispositionBackpressure_ap else DispositionReject_ap) \<and>
          da_Model d = (if admit then tp_Model (the target) else '''') \<and>
          QueueCapacityRemaining d = (if admit then 0 else max 0 room))) \<and>
    ((\<nexists>p route. serves e intent observed p route) \<longrightarrow>
      da_Disposition d = DispositionReject_ap \<and> da_Model d = '''' \<and> QueueCapacityRemaining d = 0)"
proof -
  have orders: "\<forall>(keys, p) \<in> set policies. iteration_order keys (Routes p)" using assms(1) by auto
  note cat = NewEvaluator_Inr [OF orders assms(2)]
  have "da_Disposition d = DispositionReject_ap \<and> da_Model d = '''' \<and> QueueCapacityRemaining d = 0"
    if "\<nexists>p route. serves e intent observed p route"
    using Evaluate_unserved [OF assms(3) that] assms(5) by (auto simp: reject_def)
  moreover have "let target = find (eligible observed) (Targets route);
           admit = (to_InFlight (ro_Tenant observed) < tn_MaxInFlight p \<and> target \<noteq> None);
           room = MaxQueueDepth p - QueueDepth (ro_Tenant observed)
       in da_Disposition d = (if admit then DispositionAdmit_ap else if 0 < room then DispositionBackpressure_ap else DispositionReject_ap) \<and>
          da_Model d = (if admit then tp_Model (the target) else '''') \<and>
          QueueCapacityRemaining d = (if admit then 0 else max 0 room)"
    if pr: "serves e intent observed p route" for p route
  proof -
    have "\<exists>keys. (keys, p) \<in> set policies" "valid_load observed" using pr cat(3) by (auto simp: serves_def)
    then have "0 \<le> MaxQueueDepth p" "MaxQueueDepth p < 2 ^ 63" "0 \<le> QueueDepth (ro_Tenant observed)"
      using assms(1) cat(2) by (auto simp: tenant_valid_def valid_load_def)
    note cap = capacityDecision_fields [OF this assms(4)]
    show ?thesis unfolding assms(5) Evaluate_served [OF assms(3) pr] select_target_find
      by (cases "tn_MaxInFlight p \<le> to_InFlight (ro_Tenant observed)"; cases "find (eligible observed) (Targets route)")
        (simp_all add: cap)
  qed
  ultimately show ?thesis using cat(2,3) by blast
qed

section \<open>A concrete catalog\<close>

definition sample_policy :: TenantPolicy where
  "sample_policy = \<lparr>tn_TenantID = ''t'', tn_MaxInFlight = 2, MaxQueueDepth = 5,
     Routes = [''r'' \<mapsto> \<lparr>Targets = [\<lparr>tp_Model = ''a'', tp_MaxInFlight = 1\<rparr>, \<lparr>tp_Model = ''b'', tp_MaxInFlight = 3\<rparr>]\<rparr>]\<rparr>"

definition sample_load :: RuntimeObservation where
  "sample_load = \<lparr>ro_Tenant = \<lparr>to_InFlight = 1, QueueDepth = 0\<rparr>,
     Models = [''a'' \<mapsto> \<lparr>Ready = True, mo_InFlight = 1\<rparr>, ''b'' \<mapsto> \<lparr>Ready = True, mo_InFlight = 0\<rparr>]\<rparr>"

theorem Evaluate_spec_witness:
  "\<exists>e. NewEvaluator [([''r''], sample_policy)] = Inr e \<and>
     da_Model (Evaluate [''b'', ''a''] e \<lparr>in_TenantID = ''t'', in_Route = ''r''\<rparr> sample_load) = ''b''"
proof -
  obtain e where e: "NewEvaluator [([''r''], sample_policy)] = Inr e" "tenants e ''t'' = Some sample_policy"
    by (simp add: NewEvaluator_def validateTenantPolicy_def validateRoutePolicy_def) (simp add: sample_policy_def validateRoutePolicy_def)
  have o: "\<forall>(keys, p) \<in> set [([''r''], sample_policy)]. iteration_order keys (Routes p) \<and> MaxQueueDepth p < 2 ^ 63"
    "iteration_order [''b'', ''a''] (Models sample_load)" "QueueDepth (ro_Tenant sample_load) < 2 ^ 63"
    by (auto simp: sample_policy_def sample_load_def iteration_order_def split: if_splits)
  note Evaluate_spec [OF o(1) e(1) o(2,3) refl, of "\<lparr>in_TenantID = ''t'', in_Route = ''r''\<rparr>"]
  moreover have "serves e \<lparr>in_TenantID = ''t'', in_Route = ''r''\<rparr> sample_load sample_policy (the (Routes sample_policy ''r''))"
    using e(2) by (auto simp: serves_def sample_policy_def sample_load_def valid_load_def split: if_splits)
  moreover have "find (eligible sample_load) (Targets (the (Routes sample_policy ''r''))) = Some \<lparr>tp_Model = ''b'', tp_MaxInFlight = 3\<rparr>"
    "to_InFlight (ro_Tenant sample_load) < tn_MaxInFlight sample_policy"
    by (simp_all add: sample_policy_def sample_load_def eligible_def)
  ultimately have "da_Model (Evaluate [''b'', ''a''] e \<lparr>in_TenantID = ''t'', in_Route = ''r''\<rparr> sample_load) = ''b''"
    by (simp add: Let_def)
  with e(1) show ?thesis by blast
qed

end
