(* ===== verification/Inference_Pipeline.thy ===== *)
theory Inference_Pipeline
  imports Inference_Load Access_Plane Sha256 Binary_Tensor
begin

text \<open>
  The request pipeline of \<open>src/internal/inference\<close>: the semantic cache (\<open>cache.go\<close>), the router
  (\<open>router.go\<close>), anticipatory prefetching (\<open>cache.go\<close>), chunked pipelining
  (\<open>bleeding_edge.go\<close>), the preloader, the coalescer, the latency budget, and \<open>RequestPipeline.Execute\<close>
  (\<open>request_pipeline.go\<close>, \<open>request_pipeline_phases.go\<close>), which evaluates the access policy, then tries
  the cache, routes, and runs the inference.

  The call of the V2 protocol client is the argument \<open>infer\<close>: given the deadline of the context, the
  address, the model, the version and the request, whether the endpoint answers without an error. A
  context is its deadline; whether it is done is read at the two checks of the policy. The wait for a preload takes time and its error is dropped, so it shows only in the later
  readings of the clock. The Redis
  backend, the tracing spans and the warm-up requests over the network are left out. A channel that is
  only closed is the flag whether it is closed; closing it twice panics, the value \<open>None\<close>. Readings of
  the clock are arguments; the methods hold their locks, so each is one step.
\<close>

section \<open>Semantic cache\<close>

record memCacheEntry =
  me_response :: string
  me_hitCount :: int
  me_lastAccess :: gotime
  me_expiresAt :: gotime

type_synonym mem_cache = "string \<rightharpoonup> memCacheEntry"

definition Get_mem :: "gotime \<Rightarrow> gotime \<Rightarrow> string \<Rightarrow> mem_cache \<Rightarrow> mem_cache \<times> string option" where
  "Get_mem now1 now2 key c =
     (case c key of None \<Rightarrow> (c, None)
      | Some e \<Rightarrow>
        if \<not> IsZero (me_expiresAt e) \<and> now1 > me_expiresAt e then (c(key := None), None)
        else (c(key \<mapsto> e\<lparr>me_hitCount := wrap64 (me_hitCount e + 1), me_lastAccess := now2\<rparr>), Some (me_response e)))"

definition Set_mem :: "gotime \<Rightarrow> gotime \<Rightarrow> string \<Rightarrow> string \<Rightarrow> duration \<Rightarrow> mem_cache \<Rightarrow> mem_cache" where
  "Set_mem now1 now2 key response ttl c =
     c(key \<mapsto> \<lparr>me_response = response, me_hitCount = 1, me_lastAccess = now1,
        me_expiresAt = (if ttl > 0 then time_add now2 ttl else 0)\<rparr>)"

record SemanticCache =
  sc_backend :: mem_cache
  sc_ttl :: duration

definition mustInMemoryCache :: SemanticCache where
  "mustInMemoryCache = \<lparr>sc_backend = Map.empty, sc_ttl = 3600 * 10 ^ 9\<rparr>"

definition hashPrompt :: "string \<Rightarrow> string" where
  "hashPrompt prompt = sha256_hex prompt"

definition GetExact :: "gotime \<Rightarrow> gotime \<Rightarrow> string \<Rightarrow> SemanticCache \<Rightarrow> SemanticCache \<times> string option" where
  "GetExact now1 now2 prompt s = (let (c, r) = Get_mem now1 now2 (hashPrompt prompt) (sc_backend s) in (s\<lparr>sc_backend := c\<rparr>, r))"

definition StoreExact :: "gotime \<Rightarrow> gotime \<Rightarrow> string \<Rightarrow> string \<Rightarrow> SemanticCache \<Rightarrow> SemanticCache" where
  "StoreExact now1 now2 prompt response s = s\<lparr>sc_backend := Set_mem now1 now2 (hashPrompt prompt) response (sc_ttl s) (sc_backend s)\<rparr>"

section \<open>Routing\<close>

record RouteResult =
  rr_Endpoint :: string
  rr_CacheHit :: bool
  EstimatedLatencyMs :: int
  RoutingLatency :: duration

definition Route :: "gotime \<Rightarrow> gotime \<Rightarrow> string \<Rightarrow> string list \<Rightarrow> endpoint_pool \<Rightarrow> endpoint_pool \<times> RouteResult" where
  "Route start stop sessionEndpoint candidates pool =
     (let (pool1, conn) = (if sessionEndpoint \<noteq> '''' then (let (p, c) = Get_pool sessionEndpoint pool in (p, Some c)) else (pool, None))
      in if (case conn of Some c \<Rightarrow> ErrorCount c < 3 | None \<Rightarrow> False)
         then (pool1, \<lparr>rr_Endpoint = sessionEndpoint, rr_CacheHit = True, EstimatedLatencyMs = AvgLatencyMs (the conn), RoutingLatency = time_sub stop start\<rparr>)
         else let endpoint = FastestEndpoint pool1 candidates
           in if endpoint \<noteq> ''''
              then (let (pool2, c) = Get_pool endpoint pool1
                in (pool2, \<lparr>rr_Endpoint = endpoint, rr_CacheHit = False, EstimatedLatencyMs = AvgLatencyMs c, RoutingLatency = time_sub stop start\<rparr>))
              else (pool1, \<lparr>rr_Endpoint = endpoint, rr_CacheHit = False, EstimatedLatencyMs = 0, RoutingLatency = time_sub stop start\<rparr>))"

section \<open>Prefetching and chunked pipelining\<close>

record Intent_typing =
  ti_UserID :: string
  ti_SessionID :: string
  ti_PartialPrompt :: string
  ti_Confidence :: float64

definition HandleIntent :: "gotime \<Rightarrow> gotime \<Rightarrow> Intent_typing \<Rightarrow> string list \<Rightarrow> endpoint_pool \<times> (string \<rightharpoonup> string) \<Rightarrow>
    endpoint_pool \<times> (string \<rightharpoonup> string)" where
  "HandleIntent start stop intent candidates st =
     (let (pool, warmPaths) = st in
      if flt (ti_Confidence intent) (round64 (7 / 10)) then (pool, warmPaths)
      else let (pool, result) = Route start stop (ti_SessionID intent) candidates pool
        in if rr_Endpoint result = '''' then (pool, warmPaths)
           else (fst (Get_pool (rr_Endpoint result) pool), warmPaths(ti_SessionID intent \<mapsto> rr_Endpoint result)))"

definition GetWarmedEndpoint :: "string \<Rightarrow> (string \<rightharpoonup> string) \<Rightarrow> (string \<rightharpoonup> string) \<times> string option" where
  "GetWarmedEndpoint sessionID warmPaths =
     (case warmPaths sessionID of Some ep \<Rightarrow> (warmPaths(sessionID := None), Some ep) | None \<Rightarrow> (warmPaths, None))"

record PipeSession =
  ps_SessionID :: string
  ps_Endpoint :: string
  ps_Chunks :: int
  ps_SequenceID :: string
  ps_LastActive :: gotime

type_synonym pipe_sessions = "string \<rightharpoonup> PipeSession"

definition PushChunk :: "gotime \<Rightarrow> string \<Rightarrow> endpoint_pool \<times> pipe_sessions \<Rightarrow> endpoint_pool \<times> pipe_sessions" where
  "PushChunk now sessionID st =
     (let (pool, sessions) = st;
          sess = (case sessions sessionID of Some sess \<Rightarrow> sess
            | None \<Rightarrow> \<lparr>ps_SessionID = sessionID, ps_Endpoint = FastestEndpoint pool [], ps_Chunks = 0,
                ps_SequenceID = ''pipe-'' @ sessionID, ps_LastActive = 0\<rparr>);
          sess = sess\<lparr>ps_Chunks := wrap64 (ps_Chunks sess + 1), ps_LastActive := now\<rparr>
      in (fst (Get_pool (ps_Endpoint sess) pool), sessions(sessionID \<mapsto> sess)))"

definition GetPipelinedEndpoint :: "gotime \<Rightarrow> string \<Rightarrow> pipe_sessions \<Rightarrow> pipe_sessions \<times> (string \<times> string) option" where
  "GetPipelinedEndpoint now sessionID sessions =
     (case sessions sessionID of
        Some sess \<Rightarrow> (sessions(sessionID \<mapsto> sess\<lparr>ps_LastActive := now\<rparr>), Some (ps_Endpoint sess, ps_SequenceID sess))
      | None \<Rightarrow> (sessions, None))"

definition evictStaleSessions :: "gotime \<Rightarrow> string list \<Rightarrow> pipe_sessions \<Rightarrow> pipe_sessions" where
  "evictStaleSessions now keys sessions =
     fold (\<lambda>id ss. case ss id of None \<Rightarrow> ss
       | Some sess \<Rightarrow> if ps_LastActive sess < time_add now (- (300 * 10 ^ 9)) then ss(id := None) else ss) keys sessions"

section \<open>Preloader\<close>

datatype PreloadPhase = PreloadPending | PreloadDownloading | PreloadLoading | PreloadWarming | PreloadReady | PreloadFailed

record 'e PreloadState =
  pl_ModelName :: string
  pl_Phase :: PreloadPhase
  pl_StartTime :: gotime
  pl_ReadyTime :: gotime
  pl_Error :: "'e option"
  pl_closed :: bool

type_synonym 'e preloads = "string \<rightharpoonup> 'e PreloadState"

datatype 'e wait_error = NotQueued | PreloadError 'e | PreloadTimeout

definition Start :: "gotime \<Rightarrow> string \<Rightarrow> 'e preloads \<Rightarrow> 'e preloads" where
  "Start now modelName p = (if p modelName \<noteq> None then p
     else p(modelName \<mapsto> \<lparr>pl_ModelName = modelName, pl_Phase = PreloadPending, pl_StartTime = now, pl_ReadyTime = 0, pl_Error = None, pl_closed = False\<rparr>))"

definition MarkReady :: "gotime \<Rightarrow> string \<Rightarrow> 'e preloads \<Rightarrow> 'e preloads option" where
  "MarkReady now modelName p = (case p modelName of None \<Rightarrow> Some p
     | Some state \<Rightarrow> if pl_closed state then None
         else Some (p(modelName \<mapsto> state\<lparr>pl_Phase := PreloadReady, pl_ReadyTime := now, pl_closed := True\<rparr>)))"

definition MarkFailed :: "string \<Rightarrow> 'e \<Rightarrow> 'e preloads \<Rightarrow> 'e preloads option" where
  "MarkFailed modelName err p = (case p modelName of None \<Rightarrow> Some p
     | Some state \<Rightarrow> if pl_closed state then None
         else Some (p(modelName \<mapsto> state\<lparr>pl_Phase := PreloadFailed, pl_Error := Some err, pl_closed := True\<rparr>)))"

text \<open>What \<open>WaitReady\<close> returns when the state does not change before the context is done.\<close>

definition WaitReady :: "string \<Rightarrow> 'e preloads \<Rightarrow> 'e wait_error option" where
  "WaitReady modelName p = (case p modelName of None \<Rightarrow> Some NotQueued
     | Some state \<Rightarrow> if pl_closed state then map_option PreloadError (pl_Error state) else Some PreloadTimeout)"

definition LoadDuration :: "string \<Rightarrow> 'e preloads \<Rightarrow> duration" where
  "LoadDuration modelName p = (case p modelName of None \<Rightarrow> 0
     | Some state \<Rightarrow> if pl_Phase state = PreloadReady then time_sub (pl_ReadyTime state) (pl_StartTime state) else 0)"

section \<open>Coalescer\<close>

text \<open>A waiter is the identity of its channel.\<close>

record coalescedRequest =
  co_waiters :: "nat list"
  co_createdAt :: gotime

record Coalescer =
  co_pending :: "string \<rightharpoonup> coalescedRequest"
  co_window :: duration
  co_maxBatch :: int

definition Submit :: "gotime \<Rightarrow> nat \<Rightarrow> string \<Rightarrow> Coalescer \<Rightarrow> Coalescer" where
  "Submit now ch key c =
     (case co_pending c key of
        Some req \<Rightarrow>
          if int (length (co_waiters req)) < co_maxBatch c
          then c\<lparr>co_pending := (co_pending c)(key \<mapsto> req\<lparr>co_waiters := co_waiters req @ [ch]\<rparr>)\<rparr>
          else c\<lparr>co_pending := (co_pending c)(key \<mapsto> \<lparr>co_waiters = [ch], co_createdAt = now\<rparr>)\<rparr>
      | None \<Rightarrow> c\<lparr>co_pending := (co_pending c)(key \<mapsto> \<lparr>co_waiters = [ch], co_createdAt = now\<rparr>)\<rparr>)"

definition flushable :: "gotime \<Rightarrow> Coalescer \<Rightarrow> coalescedRequest \<Rightarrow> bool" where
  "flushable now c req \<longleftrightarrow> co_createdAt req < time_add now (wrap64 (- co_window c)) \<or> int (length (co_waiters req)) \<ge> co_maxBatch c"

definition Flush :: "gotime \<Rightarrow> Coalescer \<Rightarrow> Coalescer \<times> (string \<rightharpoonup> nat list)" where
  "Flush now c =
     (c\<lparr>co_pending := (\<lambda>key. case co_pending c key of Some req \<Rightarrow> if flushable now c req then None else Some req | None \<Rightarrow> None)\<rparr>,
      \<lambda>key. case co_pending c key of Some req \<Rightarrow> if flushable now c req then Some (co_waiters req) else None | None \<Rightarrow> None)"

section \<open>Latency budget\<close>

record LatencyBudget =
  TotalBudget :: duration
  RoutingBudget :: duration
  PrefillBudget :: duration
  DecodeBudget :: duration
  lb_Deadline :: gotime

definition DefaultLatencyBudget :: "gotime \<Rightarrow> LatencyBudget" where
  "DefaultLatencyBudget now = \<lparr>TotalBudget = 30 * 10 ^ 9, RoutingBudget = 50 * 10 ^ 6, PrefillBudget = 10 * 10 ^ 9,
     DecodeBudget = 30 * 10 ^ 9 - 50 * 10 ^ 6 - 10 * 10 ^ 9, lb_Deadline = time_add now (30 * 10 ^ 9)\<rparr>"

definition Remaining_lb :: "gotime \<Rightarrow> LatencyBudget \<Rightarrow> duration" where
  "Remaining_lb now b = time_sub (lb_Deadline b) now"

text \<open>\<open>context.WithDeadline\<close> keeps the deadline of the parent when that is earlier.\<close>

type_synonym ctx = "gotime option"

definition WithDeadline :: "ctx \<Rightarrow> gotime \<Rightarrow> ctx" where
  "WithDeadline parent d = Some (case parent of None \<Rightarrow> d | Some e \<Rightarrow> min e d)"

definition WithContext :: "LatencyBudget \<Rightarrow> ctx \<Rightarrow> ctx" where
  "WithContext b parent = WithDeadline parent (lb_Deadline b)"

text \<open>The deadline that \<open>PhaseContext\<close> puts on its context.\<close>

definition PhaseContext :: "gotime \<Rightarrow> gotime \<Rightarrow> string \<Rightarrow> LatencyBudget \<Rightarrow> gotime" where
  "PhaseContext now1 now2 phase b =
     (let budget = (if phase = ''route'' then RoutingBudget b else if phase = ''prefill'' then PrefillBudget b
            else if phase = ''decode'' then DecodeBudget b else Remaining_lb now1 b);
          deadline = time_add now2 budget
      in if deadline > lb_Deadline b then lb_Deadline b else deadline)"

definition Exceeded :: "gotime \<Rightarrow> LatencyBudget \<Rightarrow> bool" where
  "Exceeded now b \<longleftrightarrow> now > lb_Deadline b"

section \<open>The pipeline\<close>

record RequestPipeline =
  rp_pool :: endpoint_pool
  rp_preloader :: "string preloads"
  rp_cache :: SemanticCache
  rp_warmPaths :: "string \<rightharpoonup> string"
  rp_sessions :: pipe_sessions
  rp_policy :: "Evaluator option"

record InferenceRequest =
  ir_TenantID :: string
  ir_Route :: string
  AccessObservation :: RuntimeObservation
  ir_Model :: string
  ir_SessionID :: string
  SessionEndpoint :: string
  Candidates :: "string list"
  ir_Prompt :: string
  ir_MaxTokens :: int
  ir_Stream :: bool

record PhaseTimings =
  RoutingMs :: float64
  QueueMs :: float64
  PrefillMs :: float64
  DecodeMs :: float64
  TransferMs :: float64

record InferenceResponse =
  PolicyDecision :: "Decision_ap option"
  is_Model :: string
  is_Endpoint :: string
  is_CacheHit :: bool
  Phases :: PhaseTimings
  TotalLatency :: duration

datatype execute_error = PolicyCanceled | AccessPolicyError Decision_ap | NoHealthyEndpoint | BudgetExceeded | InferenceFailed

text \<open>
  The environment of one execution: the caller's deadline, the state of the context at the two checks of
  the policy, the order of the observed models, and every reading of the clock: at the start and in
  \<open>DefaultLatencyBudget\<close>, two in the cache and one after a hit, at the update of the session, around the routing, at
  the check of the budget, for the total latency, for the recorded latency and for the last use.
\<close>

record exec_env =
  ctx_parent :: ctx
  ctx_err1 :: bool
  ctx_err2 :: bool
  model_order :: "string list"
  t_start :: gotime
  t_budget :: gotime
  t_cache1 :: gotime
  t_cache2 :: gotime
  t_hit :: gotime
  t_session :: gotime
  t_route1 :: gotime
  t_route2 :: gotime
  t_check :: gotime
  t_total :: gotime
  t_release :: gotime
  t_used :: gotime

definition newRequestPipeline :: "Evaluator option \<Rightarrow> RequestPipeline" where
  "newRequestPipeline policy = \<lparr>rp_pool = Map.empty, rp_preloader = Map.empty, rp_cache = mustInMemoryCache, rp_warmPaths = Map.empty, rp_sessions = Map.empty, rp_policy = policy\<rparr>"

definition NewRequestPipeline :: RequestPipeline where
  "NewRequestPipeline = newRequestPipeline None"

definition NewRequestPipelineWithPolicy :: "Evaluator option \<Rightarrow> RequestPipeline option" where
  "NewRequestPipelineWithPolicy policy = (if policy = None then None else Some (newRequestPipeline policy))"

text \<open>The fields of a V2 request that the pipeline sets.\<close>

record InferInput =
  ii_Name :: string
  ii_Shape :: "int list"
  ii_Datatype :: Datatype
  ii_Data :: "string list"

record InferRequest =
  iq_ID :: string
  iq_Inputs :: "InferInput list"

definition buildInferRequest :: "InferenceRequest \<Rightarrow> InferRequest" where
  "buildInferRequest req = \<lparr>iq_ID = ir_SessionID req,
     iq_Inputs = [\<lparr>ii_Name = ''prompt'', ii_Shape = [1], ii_Datatype = DatatypeBYTES, ii_Data = [ir_Prompt req]\<rparr>]\<rparr>"

type_synonym v2_client = "ctx \<Rightarrow> string \<Rightarrow> string \<Rightarrow> string \<Rightarrow> InferRequest \<Rightarrow> bool"

definition runInference :: "v2_client \<Rightarrow> ctx \<Rightarrow> InferenceRequest \<Rightarrow> string \<Rightarrow> bool" where
  "runInference infer ctx req endpoint = infer ctx (''http://'' @ endpoint) (ir_Model req) '''' (buildInferRequest req)"

definition warmedRouteResult :: "string \<Rightarrow> gotime \<Rightarrow> gotime \<Rightarrow> RequestPipeline \<Rightarrow> RequestPipeline \<times> RouteResult" where
  "warmedRouteResult endpoint start stop p =
     (let (pool, conn) = Get_pool endpoint (rp_pool p)
      in (p\<lparr>rp_pool := pool\<rparr>, \<lparr>rr_Endpoint = endpoint, rr_CacheHit = True, EstimatedLatencyMs = AvgLatencyMs conn, RoutingLatency = time_sub stop start\<rparr>))"

definition resolveRoute :: "exec_env \<Rightarrow> InferenceRequest \<Rightarrow> RequestPipeline \<Rightarrow> RequestPipeline \<times> RouteResult" where
  "resolveRoute env req p =
     (case GetPipelinedEndpoint (t_session env) (ir_SessionID req) (rp_sessions p) of
        (sessions, Some (endpoint, _)) \<Rightarrow> warmedRouteResult endpoint (t_start env) (t_route2 env) (p\<lparr>rp_sessions := sessions\<rparr>)
      | (sessions, None) \<Rightarrow>
        (case GetWarmedEndpoint (ir_SessionID req) (rp_warmPaths p) of
           (warm, Some endpoint) \<Rightarrow> warmedRouteResult endpoint (t_start env) (t_route2 env) (p\<lparr>rp_warmPaths := warm\<rparr>)
         | (warm, None) \<Rightarrow>
           (let (pool, r) = Route (t_route1 env) (t_route2 env) (SessionEndpoint req) (Candidates req) (rp_pool p) in (p\<lparr>rp_pool := pool\<rparr>, r))))"

definition releaseRequest :: "exec_env \<Rightarrow> string \<Rightarrow> endpoint_pool \<Rightarrow> endpoint_pool" where
  "releaseRequest env endpoint pool =
     (let pool = (case pool endpoint of None \<Rightarrow> pool | Some conn \<Rightarrow> pool(endpoint \<mapsto> conn\<lparr>ActiveRequests := wrap64 (ActiveRequests conn - 1)\<rparr>))
      in RecordLatency (t_used env div 10 ^ 6 - 62135596800000) endpoint (time_sub (t_release env) (t_start env)) pool)"

text \<open>
  The phases after admission: cache, route, connection, budget, inference. The client is called under the
  context of the budget; nothing checks the clock after it returns.
\<close>

definition run_phases :: "exec_env \<Rightarrow> v2_client \<Rightarrow> InferenceRequest \<Rightarrow> InferenceResponse \<Rightarrow> RequestPipeline \<Rightarrow>
    RequestPipeline \<times> (execute_error + InferenceResponse)" where
  "run_phases env infer req resp p =
     (case GetExact (t_cache1 env) (t_cache2 env) (ir_Prompt req) (rp_cache p) of
        (cache, Some _) \<Rightarrow> (p\<lparr>rp_cache := cache\<rparr>,
          Inr (resp\<lparr>is_Endpoint := ''semantic-cache'', is_CacheHit := True, TotalLatency := time_sub (t_hit env) (t_start env)\<rparr>))
      | (cache, None) \<Rightarrow>
        (case resolveRoute env req (p\<lparr>rp_cache := cache\<rparr>) of (p, route) \<Rightarrow>
          if rr_Endpoint route = '''' then (p, Inl NoHealthyEndpoint)
          else let endpoint = rr_Endpoint route;
                   _ = WaitReady (ir_Model req) (rp_preloader p);
                   resp = resp\<lparr>is_Endpoint := endpoint, is_CacheHit := rr_CacheHit route,
                     Phases := Phases resp\<lparr>RoutingMs := fdiv (float_of_int (go_div (RoutingLatency route) 1000)) (Fin 1000)\<rparr>\<rparr>;
                   (pool, conn) = Get_pool endpoint (rp_pool p);
                   pool = pool(endpoint \<mapsto> conn\<lparr>ActiveRequests := wrap64 (ActiveRequests conn + 1)\<rparr>);
                   done_p = p\<lparr>rp_pool := releaseRequest env endpoint pool\<rparr>;
                   budget = DefaultLatencyBudget (t_budget env)
            in if Exceeded (t_check env) budget then (done_p, Inl BudgetExceeded)
               else if \<not> runInference infer (WithContext budget (ctx_parent env)) req endpoint then (done_p, Inl InferenceFailed)
               else (done_p, Inr (resp\<lparr>TotalLatency := time_sub (t_total env) (t_start env)\<rparr>))))"



section \<open>The contract of a cache backend\<close>

text \<open>What the comments of \<open>CacheBackend\<close> promise, and what the facade makes of it.\<close>

locale cache_backend =
  fixes get :: "gotime \<Rightarrow> gotime \<Rightarrow> string \<Rightarrow> 'c \<Rightarrow> 'c \<times> string option"
    and put :: "gotime \<Rightarrow> gotime \<Rightarrow> string \<Rightarrow> string \<Rightarrow> duration \<Rightarrow> 'c \<Rightarrow> 'c"
  assumes hit: "0 < ttl \<Longrightarrow> 0 < u' \<Longrightarrow> t \<le> time_add u' ttl \<Longrightarrow> snd (get t t' k (put u u' k v ttl c)) = Some v"
    and miss: "0 < ttl \<Longrightarrow> 0 < u' \<Longrightarrow> time_add u' ttl < t \<Longrightarrow> snd (get t t' k (put u u' k v ttl c)) = None"
    and other: "k \<noteq> k' \<Longrightarrow> snd (get t t' k (put u u' k' v ttl c)) = snd (get t t' k c)"
begin

lemma exact_hit: "0 < ttl \<Longrightarrow> 0 < u' \<Longrightarrow> t \<le> time_add u' ttl \<Longrightarrow>
    snd (get t t' (hashPrompt q) (put u u' (hashPrompt q) v ttl c)) = Some v"
  by (rule hit)

lemma last_write_wins:
  assumes "0 < ttl" "0 < u'" "t \<le> time_add u' ttl"
  shows "snd (get t t' (hashPrompt q) (put u u' (hashPrompt q) v ttl (put w w' (hashPrompt q') v' ttl' c))) = Some v"
    "hashPrompt q' \<noteq> hashPrompt q \<Longrightarrow> snd (get t t' (hashPrompt q) (put w w' (hashPrompt q') v' ttl' (put u u' (hashPrompt q) v ttl c))) = Some v"
  using hit [OF assms] other by auto

end

interpretation mem: cache_backend Get_mem Set_mem
  by unfold_locales (auto simp: Get_mem_def Set_mem_def time_add_def split: option.splits)

lemma GetExact_StoreExact:
  assumes "0 < sc_ttl s" "0 < u'" "t \<le> time_add u' (sc_ttl s)"
  shows "snd (GetExact t t' q (StoreExact u u' q v s)) = Some v"
  using mem.exact_hit [OF assms, of t' q u v "sc_backend s"] by (simp add: GetExact_def StoreExact_def case_prod_beta Let_def)

section \<open>Load accounting\<close>

definition active :: "endpoint_pool \<Rightarrow> string \<Rightarrow> int" where
  "active pool a = (case pool a of None \<Rightarrow> 0 | Some conn \<Rightarrow> ActiveRequests conn)"

lemma active_Get [simp]: "active (fst (Get_pool a pool)) = active pool" "ActiveRequests (snd (Get_pool a pool)) = active pool a"
  by (auto simp: Get_pool_def active_def fun_eq_iff Let_def split: option.splits)

lemma Get_pool_pair: "Get_pool a pool = (pool', conn) \<Longrightarrow> active pool' = active pool \<and> ActiveRequests conn = active pool a"
  using active_Get [of a pool] by simp

lemma active_upd [simp]: "active (pool(a \<mapsto> conn)) = (active pool)(a := ActiveRequests conn)"
  by (simp add: active_def fun_eq_iff)

lemma active_RecordLatency [simp]: "active (RecordLatency now a lat pool) = active pool"
proof -
  obtain pool' conn where g: "Get_pool a pool = (pool', conn)" by fastforce
  from Get_pool_pair [OF g] show ?thesis by (simp add: RecordLatency_def g Let_def)
qed




section \<open>Execution\<close>

lemma resolveRoute_policy [simp]: "rp_policy (fst (resolveRoute env req p)) = rp_policy p"
  by (auto simp: resolveRoute_def warmedRouteResult_def split: prod.splits option.splits)







section \<open>Requests that do not reach an endpoint\<close>

text \<open>Scoring no candidates gives no endpoint, so the first chunk of a session binds it to the empty address.\<close>

lemma pushed_session_endpoint:
  assumes "sessions sid = None" "PushChunk now sid (pool, sessions) = (pool', sessions')"
  shows "\<exists>sess. sessions' sid = Some sess \<and> ps_Endpoint sess = ''''"
  using assms by (auto simp: PushChunk_def FastestEndpoint_def Let_def)

text \<open>From then on every request of the session that misses the cache fails, whatever its candidates, and keeps the session alive.\<close>

lemma pipelined_session_unroutable:
  assumes "rp_sessions p (ir_SessionID req) = Some sess" "ps_Endpoint sess = ''''"
    and "snd (GetExact (t_cache1 env) (t_cache2 env) (ir_Prompt req) (rp_cache p)) = None"
    and "run_phases env infer req resp p = (p', r)"
  shows "r = Inl NoHealthyEndpoint \<and> rp_sessions p' (ir_SessionID req) = Some (sess\<lparr>ps_LastActive := t_session env\<rparr>)"
  using assms by (auto simp: run_phases_def resolveRoute_def GetPipelinedEndpoint_def warmedRouteResult_def split: prod.splits)

text \<open>
  The prefetcher hands the session identifier to the router as the session's endpoint, so what it
  warms, and what the request is then sent to, is the identifier itself.
\<close>

lemma prefetch_warms_session_id:
  assumes "fle (round64 (7 / 10)) (ti_Confidence intent)" "ti_SessionID intent \<noteq> ''''" "pool (ti_SessionID intent) = None"
    and "HandleIntent start stop intent candidates (pool, warm) = (pool', warm')"
  shows "warm' (ti_SessionID intent) = Some (ti_SessionID intent)"
  using assms by (auto simp: HandleIntent_def Route_def Get_pool_def Let_def flt_def fle_def split: if_splits)

text \<open>A failed inference counts as a success of the endpoint: its error count is zero afterwards.\<close>

lemma RecordLatency_clears: "\<exists>conn. RecordLatency now a lat pool a = Some conn \<and> ErrorCount conn = 0"
  by (simp add: RecordLatency_def Let_def split: prod.split)

lemma failed_inference_clears_errors:
  assumes "run_phases env infer req resp p = (p', Inl InferenceFailed)"
  shows "\<exists>ep conn. \<not> runInference infer (WithContext (DefaultLatencyBudget (t_budget env)) (ctx_parent env)) req ep \<and> rp_pool p' ep = Some conn \<and> ErrorCount conn = 0"
proof -
  have "\<exists>ep pool. \<not> runInference infer (WithContext (DefaultLatencyBudget (t_budget env)) (ctx_parent env)) req ep \<and> rp_pool p' = releaseRequest env ep pool"
    using assms by (auto simp: run_phases_def Let_def split: prod.splits if_splits option.splits) blast
  then obtain ep pool where "\<not> runInference infer (WithContext (DefaultLatencyBudget (t_budget env)) (ctx_parent env)) req ep" "rp_pool p' = releaseRequest env ep pool" by blast
  moreover have "\<exists>conn. releaseRequest env ep pool ep = Some conn \<and> ErrorCount conn = 0"
    by (simp add: releaseRequest_def Let_def RecordLatency_clears)
  ultimately show ?thesis by auto
qed

text \<open>The cache is keyed by the prompt alone: a stored answer is a hit for every tenant and every model.\<close>

lemma cache_hit_ignores_model:
  assumes "snd (GetExact (t_cache1 env) (t_cache2 env) (ir_Prompt req) (rp_cache p)) = Some v"
  shows "\<exists>resp'. snd (run_phases env infer (req\<lparr>ir_TenantID := t, ir_Model := m\<rparr>) resp p) = Inr resp' \<and>
    is_Endpoint resp' = ''semantic-cache'' \<and> is_Model resp' = is_Model resp"
  using assms by (auto simp: run_phases_def split: prod.splits)

text \<open>A model whose preload failed is served like one that is ready.\<close>

lemma resolveRoute_preloader:
  "resolveRoute env req (p\<lparr>rp_preloader := l\<rparr>) = (let (q, r) = resolveRoute env req p in (q\<lparr>rp_preloader := l\<rparr>, r))"
  by (auto simp: resolveRoute_def warmedRouteResult_def Let_def split: prod.splits option.splits)

lemma failed_preload_ignored:
  "snd (run_phases env infer req resp (p\<lparr>rp_preloader := l\<rparr>)) = snd (run_phases env infer req resp p)"
proof -
  have c: "p\<lparr>rp_preloader := l, rp_cache := c\<rparr> = p\<lparr>rp_cache := c, rp_preloader := l\<rparr>" for c by simp
  show ?thesis unfolding run_phases_def c resolveRoute_preloader by (auto simp: Let_def split: prod.splits option.splits)
qed

section \<open>Coalescer, preloader and budget\<close>

lemma Submit_joins:
  assumes "co_pending c key = Some req" "int (length (co_waiters req)) < co_maxBatch c"
  shows "co_pending (Submit now ch key c) key = Some (req\<lparr>co_waiters := co_waiters req @ [ch]\<rparr>)"
  using assms by (simp add: Submit_def)

text \<open>What a flush returns is what it removes: no waiter is answered twice or dropped by it.\<close>

lemma Flush_partition:
  "map_option co_waiters (co_pending c k) = (case snd (Flush now c) k of Some ws \<Rightarrow> Some ws
     | None \<Rightarrow> map_option co_waiters (co_pending (fst (Flush now c)) k)) \<and>
   (snd (Flush now c) k = None \<or> co_pending (fst (Flush now c)) k = None)"
  by (auto simp: Flush_def split: option.splits)

text \<open>Submitting to a batch that is already full drops its waiters: no flush returns them.\<close>

lemma full_batch_dropped:
  assumes "co_pending c key = Some req" "co_maxBatch c \<le> int (length (co_waiters req))"
    and "\<And>k r. co_pending c k = Some r \<Longrightarrow> k \<noteq> key \<Longrightarrow> w \<notin> set (co_waiters r)"
    and "w \<in> set (co_waiters req)" "w \<noteq> ch" "snd (Flush later (Submit now ch key c)) k = Some ws"
  shows "w \<notin> set ws"
proof (cases "k = key")
  case True
  then show ?thesis using assms(1,2,5,6) by (auto simp: Submit_def Flush_def split: if_splits)
next
  case False
  then show ?thesis using assms(1,2,3,6) by (auto simp: Submit_def Flush_def split: option.splits if_splits)
qed

lemma Start_WaitReady: "p m = None \<Longrightarrow> WaitReady m (Start now m p) = Some PreloadTimeout"
  by (simp add: Start_def WaitReady_def)

lemma MarkReady_WaitReady:
  assumes "p m = Some st" "\<not> pl_closed st" "pl_Error st = None"
  shows "\<exists>p'. MarkReady now m p = Some p' \<and> WaitReady m p' = None \<and> LoadDuration m p' = time_sub now (pl_StartTime st)"
  using assms by (simp add: MarkReady_def WaitReady_def LoadDuration_def)

text \<open>The channel is closed without a check: the second outcome for a model panics.\<close>

lemma second_outcome_panics:
  assumes "p m \<noteq> None" "MarkReady now m p = Some p' \<or> MarkFailed m err p = Some p'"
  shows "MarkReady later m p' = None \<and> MarkFailed m err' p' = None"
  using assms by (auto simp: MarkReady_def MarkFailed_def split: option.splits if_splits)

lemma PhaseContext_deadline: "PhaseContext now1 now2 phase b \<le> lb_Deadline b"
  by (simp add: PhaseContext_def Let_def)

end
