(* ===== verification/Inference_Caches.thy ===== *)
theory Inference_Caches
  imports Prelude Sha256
begin

text \<open>
  The two bounded caches beside the request pipeline in \<open>src/internal/inference\<close>: adapters pinned in
  host memory (\<open>LoRAPinManager\<close> of \<open>bleeding_edge.go\<close>) and prompt prefixes known to be warm on some
  endpoint (\<open>PrefixCacheWarmer\<close> of \<open>advanced.go\<close>), with the annotations of the two network bypasses
  (\<open>bleeding_edge.go\<close>, \<open>extreme.go\<close>).

  The order in which the run time visits a map is the argument \<open>order\<close>, a function of the number of
  the visit and of the map. A nil map is \<open>None\<close>.
\<close>

unbundle bit_operations_syntax

section \<open>Pinned adapters\<close>

record LoRAPin =
  lp_AdapterID :: string
  lp_SizeBytes :: int
  lp_PinCount :: int
  lp_LastUsed :: gotime

record LoRAPinManager =
  lm_pinned :: "string \<rightharpoonup> LoRAPin"
  lm_maxCapacity :: int
  lm_used :: int

datatype lora_error = InsufficientPinnedMemory | NotPrePinned string

definition NewLoRAPinManager :: "int \<Rightarrow> LoRAPinManager" where
  "NewLoRAPinManager capacityMB = \<lparr>lm_pinned = Map.empty, lm_maxCapacity = wrap64 (capacityMB * 1024 * 1024), lm_used = 0\<rparr>"

fun oldest_loop :: "(string \<rightharpoonup> LoRAPin) \<Rightarrow> string list \<Rightarrow> (string \<times> LoRAPin) option \<Rightarrow> (string \<times> LoRAPin) option" where
  "oldest_loop pinned [] oldest = oldest"
| "oldest_loop pinned (i # ids) oldest =
     (case pinned i of
        None \<Rightarrow> oldest_loop pinned ids oldest
      | Some pin \<Rightarrow>
        if lp_PinCount pin > 0 then oldest_loop pinned ids oldest
        else if (case oldest of None \<Rightarrow> True | Some (_, best) \<Rightarrow> lp_LastUsed pin < lp_LastUsed best)
        then oldest_loop pinned ids (Some (i, pin))
        else oldest_loop pinned ids oldest)"

definition evictOldest :: "string list \<Rightarrow> LoRAPinManager \<Rightarrow> LoRAPinManager \<times> bool" where
  "evictOldest keys l =
     (case oldest_loop (lm_pinned l) keys None of
        None \<Rightarrow> (l, False)
      | Some (oldestID, oldest) \<Rightarrow>
        (l\<lparr>lm_pinned := (lm_pinned l)(oldestID := None), lm_used := wrap64 (lm_used l - lp_SizeBytes oldest)\<rparr>, True))"

text \<open>The loop that makes room, with fuel; \<open>None\<close> is running out of it.\<close>

fun make_room :: "(nat \<Rightarrow> (string \<rightharpoonup> LoRAPin) \<Rightarrow> string list) \<Rightarrow> nat \<Rightarrow> int \<Rightarrow> LoRAPinManager \<Rightarrow> (LoRAPinManager \<times> bool) option" where
  "make_room order 0 sizeBytes l = None"
| "make_room order (Suc n) sizeBytes l =
     (if wrap64 (lm_used l + sizeBytes) > lm_maxCapacity l
      then (case evictOldest (order n (lm_pinned l)) l of
          (l', False) \<Rightarrow> Some (l', False)
        | (l', True) \<Rightarrow> make_room order n sizeBytes l')
      else Some (l, True))"

definition Prefetch :: "(nat \<Rightarrow> (string \<rightharpoonup> LoRAPin) \<Rightarrow> string list) \<Rightarrow> gotime \<Rightarrow> string \<Rightarrow> int \<Rightarrow> LoRAPinManager \<Rightarrow>
    (LoRAPinManager \<times> lora_error option) option" where
  "Prefetch order now adapterID sizeBytes l =
     (if lm_pinned l adapterID \<noteq> None then Some (l, None)
      else map_option (\<lambda>(l, room).
          if \<not> room then (l, Some InsufficientPinnedMemory)
          else (l\<lparr>lm_pinned := (lm_pinned l)(adapterID \<mapsto>
                    \<lparr>lp_AdapterID = adapterID, lp_SizeBytes = sizeBytes, lp_PinCount = 0, lp_LastUsed = now\<rparr>),
                  lm_used := wrap64 (lm_used l + sizeBytes)\<rparr>, None))
        (make_room order (Suc (length (order 0 (lm_pinned l)))) sizeBytes l))"

definition LockAdapter :: "gotime \<Rightarrow> string \<Rightarrow> LoRAPinManager \<Rightarrow> LoRAPinManager \<times> lora_error option" where
  "LockAdapter now adapterID l =
     (case lm_pinned l adapterID of None \<Rightarrow> (l, Some (NotPrePinned adapterID))
      | Some pin \<Rightarrow> (l\<lparr>lm_pinned := (lm_pinned l)(adapterID \<mapsto> pin\<lparr>lp_PinCount := wrap32 (lp_PinCount pin + 1), lp_LastUsed := now\<rparr>)\<rparr>, None))"

definition UnlockAdapter :: "string \<Rightarrow> LoRAPinManager \<Rightarrow> LoRAPinManager" where
  "UnlockAdapter adapterID l =
     (case lm_pinned l adapterID of None \<Rightarrow> l
      | Some pin \<Rightarrow> if lp_PinCount pin > 0
          then l\<lparr>lm_pinned := (lm_pinned l)(adapterID \<mapsto> pin\<lparr>lp_PinCount := lp_PinCount pin - 1\<rparr>)\<rparr> else l)"

section \<open>Warm prefixes\<close>

definition hashPrefix :: "string \<Rightarrow> u64" where
  "hashPrefix pfx = foldl (\<lambda>h c. (h XOR of_nat (of_char c)) * 1099511628211) 14695981039346656037 pfx"

definition hex16 :: "u64 \<Rightarrow> string" where
  "hex16 h = hex_word (ucast (drop_bit 32 h)) @ hex_word (ucast h)"

record PrefixEntry =
  pe_Hash :: u64
  pe_Text :: string
  pe_Endpoints :: "string list"
  pe_HitCount :: int
  pe_LastUsed :: int
  pe_TokenCount :: int

type_synonym prefix_warmer = "string \<rightharpoonup> PrefixEntry"

definition Register :: "string \<Rightarrow> int \<Rightarrow> prefix_warmer \<Rightarrow> prefix_warmer \<times> PrefixEntry" where
  "Register pfx tokenCount w =
     (let hash = hashPrefix pfx; key = hex16 hash in
      case w key of Some entry \<Rightarrow> (w, entry)
      | None \<Rightarrow> let entry = \<lparr>pe_Hash = hash, pe_Text = pfx, pe_Endpoints = [], pe_HitCount = 0, pe_LastUsed = 0, pe_TokenCount = tokenCount\<rparr>
          in (w(key \<mapsto> entry), entry))"

text \<open>\<open>now\<close> is the clock in milliseconds since the Unix epoch.\<close>

definition LookupEndpoint :: "int \<Rightarrow> string \<Rightarrow> prefix_warmer \<Rightarrow> prefix_warmer \<times> string list" where
  "LookupEndpoint now pfx w =
     (let key = hex16 (hashPrefix pfx) in
      case w key of None \<Rightarrow> (w, [])
      | Some entry \<Rightarrow> (w(key \<mapsto> entry\<lparr>pe_HitCount := wrap64 (pe_HitCount entry + 1), pe_LastUsed := now\<rparr>), pe_Endpoints entry))"

definition MarkCached :: "string \<Rightarrow> string \<Rightarrow> prefix_warmer \<Rightarrow> prefix_warmer" where
  "MarkCached pfx endpoint w =
     (let key = hex16 (hashPrefix pfx) in
      case w key of None \<Rightarrow> w
      | Some entry \<Rightarrow> if endpoint \<in> set (pe_Endpoints entry) then w
          else w(key \<mapsto> entry\<lparr>pe_Endpoints := pe_Endpoints entry @ [endpoint]\<rparr>))"

definition stale_prefix :: "int \<Rightarrow> PrefixEntry \<Rightarrow> bool" where
  "stale_prefix cutoff entry \<longleftrightarrow> pe_LastUsed entry < cutoff \<and> pe_HitCount entry < 10"

fun evict_stale_loop :: "int \<Rightarrow> string list \<Rightarrow> prefix_warmer \<Rightarrow> int \<Rightarrow> prefix_warmer \<times> int" where
  "evict_stale_loop cutoff [] w evicted = (w, evicted)"
| "evict_stale_loop cutoff (key # keys) w evicted =
     (case w key of None \<Rightarrow> evict_stale_loop cutoff keys w evicted
      | Some entry \<Rightarrow> if stale_prefix cutoff entry then evict_stale_loop cutoff keys (w(key := None)) (evicted + 1)
          else evict_stale_loop cutoff keys w evicted)"

definition EvictStale :: "gotime \<Rightarrow> duration \<Rightarrow> string list \<Rightarrow> prefix_warmer \<Rightarrow> prefix_warmer \<times> int" where
  "EvictStale now maxAge keys w = evict_stale_loop (time_add now (wrap64 (- maxAge)) div 10 ^ 6 - 62135596800000) keys w 0"

section \<open>Network bypasses\<close>

record EBPFConfig =
  EnableXDP :: bool
  TargetDevice :: string
  InferencePorts :: "int list"

definition ApplyBypass :: "EBPFConfig \<Rightarrow> (string \<rightharpoonup> string) option \<Rightarrow> (string \<rightharpoonup> string) option" where
  "ApplyBypass e annotations =
     (if \<not> EnableXDP e \<or> annotations = None then annotations
      else Some ((the annotations)(''k8s.v1.cni.cncf.io/networks'' \<mapsto> ''xdp-bypass-net'', ''ebpf.ckodex.org/xdp-acceleration'' \<mapsto> ''enabled'')))"

record ZeroCopyConfig =
  EnableRDMA :: bool
  ResourceName :: string
  SharedMemorySize :: string

definition ApplyZeroCopy :: "ZeroCopyConfig \<Rightarrow> (string \<rightharpoonup> string) option \<times> (string \<rightharpoonup> string) option \<Rightarrow>
    (string \<rightharpoonup> string) option \<times> (string \<rightharpoonup> string) option" where
  "ApplyZeroCopy z m =
     (let (annotations, limits) = m in
      if \<not> EnableRDMA z then (annotations, limits)
      else (map_option (\<lambda>a. a(''k8s.v1.cni.cncf.io/networks'' \<mapsto> ''roce-network'')) annotations,
        if limits \<noteq> None \<and> ResourceName z \<noteq> '''' then map_option (\<lambda>a. a(ResourceName z \<mapsto> ''1'')) limits else limits))"

section \<open>Pinned memory is accounted for\<close>

definition pin_total :: "(string \<rightharpoonup> LoRAPin) \<Rightarrow> int" where
  "pin_total m = (\<Sum>i \<in> dom m. lp_SizeBytes (the (m i)))"

definition locked :: "(string \<rightharpoonup> LoRAPin) \<Rightarrow> (string \<rightharpoonup> LoRAPin)" where
  "locked m = m |` {i. \<exists>pin. m i = Some pin \<and> 0 < lp_PinCount pin}"

text \<open>The bytes in use are those of the pinned adapters, and fit.\<close>

definition lora_inv :: "LoRAPinManager \<Rightarrow> bool" where
  "lora_inv l \<longleftrightarrow> finite (dom (lm_pinned l)) \<and> lm_used l = pin_total (lm_pinned l) \<and>
     (\<forall>i pin. lm_pinned l i = Some pin \<longrightarrow> 0 \<le> lp_SizeBytes pin) \<and>
     lm_used l \<le> lm_maxCapacity l \<and> lm_maxCapacity l < 2 ^ 62"

lemma pin_total_remove:
  assumes "finite (dom m)" "m i = Some pin"
  shows "pin_total (m(i := None)) = pin_total m - lp_SizeBytes pin"
proof -
  have d: "dom m = insert i (dom m - {i})" "dom (m(i := None)) = dom m - {i}" using assms(2) by auto
  have "pin_total m = lp_SizeBytes pin + (\<Sum>j \<in> dom m - {i}. lp_SizeBytes (the (m j)))"
    unfolding pin_total_def by (subst d(1), subst sum.insert) (use assms in auto)
  moreover have "pin_total (m(i := None)) = (\<Sum>j \<in> dom m - {i}. lp_SizeBytes (the (m j)))"
    unfolding pin_total_def d(2) by (intro sum.cong) auto
  ultimately show ?thesis by simp
qed

lemma pin_total_add:
  assumes "finite (dom m)" "m i = None"
  shows "pin_total (m(i \<mapsto> pin)) = pin_total m + lp_SizeBytes pin"
  using pin_total_remove [of "m(i \<mapsto> pin)" i pin] assms fun_upd_idem [of m i None] by simp

lemma pin_total_nonneg: "(\<And>i pin. m i = Some pin \<Longrightarrow> 0 \<le> lp_SizeBytes pin) \<Longrightarrow> 0 \<le> pin_total m"
  unfolding pin_total_def by (intro sum_nonneg) auto

lemma oldest_loop_result:
  assumes "case oldest of None \<Rightarrow> True | Some (j, pin) \<Rightarrow> m j = Some pin \<and> lp_PinCount pin \<le> 0"
  shows "case oldest_loop m ids oldest of
      None \<Rightarrow> oldest = None \<and> (\<forall>i \<in> set ids. \<forall>pin. m i = Some pin \<longrightarrow> 0 < lp_PinCount pin)
    | Some (j, best) \<Rightarrow> m j = Some best \<and> lp_PinCount best \<le> 0 \<and>
        (\<forall>i \<in> set ids. \<forall>pin. m i = Some pin \<longrightarrow> lp_PinCount pin \<le> 0 \<longrightarrow> lp_LastUsed best \<le> lp_LastUsed pin) \<and>
        (\<forall>i pin. oldest = Some (i, pin) \<longrightarrow> lp_LastUsed best \<le> lp_LastUsed pin)"
  using assms
proof (induction m ids oldest rule: oldest_loop.induct)
  case (1 m oldest)
  then show ?case by (auto split: option.splits)
next
  case (2 m i ids oldest)
  show ?case
  proof (cases "m i")
    case None
    then show ?thesis using 2(1) [OF None 2(5)] by (auto split: option.splits)
  next
    case (Some pin)
    consider "0 < lp_PinCount pin"
      | "\<not> 0 < lp_PinCount pin" "case oldest of None \<Rightarrow> True | Some (_, best) \<Rightarrow> lp_LastUsed pin < lp_LastUsed best"
      | "\<not> 0 < lp_PinCount pin" "\<not> (case oldest of None \<Rightarrow> True | Some (_, best) \<Rightarrow> lp_LastUsed pin < lp_LastUsed best)" by blast
    then show ?thesis
    proof cases
      case 1
      then show ?thesis using 2(2) [OF Some 1 2(5)] Some by (auto split: option.splits)
    next
      case c: 2
      have "case Some (i, pin) of None \<Rightarrow> True | Some (j, pin) \<Rightarrow> m j = Some pin \<and> lp_PinCount pin \<le> 0" using Some c by simp
      from 2(3) [OF Some c this] show ?thesis using Some c by (auto split: option.splits) 
    next
      case c: 3
      then show ?thesis using 2(4) [OF Some c 2(5)] Some by (auto split: option.splits)
    qed
  qed
qed

text \<open>An eviction takes out the least recently used adapter that is not locked, if there is one.\<close>

lemma evictOldest_spec:
  assumes "iteration_order keys (lm_pinned l)" "lora_inv l"
  shows "case evictOldest keys l of
      (l', False) \<Rightarrow> l' = l \<and> lm_pinned l = locked (lm_pinned l)
    | (l', True) \<Rightarrow> lora_inv l' \<and> (\<exists>i pin. lm_pinned l i = Some pin \<and> lp_PinCount pin \<le> 0 \<and>
        (\<forall>j q. lm_pinned l j = Some q \<longrightarrow> lp_PinCount q \<le> 0 \<longrightarrow> lp_LastUsed pin \<le> lp_LastUsed q) \<and>
        lm_pinned l' = (lm_pinned l)(i := None)) \<and> lm_maxCapacity l' = lm_maxCapacity l"
proof -
  have keys: "set keys = dom (lm_pinned l)" using assms(1) by (simp add: iteration_order_def)
  note r = oldest_loop_result [where oldest = None and m = "lm_pinned l" and ids = keys, simplified]
  show ?thesis
  proof (cases "oldest_loop (lm_pinned l) keys None")
    case None
    then have "\<forall>i pin. lm_pinned l i = Some pin \<longrightarrow> 0 < lp_PinCount pin" using r keys by (auto simp: dom_def)
    then have "lm_pinned l = locked (lm_pinned l)" by (auto simp: locked_def restrict_map_def fun_eq_iff)
    then show ?thesis using None by (simp add: evictOldest_def)
  next
    case (Some ip)
    then obtain i pin where o: "oldest_loop (lm_pinned l) keys None = Some (i, pin)" by (cases ip) simp
    then have m: "lm_pinned l i = Some pin" "lp_PinCount pin \<le> 0"
      "\<forall>j q. lm_pinned l j = Some q \<longrightarrow> lp_PinCount q \<le> 0 \<longrightarrow> lp_LastUsed pin \<le> lp_LastUsed q"
      using r keys by (auto simp: dom_def)
    let ?m' = "(lm_pinned l)(i := None)"
    have t: "pin_total ?m' = lm_used l - lp_SizeBytes pin" "0 \<le> lp_SizeBytes pin"
      using pin_total_remove [of "lm_pinned l" i pin] assms(2) m(1) by (auto simp: lora_inv_def)
    moreover have "0 \<le> pin_total ?m'" using assms(2) by (intro pin_total_nonneg) (auto simp: lora_inv_def split: if_splits)
    moreover have "lm_used l < 2 ^ 62" using assms(2) by (auto simp: lora_inv_def)
    ultimately have "wrap64 (lm_used l - lp_SizeBytes pin) = pin_total ?m'" by simp
    then have "lora_inv (l\<lparr>lm_pinned := ?m', lm_used := wrap64 (lm_used l - lp_SizeBytes pin)\<rparr>)"
      using assms(2) t by (auto simp: lora_inv_def)
    then show ?thesis using o m by (auto simp: evictOldest_def)
  qed
qed

lemma locked_remove: "m i = Some pin \<Longrightarrow> lp_PinCount pin \<le> 0 \<Longrightarrow> locked (m(i := None)) = locked m"
  by (auto simp: locked_def restrict_map_def fun_eq_iff)

lemma locked_sub: "locked m \<subseteq>\<^sub>m m"
  by (auto simp: locked_def map_le_def restrict_map_def split: if_splits)

lemma pin_total_mono:
  assumes "m \<subseteq>\<^sub>m m'" "finite (dom m')" "\<And>i pin. m' i = Some pin \<Longrightarrow> 0 \<le> lp_SizeBytes pin"
  shows "pin_total m \<le> pin_total m'"
proof -
  have "pin_total m = (\<Sum>i \<in> dom m. lp_SizeBytes (the (m' i)))"
    unfolding pin_total_def using assms(1) by (intro sum.cong) (auto simp: map_le_def)
  also have "\<dots> \<le> pin_total m'"
    unfolding pin_total_def using map_le_implies_dom_le [OF assms(1)] assms(2,3) by (intro sum_mono2) auto
  finally show ?thesis .
qed

text \<open>
  Making room ends, keeps the locked adapters and the accounts, and fails only when nothing but
  locked adapters is left.
\<close>

lemma make_room_spec:
  assumes "\<forall>k m. finite (dom m) \<longrightarrow> iteration_order (order k m) m" "0 \<le> size_b" "size_b < 2 ^ 62"
    and "lora_inv l" "card (dom (lm_pinned l)) < n"
  shows "\<exists>l' room. make_room order n size_b l = Some (l', room) \<and> lora_inv l' \<and> lm_maxCapacity l' = lm_maxCapacity l \<and>
    locked (lm_pinned l') = locked (lm_pinned l) \<and> lm_pinned l' \<subseteq>\<^sub>m lm_pinned l \<and>
    (if room then lm_used l' + size_b \<le> lm_maxCapacity l
     else lm_pinned l' = locked (lm_pinned l) \<and> lm_maxCapacity l < lm_used l' + size_b)"
  using assms(4,5)
proof (induction n arbitrary: l)
  case (Suc n)
  have fin: "finite (dom (lm_pinned l))" using Suc.prems(1) by (simp add: lora_inv_def)
  have "0 \<le> lm_used l" using Suc.prems(1) pin_total_nonneg [of "lm_pinned l"] by (auto simp: lora_inv_def)
  then have w: "wrap64 (lm_used l + size_b) = lm_used l + size_b"
    using Suc.prems(1) assms(2,3) by (intro wrap64_id) (auto simp: lora_inv_def)
  obtain l' ok where e: "evictOldest (order n (lm_pinned l)) l = (l', ok)" by fastforce
  note spec = evictOldest_spec [OF assms(1) [rule_format, OF fin, of n] Suc.prems(1), unfolded e]
  show ?case
  proof (cases "lm_maxCapacity l < lm_used l + size_b")
    case False
    then show ?thesis using Suc.prems(1) w by auto
  next
    case full: True
    show ?thesis
    proof (cases ok)
      case False
      then show ?thesis using e spec full w Suc.prems(1) by auto
    next
      case True
      with spec obtain i pin where s: "lora_inv l'" "lm_pinned l i = Some pin" "lp_PinCount pin \<le> 0"
        "lm_pinned l' = (lm_pinned l)(i := None)" "lm_maxCapacity l' = lm_maxCapacity l" by auto
      have "i \<in> dom (lm_pinned l)" using s(2) by auto
      then have "card (dom (lm_pinned l')) < n" using Suc.prems(2) fin card_gt_0_iff [of "dom (lm_pinned l)"] unfolding s(4) by auto
      from Suc.IH [OF s(1) this] obtain l'' room where r: "make_room order n size_b l' = Some (l'', room)" "lora_inv l''"
        "lm_maxCapacity l'' = lm_maxCapacity l'" "locked (lm_pinned l'') = locked (lm_pinned l')" "lm_pinned l'' \<subseteq>\<^sub>m lm_pinned l'"
        "if room then lm_used l'' + size_b \<le> lm_maxCapacity l' else lm_pinned l'' = locked (lm_pinned l') \<and> lm_maxCapacity l' < lm_used l'' + size_b"
        by blast
      moreover have "lm_pinned l' \<subseteq>\<^sub>m lm_pinned l" unfolding s(4) by (auto simp: map_le_def)
      ultimately show ?thesis using e True full w s locked_remove [where m = "lm_pinned l", OF s(2,3)] map_le_trans [OF r(5)] by auto
    qed
  qed
qed simp

text \<open>
  A prefetch of an adapter that is not pinned succeeds exactly when it fits beside the locked ones.
  It never evicts a locked adapter and keeps the accounts; when it fails it has evicted every other
  adapter.
\<close>

lemma Prefetch_spec:
  assumes "\<forall>k m. finite (dom m) \<longrightarrow> iteration_order (order k m) m" "0 \<le> size_b" "size_b < 2 ^ 62"
    and "lora_inv l" "lm_pinned l a = None"
  shows "\<exists>l' r. Prefetch order now a size_b l = Some (l', r) \<and> lora_inv l' \<and>
    (r = None \<longleftrightarrow> pin_total (locked (lm_pinned l)) + size_b \<le> lm_maxCapacity l) \<and>
    locked (lm_pinned l') = locked (lm_pinned l) \<and>
    (if r = None then a \<in> dom (lm_pinned l') else lm_pinned l' = locked (lm_pinned l))"
proof -
  have fin: "finite (dom (lm_pinned l))" using assms(4) by (simp add: lora_inv_def)
  let ?n = "Suc (length (order 0 (lm_pinned l)))"
  have "card (dom (lm_pinned l)) < ?n" using iteration_order_card [OF assms(1) [rule_format, OF fin, of 0]] by simp
  from make_room_spec [OF assms(1-4) this] obtain l' room where r: "make_room order ?n size_b l = Some (l', room)" "lora_inv l'"
    "lm_maxCapacity l' = lm_maxCapacity l" "locked (lm_pinned l') = locked (lm_pinned l)" "lm_pinned l' \<subseteq>\<^sub>m lm_pinned l"
    "if room then lm_used l' + size_b \<le> lm_maxCapacity l else lm_pinned l' = locked (lm_pinned l) \<and> lm_maxCapacity l < lm_used l' + size_b" by blast
  have u: "lm_used l' = pin_total (lm_pinned l')" using r(2) by (simp add: lora_inv_def)
  show ?thesis
  proof (cases room)
    case False
    then show ?thesis using r u assms(5) by (auto simp: Prefetch_def)
  next
    case True
    have n: "lm_pinned l' a = None" using r(5) assms(5) by (auto simp: map_le_def dom_def)
    have t: "pin_total ((lm_pinned l')(a \<mapsto> \<lparr>lp_AdapterID = a, lp_SizeBytes = size_b, lp_PinCount = 0, lp_LastUsed = now\<rparr>)) = lm_used l' + size_b"
      using pin_total_add [of "lm_pinned l'" a] r(2) n by (simp add: lora_inv_def)
    have "0 \<le> lm_used l'" using r(2) pin_total_nonneg [of "lm_pinned l'"] by (auto simp: lora_inv_def)
    then have "wrap64 (lm_used l' + size_b) = lm_used l' + size_b"
      using r(2) assms(2,3) by (intro wrap64_id) (auto simp: lora_inv_def)
    then have "lora_inv (l'\<lparr>lm_pinned := (lm_pinned l')(a \<mapsto> \<lparr>lp_AdapterID = a, lp_SizeBytes = size_b, lp_PinCount = 0, lp_LastUsed = now\<rparr>),
        lm_used := wrap64 (lm_used l' + size_b)\<rparr>)" using r(2,3,6) t True assms(2) by (auto simp: lora_inv_def)
    moreover have "pin_total (locked (lm_pinned l)) \<le> lm_used l'"
      unfolding u r(4) [symmetric] using r(2) by (intro pin_total_mono locked_sub) (auto simp: lora_inv_def)
    moreover have "locked ((lm_pinned l')(a \<mapsto> \<lparr>lp_AdapterID = a, lp_SizeBytes = size_b, lp_PinCount = 0, lp_LastUsed = now\<rparr>)) = locked (lm_pinned l')"
      using n by (auto simp: locked_def restrict_map_def fun_eq_iff)
    ultimately show ?thesis using r True assms(5) by (auto simp: Prefetch_def)
  qed
qed

lemma pin_total_update:
  assumes "finite (dom m)" "m i = Some pin" "lp_SizeBytes pin' = lp_SizeBytes pin"
  shows "pin_total (m(i \<mapsto> pin')) = pin_total m"
  using pin_total_add [of "m(i := None)" i pin'] pin_total_remove [OF assms(1,2)] assms by simp

lemma lock_inv: "lora_inv l \<Longrightarrow> lora_inv (fst (LockAdapter now a l))" "lora_inv l \<Longrightarrow> lora_inv (UnlockAdapter a l)"
  by (auto simp: lora_inv_def LockAdapter_def UnlockAdapter_def pin_total_update split: option.splits)

text \<open>Locking and unlocking an adapter leaves its count as it was.\<close>

lemma lock_unlock:
  assumes "lm_pinned l a = Some pin" "0 \<le> lp_PinCount pin" "lp_PinCount pin < 2 ^ 31 - 1"
  shows "lm_pinned (UnlockAdapter a (fst (LockAdapter now a l))) = (lm_pinned l)(a \<mapsto> pin\<lparr>lp_LastUsed := now\<rparr>)"
  using assms by (simp add: LockAdapter_def UnlockAdapter_def)

section \<open>Prefixes\<close>

text \<open>Test vectors of FNV-1a.\<close>

lemma fnv_vectors: "hashPrefix '''' = 0xcbf29ce484222325" "hashPrefix ''a'' = 0xaf63dc4c8601ec8c"
  by (simp_all add: hashPrefix_def)

lemma Register_key: "fst (Register p n w) (hex16 (hashPrefix p)) = Some (snd (Register p n w))"
  by (simp add: Register_def Let_def split: option.split)

lemma Register_idem: "Register p n' (fst (Register p n w)) = (fst (Register p n w), snd (Register p n w))"
  by (simp add: Register_def Let_def split: option.split)

text \<open>After an endpoint is marked, a lookup of a registered prefix returns it, each endpoint once.\<close>

lemma MarkCached_LookupEndpoint:
  assumes "w (hex16 (hashPrefix p)) = Some e" "distinct (pe_Endpoints e)"
  shows "distinct (snd (LookupEndpoint now p (MarkCached p ep w))) \<and>
    set (snd (LookupEndpoint now p (MarkCached p ep w))) = insert ep (set (pe_Endpoints e))"
  using assms by (auto simp: LookupEndpoint_def MarkCached_def Let_def)

text \<open>An eviction removes exactly the stale entries.\<close>

lemma evict_stale_loop_spec:
  "distinct keys \<Longrightarrow> fst (evict_stale_loop cutoff keys w n) =
     (\<lambda>k. if k \<in> set keys \<and> (\<exists>e. w k = Some e \<and> stale_prefix cutoff e) then None else w k)"
  by (induction cutoff keys w n rule: evict_stale_loop.induct) (auto simp: fun_eq_iff split: option.splits)

text \<open>
  A registered prefix has never been used, so its time of last use is the epoch: the next eviction
  removes it, however recent the registration.
\<close>

lemma fresh_prefix_evicted:
  assumes "w (hex16 (hashPrefix p)) = None" "iteration_order keys (fst (Register p n w))"
    and "0 < time_add now (wrap64 (- maxAge)) div 10 ^ 6 - 62135596800000"
  shows "fst (EvictStale now maxAge keys (fst (Register p n w))) (hex16 (hashPrefix p)) = None"
  using assms by (simp add: EvictStale_def iteration_order_def evict_stale_loop_spec Register_def stale_prefix_def Let_def)

text \<open>The two bypasses write the same annotation: the one applied last is the one in effect.\<close>

lemma bypasses_conflict:
  assumes "EnableXDP e" "EnableRDMA z"
  shows "the (fst (ApplyZeroCopy z (ApplyBypass e (Some a), l))) ''k8s.v1.cni.cncf.io/networks'' = Some ''roce-network''"
    "the (ApplyBypass e (fst (ApplyZeroCopy z (Some a, l)))) ''k8s.v1.cni.cncf.io/networks'' = Some ''xdp-bypass-net''"
  using assms by (simp_all add: ApplyBypass_def ApplyZeroCopy_def)

end
