(* ===== verification/Spec2Isabelle.thy ===== *)
theory Spec2Isabelle
  imports Lifecycle Mode Statevector Kv_Transfer Coactor Token_Queue_Inv Residency Composition Admission Binary_Tensor Flight_Recorder Resilience Storage_Init Inference_Pipeline Inference_Caches
begin

text \<open>Verification development.\<close>

end
